(* ===== verification/Prelude.thy ===== *)
theory Prelude
  imports Main "HOL-Library.List_Lexorder" "HOL-Library.Char_ord"
    "HOL-Library.Product_Lexorder" "HOL-Library.Multiset"
begin

text \<open>
  Shared vocabulary of the development: the Go strings functions the program calls (a Go
  string is a sequence of bytes, an Isabelle \<^typ>\<open>string\<close> a list of 8-bit characters, and
  \<open>HOL-Library.List_Lexorder\<close> orders them byte by byte, as Go's \<open><\<close> and SQLite's BINARY
  collation do), Go's error values, SQL's row-wise UPDATE, row-id allocation and LIMIT, and
  the record of library services that are not part of the repository.
\<close>

named_theorems row_simps \<comment> \<open>how table updates act on keys, lookups and filters\<close>
named_theorems str_simps \<comment> \<open>unfolding of the string functions on closed terms\<close>

section \<open>Strings\<close>

text \<open>\<^verbatim>\<open>strings.HasPrefix\<close>, \<^verbatim>\<open>strings.HasSuffix\<close>, \<^verbatim>\<open>strings.TrimPrefix\<close>, \<^verbatim>\<open>strings.TrimSuffix\<close>.\<close>

definition HasPrefix :: "string \<Rightarrow> string \<Rightarrow> bool" where
  "HasPrefix s p \<longleftrightarrow> take (length p) s = p"

definition HasSuffix :: "string \<Rightarrow> string \<Rightarrow> bool" where
  "HasSuffix s p \<longleftrightarrow> HasPrefix (rev s) (rev p)"

definition TrimPrefix :: "string \<Rightarrow> string \<Rightarrow> string" where
  "TrimPrefix s p = (if HasPrefix s p then drop (length p) s else s)"

definition TrimSuffix :: "string \<Rightarrow> string \<Rightarrow> string" where
  "TrimSuffix s p = (if HasSuffix s p then take (length s - length p) s else s)"

text \<open>\<^verbatim>\<open>strings.TrimRight(s, cutset)\<close>: drop trailing bytes of the cutset.\<close>

definition TrimRight :: "string \<Rightarrow> string \<Rightarrow> string" where
  "TrimRight s cs = rev (dropWhile (\<lambda>c. c \<in> set cs) (rev s))"

text \<open>\<^verbatim>\<open>strings.Contains\<close> and \<^verbatim>\<open>strings.ContainsAny\<close>.\<close>

fun Contains :: "string \<Rightarrow> string \<Rightarrow> bool" where
  "Contains [] p = (p = [])"
| "Contains (c # s) p = (HasPrefix (c # s) p \<or> Contains s p)"

definition ContainsAny :: "string \<Rightarrow> string \<Rightarrow> bool" where
  "ContainsAny s cs = list_ex (\<lambda>c. c \<in> set cs) s"

text \<open>
  \<^verbatim>\<open>strings.LastIndex(s, "@")\<close> for a one-byte needle, with \<open>-1\<close> when it is absent, and the
  slice \<^verbatim>\<open>s[strings.LastIndex(s, "@")+1:]\<close> the program takes of an address. The slice
  cannot panic: \<open>LastIndex\<close> is at most \<open>len(s) - 1\<close>.
\<close>

fun LastIndex :: "string \<Rightarrow> char \<Rightarrow> int" where
  "LastIndex [] c = - 1"
| "LastIndex (x # s) c =
     (let i = LastIndex s c in if 0 \<le> i then i + 1 else if x = c then 0 else - 1)"

definition after_at :: "string \<Rightarrow> string" where
  "after_at s = drop (nat (LastIndex s CHR ''@'' + 1)) s"

lemma LastIndex_bounds: "- 1 \<le> LastIndex s c \<and> LastIndex s c < int (length s)"
  by (induction s) (auto simp: Let_def)

lemma LastIndex_notin: "c \<notin> set s \<Longrightarrow> LastIndex s c = - 1"
  by (induction s) (auto simp: Let_def)

lemma LastIndex_append: "c \<notin> set s \<Longrightarrow> LastIndex (l @ c # s) c = int (length l)"
  by (induction l) (auto simp: Let_def LastIndex_notin)

lemma after_at_addr [simp]:
  "CHR ''@'' \<notin> set d \<Longrightarrow> after_at (l @ CHR ''@'' # d) = d"
  by (simp add: after_at_def LastIndex_append nat_add_distrib)

lemma after_at_no_at: "CHR ''@'' \<notin> set s \<Longrightarrow> after_at s = s"
  by (simp add: after_at_def LastIndex_notin)

lemma HasPrefix_append [simp]: "HasPrefix (p @ s) p"
  by (simp add: HasPrefix_def)

lemma HasPrefix_iff: "HasPrefix s p \<longleftrightarrow> (\<exists>t. s = p @ t)"
  unfolding HasPrefix_def by (metis append_eq_conv_conj append_take_drop_id)

lemma TrimPrefix_append [simp]: "TrimPrefix (p @ s) p = s"
  by (simp add: TrimPrefix_def)

lemma Contains_append: "Contains (a @ p @ b) p"
proof (induction a)
  case Nil
  show ?case by (cases p; cases b) (auto simp: HasPrefix_def)
qed simp

lemma Contains_iff: "Contains s p \<longleftrightarrow> (\<exists>a b. s = a @ p @ b)"
proof
  show "Contains s p \<Longrightarrow> \<exists>a b. s = a @ p @ b"
  proof (induction s)
    case Nil
    then show ?case by simp
  next
    case (Cons c s)
    then show ?case
      by (auto simp: HasPrefix_iff) (metis append_Nil, metis append_Cons)
  qed
qed (auto simp: Contains_append)

lemma ContainsAny_set: "ContainsAny s cs \<longleftrightarrow> (\<exists>c \<in> set s. c \<in> set cs)"
  by (simp add: ContainsAny_def list_ex_iff)

lemmas [str_simps] = HasPrefix_def HasSuffix_def TrimPrefix_def TrimSuffix_def TrimRight_def
  ContainsAny_def after_at_def

text \<open>Byte-wise order of strings that share a fixed-width first part.\<close>

lemma less_append_same_length:
  fixes xs ys :: "'a::linorder list"
  assumes "length xs = length ys"
  shows "xs @ us < ys @ vs \<longleftrightarrow> xs < ys \<or> xs = ys \<and> us < vs"
  using assms by (induction xs ys rule: list_induct2) auto

section \<open>Hexadecimal\<close>

text \<open>\<^verbatim>\<open>hex.EncodeToString\<close>: two lower-case hexadecimal digits for each byte.\<close>

definition hex_digit :: "nat \<Rightarrow> char" where
  "hex_digit n = char_of (if n < 10 then 48 + n else 87 + n)"

definition hex_encode :: "string \<Rightarrow> string" where
  "hex_encode bs = concat (map (\<lambda>b. let n = of_char b :: nat in [hex_digit (n div 16), hex_digit (n mod 16)]) bs)"

lemma length_hex_encode [simp]: "length (hex_encode bs) = 2 * length bs"
  by (induction bs) (auto simp: hex_encode_def Let_def)

lemma hex_digit_inj: "m < 16 \<Longrightarrow> n < 16 \<Longrightarrow> hex_digit m = hex_digit n \<Longrightarrow> m = n"
  by (auto simp: hex_digit_def char_of_eq_iff of_char_of take_bit_eq_mod split: if_splits)

lemma hex_encode_inj: "hex_encode bs = hex_encode cs \<Longrightarrow> bs = cs"
proof (induction bs arbitrary: cs)
  case Nil
  then show ?case by (cases cs) (simp_all add: hex_encode_def Let_def)
next
  case (Cons b bs)
  then obtain c cs' where cs: "cs = c # cs'" by (cases cs) (simp_all add: hex_encode_def Let_def)
  let ?m = "of_char b :: nat" and ?n = "of_char c :: nat"
  have lt: "?m div 16 < 16" "?n div 16 < 16" by (rule less_mult_imp_div_less, simp)+
  from Cons.prems cs have heads: "hex_digit (?m div 16) = hex_digit (?n div 16)"
    "hex_digit (?m mod 16) = hex_digit (?n mod 16)" and tl: "hex_encode bs = hex_encode cs'"
    by (simp_all add: hex_encode_def Let_def)
  have "?m div 16 = ?n div 16" by (rule hex_digit_inj[OF lt heads(1)])
  moreover have "?m mod 16 = ?n mod 16" by (rule hex_digit_inj[OF _ _ heads(2)]) simp_all
  ultimately have "?m = ?n" by (metis div_mult_mod_eq)
  then have "b = c" by simp
  with tl cs Cons.IH show ?case by blast
qed

lemma hex_encode_chars:
  "c \<in> set (hex_encode bs) \<Longrightarrow>
   (48::nat) \<le> of_char c \<and> of_char c \<le> (57::nat) \<or> (97::nat) \<le> of_char c \<and> of_char c \<le> (102::nat)"
proof -
  have d: "(48::nat) \<le> of_char (hex_digit n) \<and> of_char (hex_digit n) \<le> (57::nat) \<or>
      (97::nat) \<le> of_char (hex_digit n) \<and> of_char (hex_digit n) \<le> (102::nat)" if "n < 16" for n
    using that by (auto simp: hex_digit_def of_char_of take_bit_eq_mod)
  assume "c \<in> set (hex_encode bs)"
  then obtain b where "c = hex_digit (of_char b div 16) \<or> c = hex_digit (of_char b mod 16)"
    by (auto simp: hex_encode_def Let_def)
  moreover have "of_char b div 16 < (16::nat)" by (rule less_mult_imp_div_less) simp
  moreover have "of_char b mod 16 < (16::nat)" by simp
  ultimately show ?thesis using d[of "of_char b div 16"] d[of "of_char b mod 16"] by auto
qed

section \<open>Decimal numbers\<close>

definition digit_value :: "char \<Rightarrow> nat option" where
  "digit_value c = (let n = of_char c in if 48 \<le> n \<and> n \<le> 57 then Some (n - 48) else None)"

fun parse_digits :: "nat \<Rightarrow> string \<Rightarrow> nat option" where
  "parse_digits acc [] = Some acc"
| "parse_digits acc (c # cs) =
     (case digit_value c of None \<Rightarrow> None | Some d \<Rightarrow> parse_digits (acc * 10 + d) cs)"

text \<open>\<^verbatim>\<open>strconv.ParseInt(s, 10, 64)\<close>: an optional sign, at least one digit, no overflow.\<close>

definition ParseInt :: "string \<Rightarrow> int option" where
  "ParseInt s =
     (let neg = HasPrefix s ''-''; digits = (if neg \<or> HasPrefix s ''+'' then tl s else s)
      in if digits = [] then None
         else case parse_digits 0 digits of
                None \<Rightarrow> None
              | Some n \<Rightarrow> (let i = (if neg then - int n else int n)
                  in if - (2 ^ 63) \<le> i \<and> i < 2 ^ 63 then Some i else None))"

text \<open>
  The number \<^verbatim>\<open>strconv.ParseInt(s, 10, 64)\<close> and \<^verbatim>\<open>strconv.Atoi(s)\<close> return beside an error the
  caller ignores: 0 for a text that is no number, the nearest bound for one that does not
  fit; digits are read until the text or the unsigned range ends.
\<close>

fun scan_digits :: "nat \<Rightarrow> string \<Rightarrow> nat" where
  "scan_digits acc [] = acc"
| "scan_digits acc (c # cs) = (case digit_value c of None \<Rightarrow> 0
     | Some d \<Rightarrow> (let n = acc * 10 + d in if 2 ^ 64 \<le> n then 2 ^ 64 - 1 else scan_digits n cs))"

definition int_value :: "string \<Rightarrow> int" where
  "int_value s =
     (let neg = HasPrefix s ''-''; digits = (if neg \<or> HasPrefix s ''+'' then tl s else s);
          n = int (scan_digits 0 digits)
      in if neg then - min n (2 ^ 63) else min n (2 ^ 63 - 1))"

section \<open>Go's error values\<close>

text \<open>
  An \<^verbatim>\<open>error\<close> of the program: the sentinels it compares with \<^verbatim>\<open>errors.Is\<close>, the two
  library errors it looks for with \<^verbatim>\<open>errors.As\<close> (\<^verbatim>\<open>*smtp.SMTPError\<close> with its code, its
  message and what its \<^verbatim>\<open>Error()\<close> prints; \<^verbatim>\<open>*net.DNSError\<close> with \<^verbatim>\<open>IsNotFound\<close> and its
  text), any other error with its text, a violated SQL constraint, and an error wrapped by
  \<^verbatim>\<open>fmt.Errorf("prefix: %w", err)\<close>.
\<close>

datatype err =
    ErrNoRows
  | ErrNotCancelable
  | ErrNotRequeueable
  | SMTPError int string string
  | DNSError bool string
  | Constraint string
  | Plain string
  | Wrapped string err

fun error_text :: "err \<Rightarrow> string" where
  "error_text ErrNoRows = ''sql: no rows in result set''"
| "error_text ErrNotCancelable = ''only a queued email can be canceled''"
| "error_text ErrNotRequeueable = ''email cannot be requeued in its current status''"
| "error_text (SMTPError code msg txt) = txt"
| "error_text (DNSError nf txt) = txt"
| "error_text (Constraint txt) = txt"
| "error_text (Plain txt) = txt"
| "error_text (Wrapped pre e) = pre @ '': '' @ error_text e"

text \<open>\<^verbatim>\<open>errors.Is(err, sentinel)\<close> and \<^verbatim>\<open>errors.As(err, &se)\<close> walk the chain of wrapped errors.\<close>

fun errors_Is :: "err \<Rightarrow> err \<Rightarrow> bool" where
  "errors_Is (Wrapped pre e) target = (Wrapped pre e = target \<or> errors_Is e target)"
| "errors_Is e target = (e = target)"

fun as_SMTPError :: "err \<Rightarrow> (int \<times> string) option" where
  "as_SMTPError (SMTPError code msg txt) = Some (code, msg)"
| "as_SMTPError (Wrapped pre e) = as_SMTPError e"
| "as_SMTPError e = None"

fun as_DNSError :: "err \<Rightarrow> bool option" where
  "as_DNSError (DNSError nf txt) = Some nf"
| "as_DNSError (Wrapped pre e) = as_DNSError e"
| "as_DNSError e = None"

section \<open>Rows: UPDATE, lookup by key, row ids, LIMIT\<close>

text \<open>A table is the list of its rows in row-id order. \<^verbatim>\<open>UPDATE t SET f WHERE P\<close>:\<close>

definition update_where :: "('r \<Rightarrow> bool) \<Rightarrow> ('r \<Rightarrow> 'r) \<Rightarrow> 'r list \<Rightarrow> 'r list" where
  "update_where P f rs = map (\<lambda>r. if P r then f r else r) rs"

text \<open>SQLite gives a new row of an \<^verbatim>\<open>INTEGER PRIMARY KEY\<close> table the largest id plus one.\<close>

definition next_rowid :: "int list \<Rightarrow> int" where
  "next_rowid ids = foldr max ids 0 + 1"

text \<open>\<^verbatim>\<open>LIMIT n\<close> (a negative n is no limit) and \<^verbatim>\<open>OFFSET m\<close> (a negative m is 0).\<close>

definition sql_limit :: "int \<Rightarrow> 'a list \<Rightarrow> 'a list" where
  "sql_limit n xs = (if n < 0 then xs else take (nat n) xs)"

definition sql_offset :: "int \<Rightarrow> 'a list \<Rightarrow> 'a list" where
  "sql_offset m xs = drop (nat m) xs"

text \<open>\<^verbatim>\<open>ORDER BY k DESC\<close>: rows with equal keys stay in row-id order.\<close>

definition sort_desc :: "('r \<Rightarrow> 'k::linorder) \<Rightarrow> 'r list \<Rightarrow> 'r list" where
  "sort_desc k rs = rev (sort_key k (rev rs))"

lemma set_sort_desc [simp]: "set (sort_desc k rs) = set rs"
  by (simp add: sort_desc_def)

lemma length_sort_desc [simp]: "length (sort_desc k rs) = length rs"
  by (simp add: sort_desc_def)

lemma mset_sort_desc [simp]: "mset (sort_desc k rs) = mset rs"
  by (simp add: sort_desc_def)

lemma sorted_sort_desc: "sorted_wrt (\<lambda>x y. k y \<le> k x) (sort_desc k rs)"
  using sorted_sort_key[of k "rev rs"]
  by (simp add: sort_desc_def sorted_wrt_rev sorted_map)

lemma length_update_where [row_simps]: "length (update_where P f rs) = length rs"
  by (simp add: update_where_def)

lemma map_update_where [row_simps]:
  "(\<And>r. k (f r) = k r) \<Longrightarrow> map k (update_where P f rs) = map k rs"
  by (simp add: update_where_def)

lemma set_update_where:
  "set (update_where P f rs) = f ` {r \<in> set rs. P r} \<union> {r \<in> set rs. \<not> P r}"
  by (auto simp: update_where_def)

lemma in_update_where:
  assumes "r \<in> set (update_where P f rs)"
  obtains r' where "r' \<in> set rs" "P r'" "r = f r'" | "r \<in> set rs" "\<not> P r"
  using assms by (auto simp: set_update_where)

lemma filter_update_where [row_simps]:
  "(\<And>r. P r \<Longrightarrow> \<not> Q (f r)) \<Longrightarrow> (\<And>r. P r \<Longrightarrow> \<not> Q r) \<Longrightarrow>
   filter Q (update_where P f rs) = filter Q rs"
  by (induction rs) (auto simp: update_where_def)

lemma find_update_where [row_simps]:
  "(\<And>r. k (f r) = k r) \<Longrightarrow>
   find (\<lambda>r. k r = i) (update_where P f rs) =
     map_option (\<lambda>r. if P r then f r else r) (find (\<lambda>r. k r = i) rs)"
  by (induction rs) (auto simp: update_where_def)

lemma find_Some_in: "find P rs = Some r \<Longrightarrow> r \<in> set rs \<and> P r"
  by (induction rs) (auto split: if_splits)

lemma find_None_notin: "find P rs = None \<longleftrightarrow> (\<forall>r \<in> set rs. \<not> P r)"
  by (induction rs) auto

lemma find_append: "find P (xs @ ys) = (case find P xs of None \<Rightarrow> find P ys | Some r \<Rightarrow> Some r)"
  by (induction xs) auto

lemma find_key:
  "distinct (map k rs) \<Longrightarrow> r \<in> set rs \<Longrightarrow> find (\<lambda>x. k x = k r) rs = Some r"
  by (induction rs) (auto simp: image_iff)

lemma distinct_key_eq:
  "distinct (map k rs) \<Longrightarrow> r \<in> set rs \<Longrightarrow> q \<in> set rs \<Longrightarrow> k r = k q \<Longrightarrow> r = q"
  by (metis find_key option.inject)

lemma foldr_max_ge: "i \<in> set ids \<Longrightarrow> i \<le> foldr max ids (z::int)" "z \<le> foldr max ids z"
  by (induction ids) auto

lemma next_rowid_gt: "i \<in> set ids \<Longrightarrow> i < next_rowid ids"
  by (simp add: next_rowid_def foldr_max_ge(1) le_imp_less_Suc add1_zle_eq zle_add1_eq_le)

lemma next_rowid_pos: "0 < next_rowid ids"
  using foldr_max_ge(2)[where z = 0 and ids = ids] by (simp add: next_rowid_def)

lemma next_rowid_fresh: "next_rowid ids \<notin> set ids"
  using next_rowid_gt by blast

lemma set_sql_limit: "set (sql_limit n xs) \<subseteq> set xs"
  by (auto simp: sql_limit_def dest: in_set_takeD)

lemma length_sql_limit: "0 \<le> n \<Longrightarrow> length (sql_limit n xs) \<le> nat n"
  by (simp add: sql_limit_def)

section \<open>Services outside the repository\<close>

text \<open>
  The parts of Go's standard library that the program uses as black boxes are arguments of
  the definitions that call them, gathered in one record: \<^verbatim>\<open>net/mail.ParseAddress\<close> (the
  display name and the bare address, or failure), \<^verbatim>\<open>(*mail.Address).String\<close> of a name and
  an address, SHA-256 as a hexadecimal string, \<^verbatim>\<open>json.Marshal\<close> and \<^verbatim>\<open>json.Unmarshal\<close> of a
  \<^verbatim>\<open>map[string]string\<close> (a list of pairs with distinct names, in any order, as Go's maps
  have none), \<^verbatim>\<open>mime.QEncoding.Encode("utf-8", s)\<close>, \<^verbatim>\<open>t.Format(time.RFC1123Z)\<close> in the
  server's zone, \<^verbatim>\<open>strconv.Quote\<close> of a string that needs escapes, and the Unicode cases of
  \<^verbatim>\<open>strings.ToLower\<close>, \<^verbatim>\<open>strings.EqualFold\<close>, \<^verbatim>\<open>strings.TrimSpace\<close> and of dropping \<^verbatim>\<open>unicode.IsSpace\<close> runes, which
  only strings with a non-ASCII byte reach.
\<close>

record libs =
  lib_parse_address :: "string \<Rightarrow> (string \<times> string) option"
  lib_address_string :: "string \<Rightarrow> string \<Rightarrow> string"
  lib_sha256_hex :: "string \<Rightarrow> string"
  lib_json_marshal :: "(string \<times> string) list \<Rightarrow> string"
  lib_json_unmarshal :: "string \<Rightarrow> err + (string \<times> string) list"
  lib_qencode :: "string \<Rightarrow> string"
  lib_rfc1123z :: "int \<Rightarrow> string"
  lib_quote :: "string \<Rightarrow> string"
  lib_unicode_lower :: "string \<Rightarrow> string"
  lib_unicode_fold :: "string \<Rightarrow> string \<Rightarrow> bool"
  lib_strip_unicode_space :: "string \<Rightarrow> string"
  lib_trim_unicode_space :: "string \<Rightarrow> string"

definition is_ascii :: "string \<Rightarrow> bool" where
  "is_ascii s = list_all (\<lambda>c. of_char c < (128::nat)) s"

definition ascii_lower :: "char \<Rightarrow> char" where
  "ascii_lower c = (let n = of_char c :: nat in if 65 \<le> n \<and> n \<le> 90 then char_of (n + 32) else c)"

text \<open>\<^verbatim>\<open>%q\<close>: printable ASCII without quotes and backslashes is only put in quotes.\<close>

definition Quote :: "'a libs_scheme \<Rightarrow> string \<Rightarrow> string" where
  "Quote L s = (if list_all (\<lambda>c. (32::nat) \<le> of_char c \<and> of_char c < (127::nat)
       \<and> c \<noteq> CHR 0x22 \<and> c \<noteq> CHR 0x5C) s
     then CHR 0x22 # s @ [CHR 0x22] else lib_quote L s)"

definition ToLower :: "'a libs_scheme \<Rightarrow> string \<Rightarrow> string" where
  "ToLower L s = (if is_ascii s then map ascii_lower s else lib_unicode_lower L s)"

text \<open>\<^verbatim>\<open>strings.Map\<close> with a function that drops the runes of \<^verbatim>\<open>unicode.IsSpace\<close>.\<close>

definition strip_space :: "'a libs_scheme \<Rightarrow> string \<Rightarrow> string" where
  "strip_space L s = (if is_ascii s
     then filter (\<lambda>c. let n = of_char c :: nat in \<not> (n = 32 \<or> 9 \<le> n \<and> n \<le> 13)) s
     else lib_strip_unicode_space L s)"

text \<open>\<^verbatim>\<open>strings.TrimSpace\<close>.\<close>

definition is_space :: "char \<Rightarrow> bool" where
  "is_space c = (let n = of_char c :: nat in n = 32 \<or> 9 \<le> n \<and> n \<le> 13)"

definition TrimSpace :: "'a libs_scheme \<Rightarrow> string \<Rightarrow> string" where
  "TrimSpace L s = (if is_ascii s then rev (dropWhile is_space (rev (dropWhile is_space s)))
     else lib_trim_unicode_space L s)"

definition EqualFold :: "'a libs_scheme \<Rightarrow> string \<Rightarrow> string \<Rightarrow> bool" where
  "EqualFold L s t = (if is_ascii s \<and> is_ascii t then map ascii_lower s = map ascii_lower t
     else lib_unicode_fold L s t)"

end
