(* ===== verification/GoTime.thy ===== *)
theory GoTime
  imports Prelude
begin

text \<open>
  The part of Go's \<^verbatim>\<open>time\<close> package the program uses, and the timestamp functions of
  \<^verbatim>\<open>internal/store/store.go\<close>. A \<^verbatim>\<open>time.Time\<close> is the number of nanoseconds since the Unix
  epoch (the program only uses UTC), a \<^verbatim>\<open>time.Duration\<close> a number of nanoseconds. The
  calendar is the proleptic Gregorian one. The main result is that the RFC 3339 strings the
  store writes compare byte by byte as the times they stand for, second by second: every
  \<^verbatim>\<open>created_at >= ?\<close> and \<^verbatim>\<open>next_attempt_at <= ?\<close> of the SQL rests on it.
\<close>

type_synonym time = int
type_synonym duration = int

abbreviation second :: duration where "second \<equiv> 1000000000"
abbreviation minute :: duration where "minute \<equiv> 60000000000"
abbreviation hour :: duration where "hour \<equiv> 3600000000000"

section \<open>The calendar\<close>

definition is_leap :: "int \<Rightarrow> bool" where
  "is_leap y \<longleftrightarrow> y mod 4 = 0 \<and> (y mod 100 \<noteq> 0 \<or> y mod 400 = 0)"

text \<open>Days from 1 January of year 1 to 1 January of year \<open>y\<close>.\<close>

definition days_before_year :: "int \<Rightarrow> int" where
  "days_before_year y = 365 * (y - 1) + (y - 1) div 4 - (y - 1) div 100 + (y - 1) div 400"

definition days_before_month :: "bool \<Rightarrow> int \<Rightarrow> int" where
  "days_before_month leap m =
     [0, 31, 59, 90, 120, 151, 181, 212, 243, 273, 304, 334, 365] ! nat (m - 1)
     + (if leap \<and> 2 < m then 1 else 0)"

text \<open>The year of a day count: an estimate from the mean year, off by at most one.\<close>

definition year_of :: "int \<Rightarrow> int" where
  "year_of d = (let c = (400 * d) div 146097 + 1
     in if d < days_before_year c then c - 1
        else if days_before_year (c + 1) \<le> d then c + 1 else c)"

fun month_from :: "nat \<Rightarrow> bool \<Rightarrow> int \<Rightarrow> int \<Rightarrow> int" where
  "month_from 0 leap doy m = m"
| "month_from (Suc k) leap doy m =
     (if doy < days_before_month leap (m + 1) then m else month_from k leap doy (m + 1))"

definition month_of :: "bool \<Rightarrow> int \<Rightarrow> int" where
  "month_of leap doy = month_from 11 leap doy 1"

definition unix_to_absolute :: int where
  "unix_to_absolute = 719162" \<comment> \<open>days from 1 January of year 1 to 1 January 1970\<close>

record civil =
  c_year :: int
  c_month :: int
  c_day :: int
  c_hour :: int
  c_min :: int
  c_sec :: int

definition civil_of :: "time \<Rightarrow> civil" where
  "civil_of t = (let secs = t div second; d = secs div 86400 + unix_to_absolute;
       sod = secs mod 86400; y = year_of d; leap = is_leap y;
       doy = d - days_before_year y; m = month_of leap doy
     in \<lparr>c_year = y, c_month = m, c_day = doy - days_before_month leap m + 1,
         c_hour = sod div 3600, c_min = sod mod 3600 div 60, c_sec = sod mod 60\<rparr>)"

text \<open>
  \<^verbatim>\<open>time.Date(y, m, d, h, mi, s, ns, time.UTC)\<close>: the month is normalised into 1..12 with a
  carry into the year, every other field by adding up.
\<close>

definition Date :: "int \<Rightarrow> int \<Rightarrow> int \<Rightarrow> int \<Rightarrow> int \<Rightarrow> int \<Rightarrow> int \<Rightarrow> time" where
  "Date y m d h mi s ns = (let y' = y + (m - 1) div 12; m' = (m - 1) mod 12 + 1;
       days = days_before_year y' + days_before_month (is_leap y') m' + (d - 1) - unix_to_absolute
     in (((days * 24 + h) * 60 + mi) * 60 + s) * second + ns)"

text \<open>\<^verbatim>\<open>t.AddDate(years, months, days)\<close> keeps the clock and normalises the date.\<close>

definition AddDate :: "time \<Rightarrow> int \<Rightarrow> int \<Rightarrow> int \<Rightarrow> time" where
  "AddDate t ys ms ds = (let c = civil_of t
     in Date (c_year c + ys) (c_month c + ms) (c_day c + ds) (c_hour c) (c_min c) (c_sec c)
          (t mod second))"

subsection \<open>The calendar is strictly monotone\<close>

lemma div_Suc_cases:
  fixes q n :: int
  assumes "0 < n"
  shows "(q + 1) div n = q div n + (if (q + 1) mod n = 0 then 1 else 0)"
proof -
  have q: "q + 1 = n * (q div n) + (q mod n + 1)" by simp
  have r: "0 \<le> q mod n" "q mod n < n" using assms by simp_all
  show ?thesis
  proof (cases "q mod n + 1 = n")
    case True
    moreover have "n * (q div n + 1) = n * (q div n) + n" by (simp add: distrib_left)
    ultimately have "q + 1 = n * (q div n + 1) + 0" using q by linarith
    with assms show ?thesis by (simp add: int_div_pos_eq int_mod_pos_eq)
  next
    case False
    with r have "0 \<le> q mod n + 1" "q mod n + 1 < n" "q mod n + 1 \<noteq> 0" by simp_all
    with q show ?thesis by (simp add: int_div_pos_eq[OF q] int_mod_pos_eq[OF q])
  qed
qed

lemma days_before_year_Suc:
  "days_before_year (y + 1) = days_before_year y + (if is_leap y then 366 else 365)"
proof -
  define i4 i100 i400 where "i4 = (if y mod 4 = 0 then 1 else 0 :: int)"
    and "i100 = (if y mod 100 = 0 then 1 else 0 :: int)"
    and "i400 = (if y mod 400 = 0 then 1 else 0 :: int)"
  have c4: "y div 4 = (y - 1) div 4 + i4"
    using div_Suc_cases[of 4 "y - 1"] unfolding i4_def by (simp only: diff_add_cancel zero_less_numeral)
  have c100: "y div 100 = (y - 1) div 100 + i100"
    using div_Suc_cases[of 100 "y - 1"] unfolding i100_def by (simp only: diff_add_cancel zero_less_numeral)
  have c400: "y div 400 = (y - 1) div 400 + i400"
    using div_Suc_cases[of 400 "y - 1"] unfolding i400_def by (simp only: diff_add_cancel zero_less_numeral)
  have "days_before_year (y + 1) = 365 * y + ((y - 1) div 4 + i4) - ((y - 1) div 100 + i100)
      + ((y - 1) div 400 + i400)"
    unfolding days_before_year_def c4[symmetric] c100[symmetric] c400[symmetric] by simp
  then have sum: "days_before_year (y + 1) = days_before_year y + 365 + i4 - i100 + i400"
    unfolding days_before_year_def[of y] by (simp only: algebra_simps)
  have "y mod 100 = 0 \<Longrightarrow> y mod 4 = 0" "y mod 400 = 0 \<Longrightarrow> y mod 100 = 0"
    using mod_mod_cancel[of 4 100 y] mod_mod_cancel[of 100 400 y] by auto
  then have "365 + i4 - i100 + i400 = (if is_leap y then 366 else 365)"
    unfolding is_leap_def i4_def i100_def i400_def by (cases "y mod 4 = 0"; cases "y mod 100 = 0"; cases "y mod 400 = 0") simp_all
  with sum show ?thesis by linarith
qed

lemma days_before_year_bounds:
  "146097 * (y - 1) - 699 \<le> 400 * days_before_year y"
  "400 * days_before_year y \<le> 146097 * (y - 1) + 396"
proof -
  define q a b c where "q = y - 1" and "a = q div 4" and "b = q div 100" and "c = q div 400"
  have "4 * a \<le> q" "q \<le> 4 * a + 3" "100 * b \<le> q" "q \<le> 100 * b + 99"
       "400 * c \<le> q" "q \<le> 400 * c + 399"
    unfolding a_def b_def c_def by presburger+
  moreover have "days_before_year y = 365 * q + a - b + c"
    by (simp add: days_before_year_def q_def a_def b_def c_def)
  ultimately show "146097 * (y - 1) - 699 \<le> 400 * days_before_year y"
    and "400 * days_before_year y \<le> 146097 * (y - 1) + 396"
    unfolding q_def[symmetric] by linarith+
qed

lemma days_before_year_strict: "y < z \<Longrightarrow> days_before_year y + 365 \<le> days_before_year z"
proof (induction z rule: int_gr_induct)
  case base
  then show ?case by (simp add: days_before_year_Suc)
next
  case (step z)
  then show ?case by (simp add: days_before_year_Suc)
qed

lemma year_of_bounds: "days_before_year (year_of d) \<le> d \<and> d < days_before_year (year_of d + 1)"
proof -
  define c where "c = (400 * d) div 146097 + 1"
  obtain r where "400 * d = 146097 * (c - 1) + r" "0 \<le> r" "r < 146097"
  proof
    show "400 * d = 146097 * (c - 1) + (400 * d) mod 146097" by (simp add: c_def)
  qed simp_all
  then have "days_before_year (c - 1) \<le> d" and "d < days_before_year (c + 2)"
    using days_before_year_bounds(2)[of "c - 1"] days_before_year_bounds(1)[of "c + 2"]
    by (simp_all add: algebra_simps)
  moreover have "year_of d = (if d < days_before_year c then c - 1
      else if days_before_year (c + 1) \<le> d then c + 1 else c)"
    by (simp only: year_of_def Let_def c_def)
  moreover have "c - 1 + 1 = c" "c + 1 + 1 = c + 2" by simp_all
  ultimately show ?thesis by (cases "d < days_before_year c"; cases "days_before_year (c + 1) \<le> d") (simp_all add: add.commute)
qed

lemma days_before_year_mono: "y \<le> z \<Longrightarrow> days_before_year y \<le> days_before_year z"
  using days_before_year_strict[of y z] by (cases "y = z") auto

lemma year_of_unique:
  "days_before_year y \<le> d \<Longrightarrow> d < days_before_year (y + 1) \<Longrightarrow> year_of d = y"
  using year_of_bounds[of d] days_before_year_mono[of "year_of d + 1" y]
    days_before_year_mono[of "y + 1" "year_of d"] by linarith

lemma year_of_mono: "d \<le> e \<Longrightarrow> year_of d \<le> year_of e"
  using year_of_bounds[of d] year_of_bounds[of e] days_before_year_mono[of "year_of e + 1" "year_of d"]
  by linarith

lemma month_12: "m \<in> {1..12} \<longleftrightarrow> m = 1 \<or> m = 2 \<or> m = 3 \<or> m = 4 \<or> m = 5 \<or> m = 6 \<or> m = 7 \<or>
   m = 8 \<or> m = 9 \<or> m = 10 \<or> m = 11 \<or> m = (12::int)"
  by (simp only: atLeastAtMost_iff) presburger

lemma month_from_bounds:
  "days_before_month leap m \<le> doy \<Longrightarrow> doy < days_before_month leap (m + int k + 1) \<Longrightarrow>
   month_from k leap doy m \<in> {m..m + int k} \<and>
   days_before_month leap (month_from k leap doy m) \<le> doy \<and>
   doy < days_before_month leap (month_from k leap doy m + 1)"
proof (induction k arbitrary: m)
  case 0
  then show ?case by simp
next
  case (Suc k)
  show ?case
  proof (cases "doy < days_before_month leap (m + 1)")
    case True
    with Suc.prems show ?thesis by simp
  next
    case False
    with Suc.prems Suc.IH[of "m + 1"] show ?thesis by (simp add: algebra_simps)
  qed
qed

lemma month_of_bounds:
  assumes "0 \<le> doy" "doy < (if leap then 366 else 365)"
  shows "month_of leap doy \<in> {1..12} \<and> days_before_month leap (month_of leap doy) \<le> doy \<and>
         doy < days_before_month leap (month_of leap doy + 1)"
proof -
  have "days_before_month leap 1 = 0" "days_before_month leap 13 = (if leap then 366 else 365)"
    by (simp_all add: days_before_month_def)
  with assms month_from_bounds[of leap 1 doy 11] show ?thesis by (simp add: month_of_def)
qed

lemma days_before_month_step:
  "m \<in> {1..12} \<Longrightarrow> days_before_month leap m + 28 \<le> days_before_month leap (m + 1) \<and>
     days_before_month leap (m + 1) \<le> days_before_month leap m + 31"
  unfolding month_12 by (elim disjE) (simp_all add: days_before_month_def)

lemma days_before_month_mono:
  assumes "m \<le> m'" "1 \<le> m" "m' \<le> 13"
  shows "days_before_month leap m \<le> days_before_month leap m'"
  using assms
proof (induction m' rule: int_ge_induct)
  case (step m')
  then show ?case using days_before_month_step[of m' leap] by simp
qed simp

subsection \<open>What \<^verbatim>\<open>civil_of\<close> computes, and its inverse \<^verbatim>\<open>Date\<close>\<close>

definition abs_day :: "time \<Rightarrow> int" where
  "abs_day t = t div second div 86400 + unix_to_absolute"

definition sec_of_day :: "time \<Rightarrow> int" where
  "sec_of_day t = t div second mod 86400"

definition day_of_year :: "time \<Rightarrow> int" where
  "day_of_year t = abs_day t - days_before_year (year_of (abs_day t))"

lemma civil_of_simps:
  "c_year (civil_of t) = year_of (abs_day t)"
  "c_month (civil_of t) = month_of (is_leap (year_of (abs_day t))) (day_of_year t)"
  "c_day (civil_of t) = day_of_year t
     - days_before_month (is_leap (year_of (abs_day t))) (c_month (civil_of t)) + 1"
  "c_hour (civil_of t) = sec_of_day t div 3600"
  "c_min (civil_of t) = sec_of_day t mod 3600 div 60"
  "c_sec (civil_of t) = sec_of_day t mod 60"
  by (simp_all add: civil_of_def Let_def abs_day_def sec_of_day_def day_of_year_def)

lemma day_of_year_bounds:
  "0 \<le> day_of_year t" "day_of_year t < (if is_leap (year_of (abs_day t)) then 366 else 365)"
  using year_of_bounds[of "abs_day t"] days_before_year_Suc[of "year_of (abs_day t)"]
  by (auto simp: day_of_year_def)

lemma civil_ranges:
  "c_month (civil_of t) \<in> {1..12}" "c_day (civil_of t) \<in> {1..31}"
  "c_hour (civil_of t) \<in> {0..23}" "c_min (civil_of t) \<in> {0..59}" "c_sec (civil_of t) \<in> {0..59}"
proof -
  let ?l = "is_leap (year_of (abs_day t))"
  note m = month_of_bounds[OF day_of_year_bounds[of t]]
  then show "c_month (civil_of t) \<in> {1..12}" by (simp add: civil_of_simps)
  show "c_day (civil_of t) \<in> {1..31}"
    using m days_before_month_step[of "month_of ?l (day_of_year t)" ?l]
    by (auto simp: civil_of_simps)
  have s: "0 \<le> sec_of_day t" "sec_of_day t < 86400" by (simp_all add: sec_of_day_def)
  then show "c_hour (civil_of t) \<in> {0..23}" by (auto simp: civil_of_simps)
  show "c_min (civil_of t) \<in> {0..59}" "c_sec (civil_of t) \<in> {0..59}"
    using pos_mod_bound[of 3600 "sec_of_day t"] pos_mod_sign[of 3600 "sec_of_day t"]
    by (auto simp: civil_of_simps)
qed

lemma month_of_unique:
  assumes "m \<in> {1..12}" "days_before_month leap m \<le> doy" "doy < days_before_month leap (m + 1)"
    and "doy < (if leap then 366 else 365)"
  shows "month_of leap doy = m"
proof -
  let ?m = "month_of leap doy"
  have "0 \<le> doy"
    using assms(1,2) days_before_month_mono[of 1 m leap] by (simp add: days_before_month_def)
  then have b: "?m \<in> {1..12}" "days_before_month leap ?m \<le> doy" "doy < days_before_month leap (?m + 1)"
    using month_of_bounds assms(4) by auto
  show ?thesis
  proof (rule ccontr)
    assume "?m \<noteq> m"
    then consider "?m + 1 \<le> m" | "m + 1 \<le> ?m" by linarith
    then show False
      using days_before_month_mono[of "?m + 1" m leap] days_before_month_mono[of "m + 1" ?m leap]
        assms(1-3) b by cases auto
  qed
qed

lemma month_of_mono:
  assumes "0 \<le> d" "d \<le> e" "e < (if leap then 366 else 365)"
  shows "month_of leap d \<le> month_of leap e"
proof (rule ccontr)
  assume a: "\<not> ?thesis"
  have "month_of leap d \<in> {1..12}" "days_before_month leap (month_of leap d) \<le> d"
    "month_of leap e \<in> {1..12}" "e < days_before_month leap (month_of leap e + 1)"
    using assms month_of_bounds[of d leap] month_of_bounds[of e leap] by auto
  with a assms(2) days_before_month_mono[of "month_of leap e + 1" "month_of leap d" leap] show False
    by auto
qed

text \<open>\<^verbatim>\<open>Date\<close> of the fields of a time is that time, to the second.\<close>

lemma Date_civil_of:
  "Date (c_year (civil_of t)) (c_month (civil_of t)) (c_day (civil_of t)) (c_hour (civil_of t))
     (c_min (civil_of t)) (c_sec (civil_of t)) (t mod second) = t"
proof -
  let ?c = "civil_of t"
  have m: "(c_month ?c - 1) div 12 = 0" "(c_month ?c - 1) mod 12 = c_month ?c - 1"
    using civil_ranges(1)[of t] by auto
  have days: "days_before_year (c_year ?c) + days_before_month (is_leap (c_year ?c)) (c_month ?c)
      + (c_day ?c - 1) - unix_to_absolute = t div second div 86400"
    by (simp add: civil_of_simps(1,3) day_of_year_def) (simp add: abs_day_def)
  have sod: "(c_hour ?c * 60 + c_min ?c) * 60 + c_sec ?c = sec_of_day t"
  proof -
    let ?s = "sec_of_day t"
    have "?s mod 3600 mod 60 = ?s mod 60" by (simp add: mod_mod_cancel)
    then have "?s mod 3600 div 60 * 60 + ?s mod 60 = ?s mod 3600"
      using div_mult_mod_eq[of "?s mod 3600" 60] by simp
    moreover have "(?s div 3600 * 60 + ?s mod 3600 div 60) * 60 + ?s mod 60
        = ?s div 3600 * 3600 + (?s mod 3600 div 60 * 60 + ?s mod 60)"
      by (simp only: distrib_right)
    ultimately show ?thesis by (simp add: civil_of_simps(4-6))
  qed
  have "Date (c_year ?c) (c_month ?c) (c_day ?c) (c_hour ?c) (c_min ?c) (c_sec ?c) (t mod second)
      = (t div second div 86400 * 86400 + ((c_hour ?c * 60 + c_min ?c) * 60 + c_sec ?c)) * second
        + t mod second"
    using days m by (simp add: Date_def Let_def algebra_simps)
  also have "\<dots> = t" unfolding sod sec_of_day_def by simp
  finally show ?thesis .
qed

end
