(* ===== verification/Timestamp.thy ===== *)
theory Timestamp
  imports GoTime
begin

text \<open>
  The timestamps of \<^verbatim>\<open>internal/store/store.go\<close>: \<^verbatim>\<open>FmtTime\<close> prints a time as RFC 3339 in
  UTC with whole seconds (\<^verbatim>\<open>2026-07-20T12:00:00Z\<close>), and every time column of the database
  holds such a string. The interface \<open>ordered_stamps\<close> says what the queue, the statistics
  and the digest rely on when they compare columns as strings, and \<open>FmtTime\<close> provides it
  for the years 0 to 9999; outside them Go prints a sign or a fifth digit and the strings
  no longer compare as times.
\<close>

section \<open>Decimal output\<close>

definition digit :: "nat \<Rightarrow> char" where
  "digit n = char_of (48 + n)"

fun itoa :: "nat \<Rightarrow> string" where
  "itoa n = (if n < 10 then [digit n] else itoa (n div 10) @ [digit (n mod 10)])"

declare itoa.simps [simp del]

text \<open>\<^verbatim>\<open>strconv.Itoa\<close> and \<^verbatim>\<open>strconv.FormatInt(n, 10)\<close>.\<close>

definition Itoa :: "int \<Rightarrow> string" where
  "Itoa n = (if n < 0 then CHR ''-'' # itoa (nat (- n)) else itoa (nat n))"

text \<open>\<^verbatim>\<open>time\<close>'s \<open>appendInt\<close>: a sign, then the digits padded with zeros to a width.\<close>

definition append_int :: "int \<Rightarrow> nat \<Rightarrow> string" where
  "append_int n w = (let ds = itoa (nat \<bar>n\<bar>) in
     (if n < 0 then [CHR ''-''] else []) @ replicate (w - length ds) CHR ''0'' @ ds)"

fun fixed_digits :: "nat \<Rightarrow> nat \<Rightarrow> string" where
  "fixed_digits 0 n = []"
| "fixed_digits (Suc w) n = fixed_digits w (n div 10) @ [digit (n mod 10)]"

lemma digit_less_iff: "a < 10 \<Longrightarrow> b < 10 \<Longrightarrow> digit a < digit b \<longleftrightarrow> a < b"
  by (simp add: digit_def less_char_def of_char_of)

lemma digit_eq_iff: "a < 10 \<Longrightarrow> b < 10 \<Longrightarrow> digit a = digit b \<longleftrightarrow> a = b"
  by (metis digit_less_iff less_irrefl linorder_less_linear)

lemma length_fixed_digits [simp]: "length (fixed_digits w n) = w"
  by (induction w n rule: fixed_digits.induct) auto

lemma fixed_digits_zero: "fixed_digits w 0 = replicate w CHR ''0''"
proof (induction w)
  case (Suc w)
  have "digit 0 = CHR ''0''" by code_simp
  with Suc show ?case by (simp add: replicate_append_same)
qed simp

lemma less_by_digits:
  "m = 10 * a + b \<Longrightarrow> n = 10 * c + d \<Longrightarrow> b < 10 \<Longrightarrow> d < 10 \<Longrightarrow> m < n \<longleftrightarrow> a < c \<or> a = c \<and> b < d"
  for m n a b c d :: nat
  by auto

lemma fixed_digits_less_iff:
  "m < 10 ^ w \<Longrightarrow> n < 10 ^ w \<Longrightarrow> fixed_digits w m < fixed_digits w n \<longleftrightarrow> m < n"
proof (induction w arbitrary: m n)
  case 0
  then show ?case by simp
next
  case (Suc w)
  have md: "m div 10 < 10 ^ w" "n div 10 < 10 ^ w" using Suc.prems by auto
  have eq: "fixed_digits w (m div 10) = fixed_digits w (n div 10) \<longleftrightarrow> m div 10 = n div 10"
    using Suc.IH[OF md] Suc.IH[OF md(2,1)] by (metis less_irrefl linorder_less_linear)
  have "m < n \<longleftrightarrow> m div 10 < n div 10 \<or> m div 10 = n div 10 \<and> m mod 10 < n mod 10"
    by (rule less_by_digits) simp_all
  then show ?case
    by (simp add: less_append_same_length Suc.IH[OF md] eq digit_less_iff)
qed

lemma fixed_digits_eq_iff:
  "m < 10 ^ w \<Longrightarrow> n < 10 ^ w \<Longrightarrow> fixed_digits w m = fixed_digits w n \<longleftrightarrow> m = n"
  using fixed_digits_less_iff[of m w n] fixed_digits_less_iff[of n w m]
  by (metis less_irrefl linorder_less_linear)

lemma length_itoa: "0 < w \<Longrightarrow> n < 10 ^ w \<Longrightarrow> length (itoa n) \<le> w"
proof (induction w arbitrary: n)
  case (Suc w)
  show ?case
  proof (cases "n < 10")
    case True
    then show ?thesis by (subst itoa.simps) simp
  next
    case False
    with Suc.prems have "0 < w" by (cases w) auto
    with Suc.IH[of "n div 10"] Suc.prems False show ?thesis by (subst itoa.simps) auto
  qed
qed simp

lemma padded_itoa:
  "0 < w \<Longrightarrow> n < 10 ^ w \<Longrightarrow> replicate (w - length (itoa n)) CHR ''0'' @ itoa n = fixed_digits w n"
proof (induction w arbitrary: n)
  case (Suc w)
  show ?case
  proof (cases "n < 10")
    case True
    then have "itoa n = [digit n]" by (subst itoa.simps) simp
    with True show ?thesis by (simp add: fixed_digits_zero)
  next
    case False
    with Suc.prems have "0 < w" by (cases w) auto
    moreover have "itoa n = itoa (n div 10) @ [digit (n mod 10)]" using False by (subst itoa.simps) simp
    moreover have "n div 10 < 10 ^ w" using Suc.prems by auto
    ultimately show ?thesis using Suc.IH[of "n div 10"] by simp
  qed
qed simp

lemma append_int_fixed:
  "0 < w \<Longrightarrow> 0 \<le> n \<Longrightarrow> n < 10 ^ w \<Longrightarrow> append_int n w = fixed_digits w (nat n)"
  using padded_itoa[of w "nat n"] by (simp add: append_int_def Let_def nat_less_iff)

section \<open>FmtTime\<close>

text \<open>\<^verbatim>\<open>t.Format("2006-01-02")\<close> and \<^verbatim>\<open>t.Format("2006-01")\<close>.\<close>

definition fmt_date :: "time \<Rightarrow> string" where
  "fmt_date t = (let c = civil_of t in append_int (c_year c) 4 @ ''-'' @ append_int (c_month c) 2
     @ ''-'' @ append_int (c_day c) 2)"

definition fmt_month :: "time \<Rightarrow> string" where
  "fmt_month t = (let c = civil_of t in append_int (c_year c) 4 @ ''-'' @ append_int (c_month c) 2)"

definition fmt_clock :: "time \<Rightarrow> string" where
  "fmt_clock t = (let c = civil_of t in append_int (c_hour c) 2 @ '':'' @ append_int (c_min c) 2
     @ '':'' @ append_int (c_sec c) 2)"

text \<open>\<^verbatim>\<open>FmtTime\<close>: \<^verbatim>\<open>t.UTC().Format(time.RFC3339)\<close>; in UTC the zone is printed as \<open>Z\<close>.\<close>

definition FmtTime :: "time \<Rightarrow> string" where
  "FmtTime t = fmt_date t @ ''T'' @ fmt_clock t @ ''Z''"

definition stampable :: "time \<Rightarrow> bool" where
  "stampable t \<longleftrightarrow> 0 \<le> c_year (civil_of t) \<and> c_year (civil_of t) \<le> 9999"

lemma fmt_fixed:
  assumes "stampable t"
  shows "fmt_month t = fixed_digits 4 (nat (c_year (civil_of t))) @ ''-''
           @ fixed_digits 2 (nat (c_month (civil_of t)))"
    and "fmt_date t = fmt_month t @ ''-'' @ fixed_digits 2 (nat (c_day (civil_of t)))"
    and "fmt_clock t = fixed_digits 2 (nat (c_hour (civil_of t))) @ '':''
           @ fixed_digits 2 (nat (c_min (civil_of t))) @ '':'' @ fixed_digits 2 (nat (c_sec (civil_of t)))"
  using assms civil_ranges[of t]
  by (simp_all add: fmt_month_def fmt_date_def fmt_clock_def stampable_def Let_def append_int_fixed)

lemma length_FmtTime: "stampable t \<Longrightarrow> length (FmtTime t) = 20"
  by (simp add: FmtTime_def fmt_fixed)

text \<open>The first day of the year 0 and of the year 10000: what lies between can be stamped.\<close>

lemma stampable_iff: "stampable t \<longleftrightarrow> - 62167219200 \<le> t div second \<and> t div second < 253402300800"
proof -
  have z: "days_before_year 0 = - 366" "days_before_year 10000 = 3652059"
    by (simp_all add: days_before_year_def)
  have y0: "0 \<le> year_of d \<longleftrightarrow> - 366 \<le> d" for d
    using year_of_bounds[of d] days_before_year_mono[of 0 "year_of d"]
      days_before_year_mono[of "year_of d + 1" 0] z by (cases "0 \<le> year_of d") auto
  have y9: "year_of d \<le> 9999 \<longleftrightarrow> d < 3652059" for d
    using year_of_bounds[of d] days_before_year_mono[of 10000 "year_of d"]
      days_before_year_mono[of "year_of d + 1" 10000] z by (cases "year_of d \<le> 9999") auto
  have "s div 86400 + 719162 \<ge> - 366 \<longleftrightarrow> - 62167219200 \<le> s"
    and "s div 86400 + 719162 < 3652059 \<longleftrightarrow> s < 253402300800" for s :: int
    by auto
  then show ?thesis
    by (simp only: stampable_def civil_of_simps(1) y0 y9) (simp add: abs_day_def unix_to_absolute_def)
qed

section \<open>The interface: timestamps that compare as times\<close>

locale ordered_stamps =
  fixes stamp :: "time \<Rightarrow> string" and ok :: "time \<Rightarrow> bool"
  assumes stamp_less: "ok t \<Longrightarrow> ok u \<Longrightarrow> stamp t < stamp u \<longleftrightarrow> t div second < u div second"
begin

lemma stamp_le: "ok t \<Longrightarrow> ok u \<Longrightarrow> stamp t \<le> stamp u \<longleftrightarrow> t div second \<le> u div second"
  using stamp_less[of u t] by (simp add: not_less[symmetric])

lemma stamp_eq: "ok t \<Longrightarrow> ok u \<Longrightarrow> stamp t = stamp u \<longleftrightarrow> t div second = u div second"
  using stamp_le[of t u] stamp_le[of u t] by (simp add: order_eq_iff)

lemma stamp_mono: "ok t \<Longrightarrow> ok u \<Longrightarrow> t \<le> u \<Longrightarrow> stamp t \<le> stamp u"
  by (simp add: stamp_le zdiv_mono1)

text \<open>A time at least a second later has a later stamp.\<close>

lemma stamp_later: "ok t \<Longrightarrow> ok u \<Longrightarrow> t + second \<le> u \<Longrightarrow> stamp t < stamp u"
  using zdiv_mono1[of "t + second" u second] by (simp add: stamp_less)

end

subsection \<open>FmtTime provides it\<close>

lemma lex_fixed:
  assumes "m < 10 ^ w" "n < 10 ^ w"
  shows "fixed_digits w m @ us < fixed_digits w n @ vs \<longleftrightarrow> m < n \<or> m = n \<and> us < vs"
  using assms by (simp add: less_append_same_length fixed_digits_less_iff fixed_digits_eq_iff)

lemma civil_day_less:
  assumes "abs_day t < abs_day u"
  shows "c_year (civil_of t) < c_year (civil_of u) \<or> c_year (civil_of t) = c_year (civil_of u) \<and>
    (c_month (civil_of t) < c_month (civil_of u) \<or> c_month (civil_of t) = c_month (civil_of u) \<and>
     c_day (civil_of t) < c_day (civil_of u))"
proof (cases "year_of (abs_day t) = year_of (abs_day u)")
  case True
  with assms have less: "day_of_year t < day_of_year u" by (simp add: day_of_year_def)
  then have "c_month (civil_of t) \<le> c_month (civil_of u)"
    using month_of_mono[OF day_of_year_bounds(1)[of t] _ day_of_year_bounds(2)[of u]] True
    by (simp add: civil_of_simps)
  with True less show ?thesis by (auto simp: civil_of_simps)
next
  case False
  then show ?thesis using year_of_mono[of "abs_day t" "abs_day u"] assms by (auto simp: civil_of_simps)
qed

lemma civil_clock_less:
  assumes "sec_of_day t < sec_of_day u"
  shows "c_hour (civil_of t) < c_hour (civil_of u) \<or> c_hour (civil_of t) = c_hour (civil_of u) \<and>
    (c_min (civil_of t) < c_min (civil_of u) \<or> c_min (civil_of t) = c_min (civil_of u) \<and>
     c_sec (civil_of t) < c_sec (civil_of u))"
proof -
  have hms: "s = (c_hour (civil_of x) * 60 + c_min (civil_of x)) * 60 + c_sec (civil_of x)"
    if "s = sec_of_day x" for s x
  proof -
    have "s mod 3600 mod 60 = s mod 60" by (simp add: mod_mod_cancel)
    then have "s mod 3600 div 60 * 60 + s mod 60 = s mod 3600"
      using div_mult_mod_eq[of "s mod 3600" 60] by simp
    moreover have "(s div 3600 * 60 + s mod 3600 div 60) * 60 + s mod 60
        = s div 3600 * 3600 + (s mod 3600 div 60 * 60 + s mod 60)"
      by (simp only: distrib_right)
    ultimately show ?thesis using that by (simp add: civil_of_simps(4-6))
  qed
  show ?thesis
    using hms[of _ t] hms[of _ u] assms civil_ranges(4,5)[of t] civil_ranges(4,5)[of u] by auto
qed

lemma fmt_date_less:
  assumes ok: "stampable t" "stampable u" and less: "abs_day t < abs_day u"
  shows "fmt_date t @ us < fmt_date u @ vs"
proof -
  define y m d where "y = nat (c_year (civil_of t))" and "m = nat (c_month (civil_of t))"
    and "d = nat (c_day (civil_of t))"
  define y' m' d' where "y' = nat (c_year (civil_of u))" and "m' = nat (c_month (civil_of u))"
    and "d' = nat (c_day (civil_of u))"
  have b: "y < 10000" "m < 100" "d < 100" "y' < 10000" "m' < 100" "d' < 100"
    using ok civil_ranges[of t] civil_ranges[of u]
    by (auto simp: y_def m_def d_def y'_def m'_def d'_def stampable_def)
  have "y < y' \<or> y = y' \<and> (m < m' \<or> m = m' \<and> d < d')"
    using civil_day_less[OF less] ok civil_ranges[of t] civil_ranges[of u]
    unfolding y_def m_def d_def y'_def m'_def d'_def stampable_def atLeastAtMost_iff by linarith
  then show ?thesis
    by (auto simp: fmt_fixed ok lex_fixed b simp flip: y_def m_def d_def y'_def m'_def d'_def)
qed

lemma fmt_clock_less:
  assumes ok: "stampable t" "stampable u" and less: "sec_of_day t < sec_of_day u"
  shows "fmt_clock t @ us < fmt_clock u @ vs"
proof -
  define h m s where "h = nat (c_hour (civil_of t))" and "m = nat (c_min (civil_of t))"
    and "s = nat (c_sec (civil_of t))"
  define h' m' s' where "h' = nat (c_hour (civil_of u))" and "m' = nat (c_min (civil_of u))"
    and "s' = nat (c_sec (civil_of u))"
  have b: "h < 100" "m < 100" "s < 100" "h' < 100" "m' < 100" "s' < 100"
    using civil_ranges[of t] civil_ranges[of u]
    by (auto simp: h_def m_def s_def h'_def m'_def s'_def)
  have "h < h' \<or> h = h' \<and> (m < m' \<or> m = m' \<and> s < s')"
    using civil_clock_less[OF less] civil_ranges[of t] civil_ranges[of u]
    unfolding h_def m_def s_def h'_def m'_def s'_def atLeastAtMost_iff by linarith
  then show ?thesis
    by (auto simp: fmt_fixed(3) ok lex_fixed b simp flip: h_def m_def s_def h'_def m'_def s'_def)
qed

lemma FmtTime_less_if:
  assumes ok: "stampable t" "stampable u" and less: "t div second < u div second"
  shows "FmtTime t < FmtTime u"
proof (cases "abs_day t = abs_day u")
  case True
  have split: "x = (abs_day v - unix_to_absolute) * 86400 + sec_of_day v" if "x = v div second" for x v
    using that by (simp add: abs_day_def sec_of_day_def)
  have "sec_of_day t < sec_of_day u" using split[of _ t] split[of _ u] less True by simp
  moreover have "fmt_date t = fmt_date u"
    using True by (simp add: fmt_date_def Let_def civil_of_simps day_of_year_def)
  ultimately show ?thesis
    using fmt_clock_less[OF ok] by (simp add: FmtTime_def less_append_same_length)
next
  case False
  moreover have "abs_day t \<le> abs_day u" using less by (simp add: abs_day_def zdiv_mono1)
  ultimately show ?thesis using fmt_date_less[OF ok] by (simp add: FmtTime_def)
qed

lemma FmtTime_cong: "t div second = u div second \<Longrightarrow> FmtTime t = FmtTime u"
  unfolding FmtTime_def fmt_date_def fmt_clock_def civil_of_def by (simp only:)

lemma FmtTime_less_iff:
  assumes ok: "stampable t" "stampable u"
  shows "FmtTime t < FmtTime u \<longleftrightarrow> t div second < u div second"
proof (cases "t div second" "u div second" rule: linorder_cases)
  case less
  with FmtTime_less_if[OF ok less] show ?thesis by (simp only:)
next
  case equal
  with FmtTime_cong[OF equal] show ?thesis by (simp only: less_irrefl)
next
  case greater
  with less_not_sym[OF FmtTime_less_if[OF ok(2,1) greater]] less_not_sym[OF greater] show ?thesis
    by (simp only:)
qed

interpretation fmt: ordered_stamps FmtTime stampable
  by (rule ordered_stamps.intro) (rule FmtTime_less_iff)

end
