(* ===== verification/Database.thy ===== *)
theory Database
  imports Timestamp
begin

text \<open>
  The SQLite database of \<^verbatim>\<open>internal/store/store.go\<close>: one record per table row, with the
  columns of the schema in their order, the tables as lists of rows in row-id order, and
  the environment of the statements. \<open>db_script\<close> says what happens to the statements still
  to come: each entry is the time a statement takes and, when the driver reports an
  error (disk full, database busy, connection closed), its text; a failed statement leaves
  the tables as they are. When the script is used up every statement succeeds. \<open>db_clock\<close> is
  the wall clock \<open>time.Now()\<close> reads. \<open>db.SetMaxOpenConns(1)\<close> makes statements atomic and
  run one at a time, so an operation is a function on the whole database.
\<close>

section \<open>Rows\<close>

record domain =
  d_id :: int
  d_name :: string
  d_selector :: string
  d_private_key :: string
  d_spf :: bool
  d_dkim :: bool
  d_dmarc :: bool
  d_last_checked :: string
  d_created :: string

record api_key =
  k_id :: int
  k_name :: string
  k_hash :: string
  k_domain_id :: int
  k_revoked :: bool
  k_last_used :: string
  k_created :: string

text \<open>A row of \<open>emails\<close>; \<open>api_key_id\<close> and \<open>idempotency_key\<close> are the nullable columns.\<close>

record email_row =
  er_id :: int
  er_api_key_id :: "int option"
  er_domain_id :: int
  er_from :: string
  er_to :: string
  er_from_name :: string
  er_to_name :: string
  er_original_to :: string
  er_reply_to :: string
  er_subject :: string
  er_html :: string
  er_text :: string
  er_headers :: string
  er_status :: string
  er_attempts :: int
  er_next :: string
  er_error :: string
  er_idem :: "string option"
  er_system :: bool
  er_created :: string
  er_sent :: string

record attempt =
  a_id :: int
  a_email_id :: int
  a_no :: int
  a_mx :: string
  a_code :: int
  a_response :: string
  a_duration :: int
  a_created :: string

record store =
  t_domains :: "domain list"
  t_keys :: "api_key list"
  t_emails :: "email_row list"
  t_attempts :: "attempt list"
  t_state :: "(string \<times> string) list"   \<comment> \<open>\<open>notify_state\<close>: key, value\<close>
  t_pending :: "(int \<times> string) list"     \<comment> \<open>\<open>notify_pending_failures\<close>: email id, created at\<close>
  db_script :: "(nat \<times> string option) list"
  db_clock :: time

type_synonym 'a db = "store \<Rightarrow> (err + 'a) \<times> store"

section \<open>Statements\<close>

text \<open>\<^verbatim>\<open>Now()\<close>: the current time as the store writes it.\<close>

definition Now :: "store \<Rightarrow> string" where
  "Now s = FmtTime (db_clock s)"

definition elapse :: "duration \<Rightarrow> store \<Rightarrow> store" where
  "elapse d s = s\<lparr>db_clock := db_clock s + d\<rparr>"

text \<open>One SQL statement, whose effect on the tables is \<open>f\<close>.\<close>

definition stmt :: "'a db \<Rightarrow> 'a db" where
  "stmt f s = (case db_script s of
       [] \<Rightarrow> f s
     | (d, outcome) # rest \<Rightarrow>
         (let s' = elapse (int d) (s\<lparr>db_script := rest\<rparr>)
          in case outcome of None \<Rightarrow> f s' | Some msg \<Rightarrow> (Inl (Plain msg), s')))"

text \<open>\<^verbatim>\<open>s.db.Exec\<close> of an UPDATE or DELETE that cannot violate a constraint, and of a query.\<close>

definition exec_upd :: "(store \<Rightarrow> store) \<Rightarrow> unit db" where
  "exec_upd f = stmt (\<lambda>s. (Inr (), f s))"

definition query :: "(store \<Rightarrow> 'a) \<Rightarrow> 'a db" where
  "query f = stmt (\<lambda>s. (Inr (f s), s))"

text \<open>
  \<^verbatim>\<open>s.db.QueryRow(...).Scan(...)\<close>: \<^verbatim>\<open>sql.ErrNoRows\<close> when no row matches; and the idiom that turns
  that error into a nil result without an error.
\<close>

definition query_row :: "(store \<Rightarrow> 'a option) \<Rightarrow> 'a db" where
  "query_row f = stmt (\<lambda>s. (case f s of None \<Rightarrow> Inl ErrNoRows | Some a \<Rightarrow> Inr a, s))"

definition null_row :: "'a db \<Rightarrow> 'a option db" where
  "null_row m s = (case m s of
       (Inl e, s') \<Rightarrow> (if errors_Is e ErrNoRows then Inr None else Inl e, s')
     | (Inr a, s') \<Rightarrow> (Inr (Some a), s'))"

text \<open>Go's \<^verbatim>\<open>if err != nil { return err }\<close> between two steps.\<close>

definition db_bind :: "'a db \<Rightarrow> ('a \<Rightarrow> 'b db) \<Rightarrow> 'b db" where
  "db_bind m k s = (case m s of (Inl e, s') \<Rightarrow> (Inl e, s') | (Inr a, s') \<Rightarrow> k a s')"

definition db_return :: "'a \<Rightarrow> 'a db" where
  "db_return a s = (Inr a, s)"

text \<open>\<^verbatim>\<open>xs, _ := ...\<close>: a list query whose failure is only logged or ignored leaves the nil slice.\<close>

definition or_empty :: "'a list db \<Rightarrow> store \<Rightarrow> 'a list \<times> store" where
  "or_empty m s = (case m s of (Inl e, s1) \<Rightarrow> ([], s1) | (Inr xs, s1) \<Rightarrow> (xs, s1))"

text \<open>A database whose statements all succeed from here on.\<close>

definition healthy :: "store \<Rightarrow> bool" where
  "healthy s \<longleftrightarrow> (\<forall>(d, outcome) \<in> set (db_script s). outcome = None)"

text \<open>What a statement may change of the database besides what \<open>f\<close> does.\<close>

definition env_step :: "store \<Rightarrow> store \<Rightarrow> bool" where
  "env_step s s' \<longleftrightarrow> (\<exists>scr t. s' = s\<lparr>db_script := scr, db_clock := t\<rparr>)"

lemma env_step_refl: "env_step s s"
  unfolding env_step_def by (rule exI[of _ "db_script s"], rule exI[of _ "db_clock s"]) simp

lemma stmt_cases:
  assumes "stmt f s = (r, t)"
  obtains (ok) s' where "env_step s s'" "f s' = (r, t)"
    | (failed) msg where "env_step s t" "r = Inl (Plain msg)" "\<not> healthy s"
proof (cases "db_script s")
  case Nil
  with assms show thesis by (intro ok[OF env_step_refl]) (simp add: stmt_def)
next
  case (Cons p rest)
  obtain d outcome where p: "p = (d, outcome)" by (cases p)
  let ?s' = "elapse (int d) (s\<lparr>db_script := rest\<rparr>)"
  have env: "env_step s ?s'" unfolding env_step_def elapse_def by auto
  show thesis
  proof (cases outcome)
    case None
    with assms Cons p env show thesis by (intro ok[OF env]) (simp add: stmt_def)
  next
    case (Some msg)
    with assms Cons p env show thesis by (intro failed) (auto simp: stmt_def healthy_def)
  qed
qed

lemma healthy_env:
  assumes "healthy s" "env_step s s'" "db_script s' = db_script s \<or> db_script s' = tl (db_script s)"
  shows "healthy s'"
  using assms by (cases "db_script s") (auto simp: healthy_def)

text \<open>On a healthy database a statement is its effect, after some time.\<close>

lemma stmt_healthy:
  assumes "healthy s"
  obtains s' where "env_step s s'" "healthy s'" "stmt f s = f s'"
proof (cases "db_script s")
  case Nil
  with assms show thesis using env_step_refl by (intro that[of s]) (auto simp: stmt_def)
next
  case (Cons p rest)
  with assms show thesis
    by (intro that[of "elapse (int (fst p)) (s\<lparr>db_script := rest\<rparr>)"])
      (auto simp: stmt_def env_step_def elapse_def healthy_def split: prod.split)
qed

lemma env_step_sel [simp]:
  assumes "env_step s s'"
  shows "t_domains s' = t_domains s" "t_keys s' = t_keys s" "t_emails s' = t_emails s"
    "t_attempts s' = t_attempts s" "t_state s' = t_state s" "t_pending s' = t_pending s"
  using assms by (auto simp: env_step_def)

lemma elapse_sel [simp]:
  "t_domains (elapse d s) = t_domains s" "t_keys (elapse d s) = t_keys s"
  "t_emails (elapse d s) = t_emails s" "t_attempts (elapse d s) = t_attempts s"
  "t_state (elapse d s) = t_state s" "t_pending (elapse d s) = t_pending s"
  "db_script (elapse d s) = db_script s" "db_clock (elapse d s) = db_clock s + d"
  by (simp_all add: elapse_def)

lemma healthy_simps [simp]:
  "healthy (elapse d s) = healthy s" "healthy (t_domains_update f1 s) = healthy s"
  "healthy (t_keys_update f2 s) = healthy s" "healthy (t_emails_update f3 s) = healthy s"
  "healthy (t_attempts_update f4 s) = healthy s" "healthy (t_state_update f5 s) = healthy s"
  "healthy (t_pending_update f6 s) = healthy s"
  by (simp_all add: healthy_def)

section \<open>What a read returns\<close>

lemma query_row_Inr:
  assumes "query_row f s = (Inr a, t)"
  shows "env_step s t \<and> f t = Some a"
proof -
  have st: "stmt (\<lambda>s. (case f s of None \<Rightarrow> Inl ErrNoRows | Some a \<Rightarrow> Inr a, s)) s = (Inr a, t)"
    using assms by (simp add: query_row_def)
  then show ?thesis
    by (cases rule: stmt_cases) (auto split: option.splits)
qed

lemma query_Inr:
  assumes "query f s = (Inr a, t)"
  shows "env_step s t \<and> f t = a"
proof -
  have st: "stmt (\<lambda>s. (Inr (f s), s)) s = (Inr a, t)" using assms by (simp add: query_def)
  then show ?thesis by (cases rule: stmt_cases) auto
qed

lemma query_env: "query f s = (r, t) \<Longrightarrow> env_step s t"
proof -
  assume "query f s = (r, t)"
  then have "stmt (\<lambda>s. (Inr (f s), s)) s = (r, t)" by (simp add: query_def)
  then show ?thesis by (cases rule: stmt_cases) auto
qed

lemma query_row_env: "query_row f s = (r, t) \<Longrightarrow> env_step s t"
proof -
  assume "query_row f s = (r, t)"
  then have "stmt (\<lambda>s. (case f s of None \<Rightarrow> Inl ErrNoRows | Some a \<Rightarrow> Inr a, s)) s = (r, t)"
    by (simp add: query_row_def)
  then show ?thesis by (cases rule: stmt_cases) auto
qed

lemma null_row_Some:
  assumes "null_row (query_row f) s = (Inr (Some a), t)"
  shows "env_step s t \<and> f t = Some a"
proof (cases "query_row f s")
  case (Pair r s1)
  then show ?thesis
    using assms query_row_Inr[of f s a t] by (cases r) (auto simp: null_row_def split: if_splits)
qed

lemma null_row_env: "null_row (query_row f) s = (r, t) \<Longrightarrow> env_step s t"
proof -
  assume n: "null_row (query_row f) s = (r, t)"
  obtain r1 s1 where q: "query_row f s = (r1, s1)" by fastforce
  with n have "t = s1" by (cases r1) (auto simp: null_row_def)
  with q query_row_env show ?thesis by blast
qed

lemma query_row_healthy:
  assumes "healthy s"
  obtains s1 where "env_step s s1" "healthy s1"
    "query_row f s = (case f s1 of None \<Rightarrow> Inl ErrNoRows | Some a \<Rightarrow> Inr a, s1)"
  using stmt_healthy[OF assms, of "\<lambda>s. (case f s of None \<Rightarrow> Inl ErrNoRows | Some a \<Rightarrow> Inr a, s)"]
  unfolding query_row_def by blast

lemma null_row_healthy:
  assumes "healthy s"
  obtains s1 where "env_step s s1" "healthy s1" "null_row (query_row f) s = (Inr (f s1), s1)"
proof -
  obtain s1 where s1: "env_step s s1" "healthy s1"
      "query_row f s = (case f s1 of None \<Rightarrow> Inl ErrNoRows | Some a \<Rightarrow> Inr a, s1)"
    using query_row_healthy[OF assms] .
  then show thesis by (intro that[of s1]) (auto simp: null_row_def split: option.split)
qed

lemma query_healthy:
  assumes "healthy s"
  obtains s1 where "env_step s s1" "healthy s1" "query f s = (Inr (f s1), s1)"
  using stmt_healthy[OF assms, of "\<lambda>s. (Inr (f s), s)"] unfolding query_def by blast

lemma env_step_trans: "env_step s t \<Longrightarrow> env_step t u \<Longrightarrow> env_step s u"
proof -
  assume "env_step s t" "env_step t u"
  then obtain scr1 c1 scr2 c2 where "t = s\<lparr>db_script := scr1, db_clock := c1\<rparr>"
      "u = t\<lparr>db_script := scr2, db_clock := c2\<rparr>" unfolding env_step_def by blast
  then show "env_step s u"
    unfolding env_step_def by (intro exI[of _ scr2] exI[of _ c2]) simp
qed

end
