(* ===== verification/Emails.thy ===== *)
theory Emails
  imports Database
begin

text \<open>
  \<^verbatim>\<open>internal/store/emails.go\<close> and \<^verbatim>\<open>internal/store/attempts.go\<close>: the queue of emails, the
  conditional updates that claim, finish, cancel and requeue them, the filtered list, and
  the log of delivery attempts.
\<close>

section \<open>The Email struct and its scan from a row\<close>

record email =
  e_id :: int
  e_api_key_id :: int
  e_domain_id :: int
  e_from :: string
  e_to :: string
  e_from_name :: string
  e_to_name :: string
  e_original_to :: string
  e_reply_to :: string
  e_subject :: string
  e_html :: string
  e_text :: string
  e_headers :: string
  e_status :: string
  e_attempts :: int
  e_next :: string
  e_error :: string
  e_idem :: string
  e_system :: bool
  e_created :: string
  e_sent :: string

text \<open>\<^verbatim>\<open>emailCols\<close> and \<^verbatim>\<open>scanEmail\<close>: the two nullable columns read as 0 and "" through COALESCE.\<close>

definition scanEmail :: "email_row \<Rightarrow> email" where
  "scanEmail r = \<lparr>e_id = er_id r, e_api_key_id = (case er_api_key_id r of None \<Rightarrow> 0 | Some k \<Rightarrow> k),
     e_domain_id = er_domain_id r, e_from = er_from r, e_to = er_to r, e_from_name = er_from_name r,
     e_to_name = er_to_name r, e_original_to = er_original_to r, e_reply_to = er_reply_to r,
     e_subject = er_subject r, e_html = er_html r, e_text = er_text r, e_headers = er_headers r,
     e_status = er_status r, e_attempts = er_attempts r, e_next = er_next r, e_error = er_error r,
     e_idem = (case er_idem r of None \<Rightarrow> [] | Some i \<Rightarrow> i), e_system = er_system r,
     e_created = er_created r, e_sent = er_sent r\<rparr>"

lemma scanEmail_sel [simp]:
  "e_id (scanEmail r) = er_id r" "e_domain_id (scanEmail r) = er_domain_id r"
  "e_from (scanEmail r) = er_from r" "e_to (scanEmail r) = er_to r"
  "e_from_name (scanEmail r) = er_from_name r" "e_to_name (scanEmail r) = er_to_name r"
  "e_reply_to (scanEmail r) = er_reply_to r" "e_subject (scanEmail r) = er_subject r"
  "e_html (scanEmail r) = er_html r" "e_text (scanEmail r) = er_text r"
  "e_headers (scanEmail r) = er_headers r" "e_status (scanEmail r) = er_status r"
  "e_attempts (scanEmail r) = er_attempts r" "e_next (scanEmail r) = er_next r"
  "e_error (scanEmail r) = er_error r" "e_system (scanEmail r) = er_system r"
  "e_created (scanEmail r) = er_created r" "e_sent (scanEmail r) = er_sent r"
  "e_original_to (scanEmail r) = er_original_to r"
  by (simp_all add: scanEmail_def)

section \<open>Enqueue and lookup\<close>

text \<open>The defaults \<^verbatim>\<open>EnqueueEmail\<close> fills in before the INSERT.\<close>

definition with_defaults :: "string \<Rightarrow> email \<Rightarrow> email" where
  "with_defaults now e = e\<lparr>e_next := (if e_next e = [] then now else e_next e),
     e_created := (if e_created e = [] then now else e_created e),
     e_headers := (if e_headers e = [] then ''{}'' else e_headers e)\<rparr>"

text \<open>
  The row the INSERT writes: \<^verbatim>\<open>NULLIF(?,0)\<close> and \<^verbatim>\<open>NULLIF(?,'')\<close> for the nullable columns,
  status 'queued', and the schema's defaults for the columns it does not name.
\<close>

definition new_row :: "int \<Rightarrow> email \<Rightarrow> email_row" where
  "new_row i e = \<lparr>er_id = i, er_api_key_id = (if e_api_key_id e = 0 then None else Some (e_api_key_id e)),
     er_domain_id = e_domain_id e, er_from = e_from e, er_to = e_to e, er_from_name = e_from_name e,
     er_to_name = e_to_name e, er_original_to = [], er_reply_to = e_reply_to e,
     er_subject = e_subject e, er_html = e_html e, er_text = e_text e, er_headers = e_headers e,
     er_status = ''queued'', er_attempts = 0, er_next = e_next e, er_error = [],
     er_idem = (if e_idem e = [] then None else Some (e_idem e)), er_system = e_system e,
     er_created = e_created e, er_sent = []\<rparr>"

text \<open>
  The key of the partial unique index \<open>idx_emails_idem\<close>: rows without an idempotency key are
  not in the index, and SQLite holds two NULL API keys to be different.
\<close>

definition idem_entry :: "email_row \<Rightarrow> (int \<times> string) option" where
  "idem_entry r = (case er_idem r of None \<Rightarrow> None
     | Some i \<Rightarrow> (case er_api_key_id r of None \<Rightarrow> None | Some k \<Rightarrow> Some (k, i)))"

definition insert_email :: "email \<Rightarrow> int db" where
  "insert_email e s =
     (let r = new_row (next_rowid (map er_id (t_emails s))) e
      in if e_domain_id e \<notin> d_id ` set (t_domains s)
            \<or> (e_api_key_id e \<noteq> 0 \<and> e_api_key_id e \<notin> k_id ` set (t_keys s))
         then (Inl (Constraint ''FOREIGN KEY constraint failed''), s)
         else if idem_entry r \<noteq> None \<and> idem_entry r \<in> idem_entry ` set (t_emails s)
         then (Inl (Constraint ''UNIQUE constraint failed: emails.api_key_id, emails.idempotency_key''), s)
         else (Inr (er_id r), s\<lparr>t_emails := t_emails s @ [r]\<rparr>))"

definition EnqueueEmail :: "email \<Rightarrow> int db" where
  "EnqueueEmail e s = stmt (insert_email (with_defaults (Now s) e)) s"

definition row_of :: "int \<Rightarrow> store \<Rightarrow> email_row option" where
  "row_of i s = find (\<lambda>r. er_id r = i) (t_emails s)"

definition GetEmail :: "int \<Rightarrow> email db" where
  "GetEmail i = query_row (\<lambda>s. map_option scanEmail (row_of i s))"

text \<open>A comparison with NULL is not true in SQL, so a NULL column never matches.\<close>

definition FindByIdempotencyKey :: "int \<Rightarrow> string \<Rightarrow> email option db" where
  "FindByIdempotencyKey apiKeyID key = null_row (query_row (\<lambda>s. map_option scanEmail
     (find (\<lambda>r. er_api_key_id r = Some apiKeyID \<and> er_idem r = Some key) (t_emails s))))"

section \<open>Claiming and finishing a delivery\<close>

definition due :: "string \<Rightarrow> email_row \<Rightarrow> bool" where
  "due now r \<longleftrightarrow> er_status r = ''queued'' \<and> er_next r \<le> now"

text \<open>
  The ids of \<^verbatim>\<open>SELECT id ... ORDER BY next_attempt_at LIMIT ?\<close>; rows with the same time are
  read in row-id order, the order of the index \<open>idx_emails_status_next\<close>.
\<close>

definition due_ids :: "int \<Rightarrow> string \<Rightarrow> email_row list \<Rightarrow> int list" where
  "due_ids limit now rs = map er_id (sql_limit limit (sort_key er_next (filter (due now) rs)))"

definition claim_row :: "string \<Rightarrow> email_row \<Rightarrow> email_row" where
  "claim_row now r = r\<lparr>er_status := ''sending'', er_next := now\<rparr>"

text \<open>\<^verbatim>\<open>UPDATE ... RETURNING\<close>: the claimed rows as they are after the update.\<close>

definition claim_due :: "int \<Rightarrow> string \<Rightarrow> email list db" where
  "claim_due limit now s =
     (let ids = due_ids limit now (t_emails s);
          rs = update_where (\<lambda>r. er_id r \<in> set ids) (claim_row now) (t_emails s)
      in (Inr (map scanEmail (filter (\<lambda>r. er_id r \<in> set ids) rs)), s\<lparr>t_emails := rs\<rparr>))"

definition ClaimDue :: "int \<Rightarrow> string \<Rightarrow> email list db" where
  "ClaimDue limit now = stmt (claim_due limit now)"

definition stale :: "string \<Rightarrow> email_row \<Rightarrow> bool" where
  "stale olderThan r \<longleftrightarrow> er_status r = ''sending'' \<and> er_next r \<le> olderThan"

definition requeue_stale :: "string \<Rightarrow> int db" where
  "requeue_stale olderThan s =
     (Inr (int (length (filter (stale olderThan) (t_emails s)))),
      s\<lparr>t_emails := update_where (stale olderThan) (\<lambda>r. r\<lparr>er_status := ''queued''\<rparr>) (t_emails s)\<rparr>)"

definition RequeueStaleSending :: "string \<Rightarrow> int db" where
  "RequeueStaleSending olderThan = stmt (requeue_stale olderThan)"

definition update_email :: "int \<Rightarrow> (email_row \<Rightarrow> email_row) \<Rightarrow> store \<Rightarrow> store" where
  "update_email i f s = s\<lparr>t_emails := update_where (\<lambda>r. er_id r = i) f (t_emails s)\<rparr>"

definition sent_row :: "string \<Rightarrow> email_row \<Rightarrow> email_row" where
  "sent_row at r = r\<lparr>er_status := ''sent'', er_attempts := er_attempts r + 1, er_sent := at, er_error := []\<rparr>"

definition retry_row :: "string \<Rightarrow> string \<Rightarrow> email_row \<Rightarrow> email_row" where
  "retry_row nextAt errMsg r = r\<lparr>er_status := ''queued'', er_attempts := er_attempts r + 1,
     er_next := nextAt, er_error := errMsg\<rparr>"

definition failed_row :: "string \<Rightarrow> email_row \<Rightarrow> email_row" where
  "failed_row errMsg r = r\<lparr>er_status := ''failed'', er_attempts := er_attempts r + 1, er_error := errMsg\<rparr>"

definition MarkSent :: "int \<Rightarrow> string \<Rightarrow> unit db" where
  "MarkSent i at = exec_upd (update_email i (sent_row at))"

definition MarkRetry :: "int \<Rightarrow> string \<Rightarrow> string \<Rightarrow> unit db" where
  "MarkRetry i nextAt errMsg = exec_upd (update_email i (retry_row nextAt errMsg))"

definition MarkFailed :: "int \<Rightarrow> string \<Rightarrow> unit db" where
  "MarkFailed i errMsg = exec_upd (update_email i (failed_row errMsg))"

section \<open>The operator's actions\<close>

text \<open>A guarded UPDATE of one row; no affected row is the given error.\<close>

definition guarded_update ::
    "(email_row \<Rightarrow> bool) \<Rightarrow> (email_row \<Rightarrow> email_row) \<Rightarrow> err \<Rightarrow> int \<Rightarrow> unit db" where
  "guarded_update guard f refused i = stmt (\<lambda>s.
     let hit = (\<lambda>r. er_id r = i \<and> guard r)
     in (if filter hit (t_emails s) = [] then Inl refused else Inr (),
         s\<lparr>t_emails := update_where hit f (t_emails s)\<rparr>))"

definition CancelEmail :: "int \<Rightarrow> unit db" where
  "CancelEmail i = guarded_update (\<lambda>r. er_status r = ''queued'') (\<lambda>r. r\<lparr>er_status := ''canceled''\<rparr>)
     ErrNotCancelable i"

definition requeueGuard :: "email_row \<Rightarrow> bool" where
  "requeueGuard r \<longleftrightarrow> er_status r \<in> {''queued'', ''failed'', ''canceled''}"

definition requeue_row :: "string \<Rightarrow> email_row \<Rightarrow> email_row" where
  "requeue_row now r = r\<lparr>er_status := ''queued'', er_attempts := 0, er_next := now, er_error := []\<rparr>"

definition readdress_row :: "string \<Rightarrow> string \<Rightarrow> string \<Rightarrow> email_row \<Rightarrow> email_row" where
  "readdress_row newTo newToName now r = requeue_row now (r\<lparr>
     er_original_to := (if er_original_to r = [] \<and> er_to r \<noteq> newTo then er_to r else er_original_to r),
     er_to := newTo, er_to_name := newToName\<rparr>)"

definition RequeueEmail :: "int \<Rightarrow> string \<Rightarrow> string \<Rightarrow> unit db" where
  "RequeueEmail i newTo newToName s =
     (if newTo \<noteq> []
      then guarded_update requeueGuard (readdress_row newTo newToName (Now s)) ErrNotRequeueable i s
      else guarded_update requeueGuard (requeue_row (Now s)) ErrNotRequeueable i s)"

section \<open>The filtered list\<close>

text \<open>
  SQLite's LIKE: \<open>%\<close> matches any sequence, \<open>_\<close> one character (a lead byte with its UTF-8
  continuation bytes), every other byte itself up to ASCII case.
\<close>

definition utf8_rest :: "char \<Rightarrow> string \<Rightarrow> string" where
  "utf8_rest c s = (if (192::nat) \<le> of_char c
     then dropWhile (\<lambda>x. (128::nat) \<le> of_char x \<and> of_char x < (192::nat)) s else s)"

lemma length_utf8_rest: "length (utf8_rest c s) \<le> length s"
  by (simp add: utf8_rest_def length_dropWhile_le)

function sql_like :: "string \<Rightarrow> string \<Rightarrow> bool" where
  "sql_like [] s = (s = [])"
| "sql_like (p # ps) s =
     (if p = CHR ''%'' then sql_like ps s \<or> (case s of [] \<Rightarrow> False | c # cs \<Rightarrow> sql_like (p # ps) cs)
      else case s of [] \<Rightarrow> False
           | c # cs \<Rightarrow> if p = CHR ''_'' then sql_like ps (utf8_rest c cs)
                       else ascii_lower p = ascii_lower c \<and> sql_like ps cs)"
  by pat_completeness auto
termination
  by (relation "measure (\<lambda>(p, s). length p + length s)") (auto intro: le_imp_less_Suc le_SucI length_utf8_rest)

declare sql_like.simps [simp del]

record email_filter =
  f_status :: string
  f_domain_id :: int
  f_search :: string
  f_created_from :: string
  f_created_to :: string
  f_limit :: int
  f_offset :: int

definition matches :: "email_filter \<Rightarrow> email_row \<Rightarrow> bool" where
  "matches f r \<longleftrightarrow>
     (f_status f \<noteq> [] \<longrightarrow> er_status r = f_status f) \<and>
     (f_domain_id f \<noteq> 0 \<longrightarrow> er_domain_id r = f_domain_id f) \<and>
     (f_search f \<noteq> [] \<longrightarrow> sql_like (''%'' @ f_search f @ ''%'') (er_to r) \<or>
                        sql_like (''%'' @ f_search f @ ''%'') (er_subject r)) \<and>
     (f_created_from f \<noteq> [] \<longrightarrow> f_created_from f \<le> er_created r) \<and>
     (f_created_to f \<noteq> [] \<longrightarrow> er_created r < f_created_to f)"

text \<open>\<^verbatim>\<open>ORDER BY created_at DESC, id DESC\<close>.\<close>

definition newest_first :: "email_row list \<Rightarrow> email_row list" where
  "newest_first rs = sort_desc (\<lambda>r. (er_created r, er_id r)) rs"

definition ListEmails :: "email_filter \<Rightarrow> email list db" where
  "ListEmails f = query (\<lambda>s.
     let limit = (if f_limit f = 0 then 50 else f_limit f)
     in map scanEmail (sql_limit limit (sql_offset (f_offset f)
          (newest_first (filter (matches f) (t_emails s))))))"

section \<open>Delivery attempts\<close>

definition insert_attempt :: "int \<Rightarrow> int \<Rightarrow> int \<Rightarrow> string \<Rightarrow> string \<Rightarrow> int \<Rightarrow> string \<Rightarrow> unit db" where
  "insert_attempt emailID attemptNo code mxHost response durationMs now s =
     (if emailID \<notin> er_id ` set (t_emails s)
      then (Inl (Constraint ''FOREIGN KEY constraint failed''), s)
      else (Inr (), s\<lparr>t_attempts := t_attempts s @
        [\<lparr>a_id = next_rowid (map a_id (t_attempts s)), a_email_id = emailID, a_no = attemptNo,
          a_mx = mxHost, a_code = code, a_response = response, a_duration = durationMs,
          a_created = now\<rparr>]\<rparr>))"

definition RecordAttempt :: "int \<Rightarrow> int \<Rightarrow> int \<Rightarrow> string \<Rightarrow> string \<Rightarrow> int \<Rightarrow> unit db" where
  "RecordAttempt emailID attemptNo code mxHost response durationMs s =
     stmt (insert_attempt emailID attemptNo code mxHost response durationMs (Now s)) s"

definition ListAttempts :: "int \<Rightarrow> attempt list db" where
  "ListAttempts emailID =
     query (\<lambda>s. sort_key a_id (filter (\<lambda>a. a_email_id a = emailID) (t_attempts s)))"

end
