(* ===== verification/Message.thy ===== *)
theory Message
  imports Emails
begin

text \<open>
  \<^verbatim>\<open>internal/delivery/message.go\<close>: the RFC 5322 text of an email, and the checks that keep
  what a caller supplies from adding header lines of its own.
\<close>

abbreviation CR :: char where "CR \<equiv> CHR 0x0D"
abbreviation LF :: char where "LF \<equiv> CHR 0x0A"

section \<open>Header checks\<close>

definition reservedHeaders :: "string list" where
  "reservedHeaders = [''from'', ''to'', ''cc'', ''bcc'', ''reply-to'', ''subject'', ''date'',
     ''message-id'', ''mime-version'', ''content-type'', ''dkim-signature'']"

definition validateHeaderValue :: "string \<Rightarrow> string \<Rightarrow> err option" where
  "validateHeaderValue name v =
     (if ContainsAny v [CR, LF] then Some (Plain (''header '' @ name @ '': value contains CR or LF''))
      else None)"

definition validateHeaderName :: "string \<Rightarrow> err option" where
  "validateHeaderName name =
     (if ContainsAny name [CR, LF] then Some (Plain ''header name contains CR or LF'') else None)"

definition ValidateHeaderValue :: "string \<Rightarrow> string \<Rightarrow> err option" where
  "ValidateHeaderValue name v = validateHeaderValue name v"

definition ValidateHeader :: "'a libs_scheme \<Rightarrow> string \<Rightarrow> string \<Rightarrow> err option" where
  "ValidateHeader L name val =
     (case validateHeaderName name of Some e \<Rightarrow> Some e
      | None \<Rightarrow> if ToLower L name \<in> set reservedHeaders
                then Some (Plain (''header '' @ Quote L name @ '' is reserved''))
                else validateHeaderValue name val)"

definition FormatAddress :: "'a libs_scheme \<Rightarrow> string \<Rightarrow> string \<Rightarrow> string" where
  "FormatAddress L name addr = (if name = [] then addr else lib_address_string L name addr)"

section \<open>Line endings\<close>

text \<open>\<^verbatim>\<open>strings.ReplaceAll(s, "\r\n", "\n")\<close> and \<^verbatim>\<open>strings.ReplaceAll(s, "\n", "\r\n")\<close>.\<close>

fun crlf_to_lf :: "string \<Rightarrow> string" where
  "crlf_to_lf (c # d # s) =
     (if c = CR \<and> d = LF then LF # crlf_to_lf s else c # crlf_to_lf (d # s))"
| "crlf_to_lf s = s"

definition lf_to_crlf :: "string \<Rightarrow> string" where
  "lf_to_crlf s = concat (map (\<lambda>c. if c = LF then [CR, LF] else [c]) s)"

definition crlf :: "string \<Rightarrow> string" where
  "crlf s = lf_to_crlf (crlf_to_lf s)"

section \<open>BuildMessage\<close>

definition header_line :: "string \<Rightarrow> string \<Rightarrow> string" where
  "header_line k v = k @ '': '' @ v"

definition write_header :: "string \<times> string \<Rightarrow> string" where
  "write_header h = header_line (fst h) (snd h) @ [CR, LF]"

text \<open>The loop over the custom headers in the order of their names: the first error, if any.\<close>

fun check_custom :: "'a libs_scheme \<Rightarrow> (string \<times> string) list \<Rightarrow> string list \<Rightarrow> err option" where
  "check_custom L custom [] = None"
| "check_custom L custom (k # ks) =
     (case validateHeaderName k of Some e \<Rightarrow> Some (Wrapped ''headers_json'' e)
      | None \<Rightarrow>
          if ToLower L k \<in> set reservedHeaders
          then Some (Plain (''headers_json: header '' @ Quote L k @ '' is reserved''))
          else case validateHeaderValue k (the (map_of custom k)) of
                 Some e \<Rightarrow> Some (Wrapped ''headers_json'' e)
               | None \<Rightarrow> check_custom L custom ks)"

definition randHex :: "string \<Rightarrow> string" where
  "randHex buf = hex_encode buf"

text \<open>The header fields in the order they are written, with the custom ones before the last.\<close>

definition fixed_fields :: "'a libs_scheme \<Rightarrow> email \<Rightarrow> string \<Rightarrow> time \<Rightarrow> string \<Rightarrow> (string \<times> string) list" where
  "fixed_fields L e hostname now mid =
     [(''From'', FormatAddress L (e_from_name e) (e_from e)),
      (''To'', FormatAddress L (e_to_name e) (e_to e))]
     @ (if e_reply_to e \<noteq> [] then [(''Reply-To'', e_reply_to e)] else [])
     @ [(''Subject'', lib_qencode L (e_subject e)),
        (''Date'', lib_rfc1123z L now),
        (''Message-ID'', ''<'' @ randHex mid @ ''@'' @ hostname @ ''>''),
        (''MIME-Version'', ''1.0'')]"

definition body_part :: "string \<Rightarrow> string \<Rightarrow> string \<Rightarrow> string" where
  "body_part boundary ct body = ''--'' @ boundary @ [CR, LF] @ ''Content-Type: '' @ ct @
     ''; charset=utf-8'' @ [CR, LF, CR, LF] @ crlf body @ [CR, LF]"

definition content :: "'a libs_scheme \<Rightarrow> email \<Rightarrow> string \<Rightarrow> (string \<times> string) \<times> string" where
  "content L e bnd =
     (if e_text e \<noteq> [] \<and> e_html e \<noteq> [] then
        let boundary = randHex bnd
        in ((''Content-Type'', ''multipart/alternative; boundary='' @ Quote L boundary),
            body_part boundary ''text/plain'' (e_text e) @ body_part boundary ''text/html'' (e_html e)
              @ ''--'' @ boundary @ ''--'' @ [CR, LF])
      else if e_html e \<noteq> [] then
        ((''Content-Type'', ''text/html; charset=utf-8''), crlf (e_html e) @ [CR, LF])
      else ((''Content-Type'', ''text/plain; charset=utf-8''), crlf (e_text e) @ [CR, LF]))"

text \<open>The first of several checks that fails.\<close>

fun first_error :: "err option list \<Rightarrow> err option" where
  "first_error [] = None"
| "first_error (c # cs) = (case c of Some e \<Rightarrow> Some e | None \<Rightarrow> first_error cs)"

text \<open>
  \<^verbatim>\<open>BuildMessage\<close>; \<open>mid\<close> and \<open>bnd\<close> are the random bytes of its two calls of \<^verbatim>\<open>randHex(16)\<close>.
\<close>

definition BuildMessage ::
    "'a libs_scheme \<Rightarrow> email \<Rightarrow> string \<Rightarrow> time \<Rightarrow> string \<Rightarrow> string \<Rightarrow> err + string" where
  "BuildMessage L e hostname now mid bnd =
     (case first_error
        [validateHeaderValue ''From'' (FormatAddress L (e_from_name e) (e_from e)),
         validateHeaderValue ''To'' (FormatAddress L (e_to_name e) (e_to e)),
         (if e_reply_to e \<noteq> [] then validateHeaderValue ''Reply-To'' (e_reply_to e) else None),
         validateHeaderValue ''Subject'' (e_subject e)] of
        Some er \<Rightarrow> Inl er
      | None \<Rightarrow>
         (case lib_json_unmarshal L (e_headers e) of
            Inl er \<Rightarrow> Inl (Wrapped ''headers_json'' er)
          | Inr custom \<Rightarrow>
             (let keys = sort (map fst custom)
              in case check_custom L custom keys of
                   Some er \<Rightarrow> Inl er
                 | None \<Rightarrow>
                     (let (ct, body) = content L e bnd;
                          hs = fixed_fields L e hostname now mid
                               @ map (\<lambda>k. (k, the (map_of custom k))) keys @ [ct]
                      in Inr (concat (map write_header hs) @ [CR, LF] @ body)))))"

section \<open>Line endings: what \<^verbatim>\<open>crlf\<close> guarantees\<close>

fun no_bare_lf :: "char \<Rightarrow> string \<Rightarrow> bool" where
  "no_bare_lf p [] = True"
| "no_bare_lf p (c # s) = ((c = LF \<longrightarrow> p = CR) \<and> no_bare_lf c s)"

lemma lf_to_crlf_simps [simp]:
  "lf_to_crlf [] = []" "lf_to_crlf (c # s) = (if c = LF then [CR, LF] else [c]) @ lf_to_crlf s"
  by (simp_all add: lf_to_crlf_def)

lemma lf_to_crlf_no_bare: "no_bare_lf p (lf_to_crlf s)"
  by (induction s arbitrary: p) auto

text \<open>Reading the result back as plain line feeds gives the text before the second replacement.\<close>

lemma crlf_to_lf_Cons: "c \<noteq> CR \<or> hd s \<noteq> LF \<or> s = [] \<Longrightarrow> crlf_to_lf (c # s) = c # crlf_to_lf s"
  by (cases s) auto

lemma lf_to_crlf_hd: "lf_to_crlf s = [] \<or> hd (lf_to_crlf s) \<noteq> LF"
  by (cases s) auto

lemma crlf_to_lf_roundtrip: "crlf_to_lf (lf_to_crlf s) = s"
proof (induction s)
  case (Cons c s)
  then show ?case
    using lf_to_crlf_hd[of s] by (cases "c = LF") (auto simp: crlf_to_lf_Cons)
qed simp

section \<open>Reading the header of a message back\<close>

definition clean :: "string \<Rightarrow> bool" where
  "clean s \<longleftrightarrow> CR \<notin> set s \<and> LF \<notin> set s"

lemma clean_simps [simp]:
  "clean []" "clean (c # s) \<longleftrightarrow> c \<noteq> CR \<and> c \<noteq> LF \<and> clean s" "clean (s @ t) \<longleftrightarrow> clean s \<and> clean t"
  by (auto simp: clean_def)

lemma validateHeaderValue_None: "validateHeaderValue n v = None \<longleftrightarrow> clean v"
  by (auto simp: validateHeaderValue_def ContainsAny_set clean_def)

lemma validateHeaderName_None: "validateHeaderName n = None \<longleftrightarrow> clean n"
  by (auto simp: validateHeaderName_def ContainsAny_set clean_def)

text \<open>
  A receiver's view: a line ends at the first CR LF, the header at the first empty line, and
  what follows is the body.
\<close>

fun read_line :: "string \<Rightarrow> string \<times> string" where
  "read_line (c # d # s) =
     (if c = CR \<and> d = LF then ([], s)
      else case read_line (d # s) of (line, rest) \<Rightarrow> (c # line, rest))"
| "read_line s = (s, [])"

lemma read_line_length: "read_line s = (line, rest) \<Longrightarrow> length line + length rest \<le> length s"
proof (induction s arbitrary: line rule: read_line.induct)
  case (1 c d s)
  then show ?case by (cases "read_line (d # s)") (fastforce split: if_splits)
qed auto

function read_header :: "string \<Rightarrow> string list \<times> string" where
  "read_header s = (case read_line s of (line, rest) \<Rightarrow>
     if line = [] then ([], rest)
     else case read_header rest of (ls, body) \<Rightarrow> (line # ls, body))"
  by pat_completeness auto
termination
  by (relation "measure length") (auto dest!: read_line_length[OF sym] simp: neq_Nil_conv)

declare read_header.simps [simp del]

definition field_name :: "string \<Rightarrow> string" where
  "field_name line = takeWhile (\<lambda>c. c \<noteq> CHR '':'') line"

lemma read_line_clean: "clean l \<Longrightarrow> read_line (l @ CR # LF # r) = (l, r)"
proof (induction l)
  case (Cons c l)
  then show ?case by (cases l) auto
qed simp

lemma read_header_fields:
  "(\<forall>h \<in> set hs. clean (fst h) \<and> clean (snd h)) \<Longrightarrow>
   read_header (concat (map write_header hs) @ [CR, LF] @ body) =
     (map (\<lambda>h. header_line (fst h) (snd h)) hs, body)"
proof (induction hs)
  case Nil
  then show ?case by (subst read_header.simps) simp
next
  case (Cons h hs)
  let ?l = "header_line (fst h) (snd h)"
  let ?rest = "concat (map write_header hs) @ [CR, LF] @ body"
  have "clean ?l" "?l \<noteq> []" using Cons.prems by (simp_all add: header_line_def)
  then have "read_line (?l @ CR # LF # ?rest) = (?l, ?rest)" by (intro read_line_clean)
  moreover have "concat (map write_header (h # hs)) @ [CR, LF] @ body = ?l @ CR # LF # ?rest"
    by (simp add: write_header_def)
  moreover have "read_header ?rest = (map (\<lambda>h. header_line (fst h) (snd h)) hs, body)"
    using Cons by simp
  ultimately show ?case
    using \<open>?l \<noteq> []\<close> by (subst read_header.simps) (simp only: split if_False list.map)
qed

lemma clean_randHex [simp]: "clean (randHex b)"
  using hex_encode_chars[of _ b] by (fastforce simp: clean_def randHex_def)

lemma Quote_randHex: "Quote L (randHex b) = CHR 0x22 # randHex b @ [CHR 0x22]"
  using hex_encode_chars[of _ b] by (fastforce simp: Quote_def list_all_iff randHex_def)

lemma clean_Quote_randHex [simp]: "clean (Quote L (randHex b))"
  by (simp add: Quote_randHex)

section \<open>What a built message contains\<close>

lemma first_error_None: "first_error cs = None \<longleftrightarrow> (\<forall>c \<in> set cs. c = None)"
  by (induction cs) (auto split: option.split)

lemma ValidateHeader_None:
  "ValidateHeader L n v = None \<longleftrightarrow>
   clean n \<and> ToLower L n \<notin> set reservedHeaders \<and> clean v"
  using validateHeaderName_None[of n]
  by (cases "validateHeaderName n") (simp_all add: ValidateHeader_def validateHeaderValue_None)

lemma check_custom_None:
  "check_custom L custom ks = None \<longleftrightarrow>
   (\<forall>k \<in> set ks. ValidateHeader L k (the (map_of custom k)) = None)"
  by (induction ks) (auto simp: ValidateHeader_def split: option.split)

text \<open>All fields of the header, the content type last.\<close>

definition all_fields ::
    "'a libs_scheme \<Rightarrow> email \<Rightarrow> string \<Rightarrow> time \<Rightarrow> string \<Rightarrow> string \<Rightarrow> (string \<times> string) list \<Rightarrow> (string \<times> string) list" where
  "all_fields L e hostname now mid bnd custom = fixed_fields L e hostname now mid
     @ map (\<lambda>k. (k, the (map_of custom k))) (sort (map fst custom)) @ [fst (content L e bnd)]"

text \<open>When the message is refused and when it is built.\<close>

definition buildable :: "'a libs_scheme \<Rightarrow> email \<Rightarrow> (string \<times> string) list \<Rightarrow> bool" where
  "buildable L e custom \<longleftrightarrow>
     clean (FormatAddress L (e_from_name e) (e_from e)) \<and>
     clean (FormatAddress L (e_to_name e) (e_to e)) \<and>
     clean (e_reply_to e) \<and> clean (e_subject e) \<and>
     list_all (\<lambda>k. ValidateHeader L k (the (map_of custom k)) = None) (map fst custom)"

lemma BuildMessage_eq:
  assumes "lib_json_unmarshal L (e_headers e) = Inr custom"
  shows "buildable L e custom \<Longrightarrow> BuildMessage L e hostname now mid bnd =
           Inr (concat (map write_header (all_fields L e hostname now mid bnd custom))
             @ [CR, LF] @ snd (content L e bnd))"
    and "\<not> buildable L e custom \<Longrightarrow> \<exists>er. BuildMessage L e hostname now mid bnd = Inl er"
proof -
  let ?cs = "[validateHeaderValue ''From'' (FormatAddress L (e_from_name e) (e_from e)),
     validateHeaderValue ''To'' (FormatAddress L (e_to_name e) (e_to e)),
     if e_reply_to e \<noteq> [] then validateHeaderValue ''Reply-To'' (e_reply_to e) else None,
     validateHeaderValue ''Subject'' (e_subject e)]"
  let ?chk = "check_custom L custom (sort (map fst custom))"
  have iff: "buildable L e custom \<longleftrightarrow> first_error ?cs = None \<and> ?chk = None"
    unfolding first_error_None check_custom_None
    by (auto simp: buildable_def validateHeaderValue_None list_all_iff)
  show "BuildMessage L e hostname now mid bnd =
      Inr (concat (map write_header (all_fields L e hostname now mid bnd custom))
        @ [CR, LF] @ snd (content L e bnd))" if "buildable L e custom"
    using that assms unfolding iff
    by (simp add: BuildMessage_def all_fields_def Let_def split_beta)
  show "\<exists>er. BuildMessage L e hostname now mid bnd = Inl er" if "\<not> buildable L e custom"
    using that assms unfolding iff
    by (cases "first_error ?cs"; cases ?chk) (simp_all add: BuildMessage_def Let_def)
qed

lemma BuildMessage_Inr:
  assumes "BuildMessage L e hostname now mid bnd = Inr msg"
  obtains custom where "lib_json_unmarshal L (e_headers e) = Inr custom" "buildable L e custom"
    "msg = concat (map write_header (all_fields L e hostname now mid bnd custom))
       @ [CR, LF] @ snd (content L e bnd)"
proof (cases "lib_json_unmarshal L (e_headers e)")
  case (Inl er)
  then show ?thesis using assms by (auto simp: BuildMessage_def split: option.splits)
next
  case (Inr custom)
  then show ?thesis
    using assms that BuildMessage_eq(1)[OF Inr] BuildMessage_eq(2)[OF Inr, of hostname now mid bnd]
    by (cases "buildable L e custom") auto
qed

text \<open>What the program relies on: the two encoders never put a line break into a field.\<close>

definition clean_encoders :: "'a libs_scheme \<Rightarrow> bool" where
  "clean_encoders L \<longleftrightarrow> (\<forall>s. clean s \<longrightarrow> clean (lib_qencode L s)) \<and> (\<forall>t. clean (lib_rfc1123z L t))"

lemma all_fields_clean:
  assumes "buildable L e custom" "clean_encoders L" "clean hostname"
  shows "\<forall>h \<in> set (all_fields L e hostname now mid bnd custom). clean (fst h) \<and> clean (snd h)"
  using assms
  by (auto simp: buildable_def all_fields_def fixed_fields_def clean_encoders_def content_def
      Let_def list_all_iff ValidateHeader_None)

lemma read_header_built:
  assumes "BuildMessage L e hostname now mid bnd = Inr msg" "clean_encoders L" "clean hostname"
    and "lib_json_unmarshal L (e_headers e) = Inr custom"
  shows "read_header msg =
    (map (\<lambda>h. header_line (fst h) (snd h)) (all_fields L e hostname now mid bnd custom),
     snd (content L e bnd))"
proof -
  have "buildable L e custom" and msg: "msg = concat (map write_header (all_fields L e hostname now mid bnd custom))
      @ [CR, LF] @ snd (content L e bnd)"
    using assms(1,4) by (auto elim!: BuildMessage_Inr)
  from this(1) assms(2,3) show ?thesis
    unfolding msg by (intro read_header_fields all_fields_clean)
qed

section \<open>Reserved names\<close>

lemma field_name_header_line: "CHR '':'' \<notin> set k \<Longrightarrow> field_name (header_line k v) = k"
  by (induction k) (auto simp: field_name_def header_line_def)

text \<open>How many fields a receiver sees under a (lower-case) name.\<close>

definition fields_named :: "'a libs_scheme \<Rightarrow> string \<Rightarrow> string list \<Rightarrow> nat" where
  "fields_named L n ls = length (filter (\<lambda>l. ToLower L (field_name l) = n) ls)"

lemma fields_named_header:
  assumes "\<forall>h \<in> set hs. CHR '':'' \<notin> set (fst h)"
  shows "fields_named L n (map (\<lambda>h. header_line (fst h) (snd h)) hs)
       = length (filter (\<lambda>h. ToLower L (fst h) = n) hs)"
  using assms by (induction hs) (auto simp: fields_named_def field_name_header_line)

lemma fixed_names:
  "map fst (fixed_fields L e hostname now mid @ [fst (content L e bnd)]) =
   [''From'', ''To''] @ (if e_reply_to e \<noteq> [] then [''Reply-To''] else [])
   @ [''Subject'', ''Date'', ''Message-ID'', ''MIME-Version'', ''Content-Type'']"
  by (simp add: fixed_fields_def content_def Let_def)

lemma lower_fixed [simp]:
  "ToLower L ''From'' = ''from''" "ToLower L ''To'' = ''to''" "ToLower L ''Reply-To'' = ''reply-to''"
  "ToLower L ''Subject'' = ''subject''" "ToLower L ''Date'' = ''date''"
  "ToLower L ''Message-ID'' = ''message-id''" "ToLower L ''MIME-Version'' = ''mime-version''"
  "ToLower L ''Content-Type'' = ''content-type''"
  by (simp_all add: ToLower_def is_ascii_def ascii_lower_def char_of_eq_iff)

lemma filter_key_le_1: "distinct (map f xs) \<Longrightarrow> length (filter (\<lambda>x. f x = n) xs) \<le> 1"
proof (induction xs)
  case (Cons x xs)
  then show ?case by (auto simp: filter_empty_conv image_iff)
qed simp

lemma reserved_once_fixed:
  "length (filter (\<lambda>h. ToLower L (fst h) = n) (fixed_fields L e hostname now mid @ [fst (content L e bnd)])) \<le> 1"
proof (rule filter_key_le_1)
  have "map (\<lambda>h. ToLower L (fst h)) (fixed_fields L e hostname now mid @ [fst (content L e bnd)])
      = map (ToLower L) (map fst (fixed_fields L e hostname now mid @ [fst (content L e bnd)]))"
    by simp
  also have "distinct \<dots>" unfolding fixed_names by simp
  finally show "distinct (map (\<lambda>h. ToLower L (fst h))
      (fixed_fields L e hostname now mid @ [fst (content L e bnd)]))" .
qed

lemma reserved_once:
  assumes "buildable L e custom" "n \<in> set reservedHeaders"
    and "\<forall>h \<in> set custom. CHR '':'' \<notin> set (fst h)"
  shows "fields_named L n (map (\<lambda>h. header_line (fst h) (snd h))
    (all_fields L e hostname now mid bnd custom)) \<le> 1"
proof -
  have none: "filter (\<lambda>h. ToLower L (fst h) = n) (map (\<lambda>k. (k, the (map_of custom k))) (sort (map fst custom))) = []"
    using assms(1,2) by (auto simp: filter_empty_conv buildable_def list_all_iff ValidateHeader_None)
  have colon: "\<forall>h \<in> set (all_fields L e hostname now mid bnd custom). CHR '':'' \<notin> set (fst h)"
    using assms(3) by (auto simp: all_fields_def fixed_fields_def content_def Let_def)
  have "filter (\<lambda>h. ToLower L (fst h) = n) (all_fields L e hostname now mid bnd custom)
      = filter (\<lambda>h. ToLower L (fst h) = n) (fixed_fields L e hostname now mid @ [fst (content L e bnd)])"
    unfolding all_fields_def filter_append none by simp
  then show ?thesis
    using reserved_once_fixed[of L n e hostname now mid bnd] by (simp only: fields_named_header[OF colon])
qed

end
