(* ===== verification/Domains.thy ===== *)
theory Domains
  imports Database
begin

text \<open>
  \<^verbatim>\<open>internal/store/domains.go\<close>: sending domains with their DKIM key and the verification
  status of their three DNS records.
\<close>

definition Verified :: "domain \<Rightarrow> bool" where
  "Verified d \<longleftrightarrow> d_spf d \<and> d_dkim d \<and> d_dmarc d"

definition GetDomain :: "int \<Rightarrow> domain db" where
  "GetDomain i = query_row (\<lambda>s. find (\<lambda>d. d_id d = i) (t_domains s))"

definition insert_domain :: "string \<Rightarrow> string \<Rightarrow> string \<Rightarrow> string \<Rightarrow> int db" where
  "insert_domain name selector pem now s =
     (if name \<in> d_name ` set (t_domains s)
      then (Inl (Constraint ''UNIQUE constraint failed: domains.name''), s)
      else let i = next_rowid (map d_id (t_domains s));
             d = \<lparr>d_id = i, d_name = name, d_selector = selector, d_private_key = pem,
                  d_spf = False, d_dkim = False, d_dmarc = False, d_last_checked = [],
                  d_created = now\<rparr>
           in (Inr i, s\<lparr>t_domains := t_domains s @ [d]\<rparr>))"

definition CreateDomain :: "string \<Rightarrow> string \<Rightarrow> string \<Rightarrow> domain db" where
  "CreateDomain name selector privKeyPEM s =
     db_bind (stmt (insert_domain name selector privKeyPEM (Now s))) GetDomain s"

definition GetDomainByName :: "string \<Rightarrow> domain option db" where
  "GetDomainByName name = null_row (query_row (\<lambda>s. find (\<lambda>d. d_name d = name) (t_domains s)))"

definition ListDomains :: "domain list db" where
  "ListDomains = query (\<lambda>s. sort_key d_name (t_domains s))"

definition set_verification :: "int \<Rightarrow> bool \<Rightarrow> bool \<Rightarrow> bool \<Rightarrow> string \<Rightarrow> store \<Rightarrow> store" where
  "set_verification i spf dkim dmarc checkedAt s = s\<lparr>t_domains := update_where (\<lambda>d. d_id d = i)
     (\<lambda>d. d\<lparr>d_spf := spf, d_dkim := dkim, d_dmarc := dmarc, d_last_checked := checkedAt\<rparr>)
     (t_domains s)\<rparr>"

definition SetDomainVerification :: "int \<Rightarrow> bool \<Rightarrow> bool \<Rightarrow> bool \<Rightarrow> string \<Rightarrow> unit db" where
  "SetDomainVerification i spf dkim dmarc checkedAt =
     exec_upd (set_verification i spf dkim dmarc checkedAt)"

end
