(* ===== verification/ApiKeys.thy ===== *)
theory ApiKeys
  imports Database
begin

text \<open>
  \<^verbatim>\<open>internal/store/apikeys.go\<close>: API keys, stored by the SHA-256 hash of their token, and the
  generation of a token from 16 random bytes.
\<close>

definition insert_key :: "string \<Rightarrow> int \<Rightarrow> string \<Rightarrow> string \<Rightarrow> int db" where
  "insert_key name domainID keyHash now s =
     (if domainID \<notin> d_id ` set (t_domains s)
      then (Inl (Constraint ''FOREIGN KEY constraint failed''), s)
      else if keyHash \<in> k_hash ` set (t_keys s)
      then (Inl (Constraint ''UNIQUE constraint failed: api_keys.key_hash''), s)
      else let i = next_rowid (map k_id (t_keys s));
             k = \<lparr>k_id = i, k_name = name, k_hash = keyHash, k_domain_id = domainID,
                  k_revoked = False, k_last_used = [], k_created = now\<rparr>
           in (Inr i, s\<lparr>t_keys := t_keys s @ [k]\<rparr>))"

definition CreateAPIKey :: "string \<Rightarrow> int \<Rightarrow> string \<Rightarrow> int db" where
  "CreateAPIKey name domainID keyHash s = stmt (insert_key name domainID keyHash (Now s)) s"

definition GetAPIKeyByHash :: "string \<Rightarrow> api_key option db" where
  "GetAPIKeyByHash hash =
     null_row (query_row (\<lambda>s. find (\<lambda>k. k_hash k = hash \<and> \<not> k_revoked k) (t_keys s)))"

definition ListAPIKeys :: "api_key list db" where
  "ListAPIKeys = query (\<lambda>s. sort_desc k_created (t_keys s))"

definition revoke_key :: "int \<Rightarrow> store \<Rightarrow> store" where
  "revoke_key i s = s\<lparr>t_keys := update_where (\<lambda>k. k_id k = i) (\<lambda>k. k\<lparr>k_revoked := True\<rparr>) (t_keys s)\<rparr>"

definition RevokeAPIKey :: "int \<Rightarrow> unit db" where
  "RevokeAPIKey i = exec_upd (revoke_key i)"

definition touch_key :: "int \<Rightarrow> string \<Rightarrow> store \<Rightarrow> store" where
  "touch_key i at s = s\<lparr>t_keys := update_where (\<lambda>k. k_id k = i) (\<lambda>k. k\<lparr>k_last_used := at\<rparr>) (t_keys s)\<rparr>"

definition TouchAPIKey :: "int \<Rightarrow> string \<Rightarrow> unit db" where
  "TouchAPIKey i at = exec_upd (touch_key i at)"

section \<open>Tokens\<close>

definition HashAPIKey :: "'a libs_scheme \<Rightarrow> string \<Rightarrow> string" where
  "HashAPIKey L token = lib_sha256_hex L token"

text \<open>
  \<^verbatim>\<open>GenerateAPIKey\<close> on the outcome of \<^verbatim>\<open>rand.Read\<close>: its error, or the 16 bytes it gave.
\<close>

definition GenerateAPIKey :: "'a libs_scheme \<Rightarrow> err + string \<Rightarrow> err + string \<times> string" where
  "GenerateAPIKey L rand = (case rand of Inl e \<Rightarrow> Inl e
     | Inr buf \<Rightarrow> let token = ''dv_'' @ hex_encode buf in Inr (token, HashAPIKey L token))"

end
