(* ===== verification/NotifyStore.thy ===== *)
theory NotifyStore
  imports Emails
begin

text \<open>
  \<^verbatim>\<open>internal/store/notify.go\<close>: the notifier's key/value state, the set of failures waiting for
  the digest, and the failure rate of a domain's delivery attempts.
\<close>

definition GetState :: "string \<Rightarrow> string db" where
  "GetState key s = (case query_row (\<lambda>s. map_of (t_state s) key) s of
       (Inl e, s') \<Rightarrow> (if errors_Is e ErrNoRows then Inr [] else Inl e, s')
     | (Inr v, s') \<Rightarrow> (Inr v, s'))"

text \<open>\<^verbatim>\<open>INSERT ... ON CONFLICT(key) DO UPDATE\<close>.\<close>

definition upsert_state :: "string \<Rightarrow> string \<Rightarrow> store \<Rightarrow> store" where
  "upsert_state key val s =
     (if key \<in> fst ` set (t_state s)
      then s\<lparr>t_state := update_where (\<lambda>p. fst p = key) (\<lambda>p. (fst p, val)) (t_state s)\<rparr>
      else s\<lparr>t_state := t_state s @ [(key, val)]\<rparr>)"

definition SetState :: "string \<Rightarrow> string \<Rightarrow> unit db" where
  "SetState key val = exec_upd (upsert_state key val)"

text \<open>
  \<^verbatim>\<open>INSERT OR IGNORE\<close>: an email already waiting is left alone; a violated foreign key is still
  an error.
\<close>

definition insert_pending :: "int \<Rightarrow> string \<Rightarrow> unit db" where
  "insert_pending emailID now s =
     (if emailID \<in> fst ` set (t_pending s) then (Inr (), s)
      else if emailID \<notin> er_id ` set (t_emails s)
      then (Inl (Constraint ''FOREIGN KEY constraint failed''), s)
      else (Inr (), s\<lparr>t_pending := t_pending s @ [(emailID, now)]\<rparr>))"

definition AddPendingFailure :: "int \<Rightarrow> unit db" where
  "AddPendingFailure emailID s = stmt (insert_pending emailID (Now s)) s"

definition pending_emails :: "store \<Rightarrow> email list" where
  "pending_emails s = map scanEmail (sort_key er_id
     (filter (\<lambda>r. er_id r \<in> fst ` set (t_pending s)) (t_emails s)))"

definition ListPendingFailures :: "email list db" where
  "ListPendingFailures = query pending_emails"

definition clear_pending :: "store \<Rightarrow> store" where
  "clear_pending s = s\<lparr>t_pending := []\<rparr>"

definition ClearPendingFailures :: "unit db" where
  "ClearPendingFailures = exec_upd clear_pending"

text \<open>
  \<^verbatim>\<open>FailureRate\<close>: the attempts of the domain's emails since a time, and those of them with
  no SMTP code or a code of 400 and above.
\<close>

definition attempts_since :: "int \<Rightarrow> string \<Rightarrow> store \<Rightarrow> attempt list" where
  "attempts_since domainID since s = filter (\<lambda>a. since \<le> a_created a \<and>
     (case row_of (a_email_id a) s of None \<Rightarrow> False | Some r \<Rightarrow> er_domain_id r = domainID))
     (t_attempts s)"

definition failed_attempt :: "attempt \<Rightarrow> bool" where
  "failed_attempt a \<longleftrightarrow> 400 \<le> a_code a \<or> a_code a = 0"

definition FailureRate :: "int \<Rightarrow> string \<Rightarrow> (nat \<times> nat) db" where
  "FailureRate domainID since = query (\<lambda>s. let as = attempts_since domainID since s
     in (length (filter failed_attempt as), length as))"

section \<open>Laws of the key/value state\<close>

lemma map_of_update_where:
  "map_of (update_where (\<lambda>p. fst p = key) (\<lambda>p. (fst p, val)) xs) k =
     (if k = key \<and> key \<in> fst ` set xs then Some val else map_of xs k)"
proof (induction xs)
  case (Cons p xs)
  then show ?case
    by (cases "k = key"; cases "key \<in> fst ` set xs"; cases p) (auto simp: update_where_def image_iff)
qed (simp add: update_where_def)

lemma map_of_upsert:
  "map_of (t_state (upsert_state key val s)) = (map_of (t_state s))(key \<mapsto> val)"
proof
  fix k
  have "map_of (t_state s) key = None" if "key \<notin> fst ` set (t_state s)"
    using that by (simp add: map_of_eq_None_iff)
  then show "map_of (t_state (upsert_state key val s)) k = ((map_of (t_state s))(key \<mapsto> val)) k"
    by (auto simp: upsert_state_def map_of_update_where map_add_def split: option.splits)
qed

end
