(* ===== verification/Float64.thy ===== *)
theory Float64
  imports Complex_Main "HOL-Library.Log_Nat" Timestamp
begin

text \<open>
  Go's \<^verbatim>\<open>float64\<close> as the program uses it: quotients and products of counts, compared with a
  threshold and printed with a fixed number of decimals. A \<^verbatim>\<open>float64\<close> is the rational number
  it stands for. \<open>float64\<close> rounds a number to the nearest one with 53 significant bits, ties
  to even, and every operation is the exact one, rounded; all numbers here lie between
  2^-63 and 2^70 or are 0, so the exponent range of the format is never left.
\<close>

section \<open>Rounding\<close>

definition round_even :: "rat \<Rightarrow> int" where
  "round_even x = (let f = \<lfloor>x\<rfloor>; r = x - of_int f
     in if r < 1 / 2 then f else if 1 / 2 < r then f + 1 else if even f then f else f + 1)"

text \<open>The exponent of the leading bit, from the bit lengths of numerator and denominator.\<close>

definition exp2 :: "rat \<Rightarrow> int" where
  "exp2 x = (case quotient_of x of (p, q) \<Rightarrow>
     (let k = int (floorlog 2 (nat p)) - int (floorlog 2 (nat q))
      in if 2 powi k \<le> x then k else k - 1))"

definition float64 :: "rat \<Rightarrow> rat" where
  "float64 x = (if x = 0 then 0 else
     (let u = 2 powi (exp2 \<bar>x\<bar> - 52) in of_int (round_even (x / u)) * u))"

text \<open>\<^verbatim>\<open>float64(n)\<close> and the operators.\<close>

definition f_of_nat :: "nat \<Rightarrow> rat" where "f_of_nat n = float64 (of_nat n)"
definition f_div :: "rat \<Rightarrow> rat \<Rightarrow> rat" where "f_div x y = float64 (x / y)"
definition f_mul :: "rat \<Rightarrow> rat \<Rightarrow> rat" where "f_mul x y = float64 (x * y)"
definition f_sub :: "rat \<Rightarrow> rat \<Rightarrow> rat" where "f_sub x y = float64 (x - y)"

text \<open>
  \<^verbatim>\<open>%.nf\<close> and \<^verbatim>\<open>%+.nf\<close>: the exact decimal value rounded to \<open>n\<close> places, ties to even. A zero
  is never negative here: no operation of the program yields the negative zero.
\<close>

definition fmt_unsigned :: "nat \<Rightarrow> rat \<Rightarrow> string" where
  "fmt_unsigned n x = (let m = round_even (x * 10 ^ n)
     in Itoa (m div 10 ^ n) @ (if n = 0 then [] else CHR ''.'' # fixed_digits n (nat (m mod 10 ^ n))))"

definition fmt_f :: "nat \<Rightarrow> rat \<Rightarrow> string" where
  "fmt_f n x = (if x < 0 then CHR ''-'' # fmt_unsigned n (- x) else fmt_unsigned n x)"

definition fmt_plus_f :: "nat \<Rightarrow> rat \<Rightarrow> string" where
  "fmt_plus_f n x = (if x < 0 then fmt_f n x else CHR ''+'' # fmt_f n x)"

section \<open>Laws\<close>

lemma round_even_bounds: "\<bar>of_int (round_even x) - x\<bar> \<le> 1 / 2"
proof -
  have f: "of_int \<lfloor>x\<rfloor> \<le> x" "x < of_int \<lfloor>x\<rfloor> + 1" by linarith+
  show ?thesis unfolding round_even_def Let_def using f by (simp add: abs_le_iff)
qed

lemma round_even_of_int [simp]: "round_even (of_int n) = n"
  by (simp add: round_even_def)

lemma round_even_floor: "\<lfloor>x\<rfloor> \<le> round_even x" "round_even x \<le> \<lfloor>x\<rfloor> + 1"
  by (simp_all add: round_even_def Let_def)

lemma round_even_mono:
  assumes "x \<le> y"
  shows "round_even x \<le> round_even y"
proof (cases "\<lfloor>x\<rfloor> = \<lfloor>y\<rfloor>")
  case True
  with assms show ?thesis by (simp add: round_even_def Let_def)
next
  case False
  with floor_mono[OF assms] round_even_floor[of x] round_even_floor[of y] show ?thesis by linarith
qed

lemma exp2_bounds:
  assumes "0 < x"
  shows "2 powi exp2 x \<le> x" "x < 2 powi (exp2 x + 1)"
proof -
  obtain p q where pq: "quotient_of x = (p, q)" by fastforce
  have q: "0 < q" using quotient_of_denom_pos[OF pq] .
  have x: "x = of_int p / of_int q" using quotient_of_div[OF pq] .
  have p: "0 < p" using assms q unfolding x by (simp add: zero_less_divide_iff)
  define a b where "a = floorlog 2 (nat p)" and "b = floorlog 2 (nat q)"
  have "2 ^ (a - 1) \<le> nat p \<and> nat p < 2 ^ a" "2 ^ (b - 1) \<le> nat q \<and> nat q < 2 ^ b"
    unfolding a_def b_def using floorlog_bounds[of "nat p" 2] floorlog_bounds[of "nat q" 2] p q
    by (simp_all only: zero_less_nat_eq one_less_numeral_iff semiring_norm simp_thms)
  then have "(2::int) ^ (a - 1) \<le> p" "p < 2 ^ a" "(2::int) ^ (b - 1) \<le> q" "q < 2 ^ b"
    using p q by (simp_all add: le_nat_iff nat_less_iff)
  then have r: "(2::rat) ^ (a - 1) \<le> of_int p" "of_int p < (2::rat) ^ a"
    "(2::rat) ^ (b - 1) \<le> of_int q" "of_int q < (2::rat) ^ b"
    by (metis of_int_le_iff of_int_less_iff of_int_numeral of_int_power)+
  have ab: "0 < a" "0 < b" using p q by (simp_all add: a_def b_def floorlog_def)
  have pw: "(2::rat) powi (int a - int b - 1) = 2 ^ (a - 1) / 2 ^ b"
    "(2::rat) powi (int a - int b + 1) = 2 ^ a / 2 ^ (b - 1)"
    using ab by (simp_all add: power_int_diff power_int_add power_diff)
  have lo: "2 powi (int a - int b - 1) < x"
    unfolding pw x using r q ab p by (intro frac_less2) simp_all
  have hi: "x < 2 powi (int a - int b + 1)"
    unfolding pw x using r q ab p by (intro frac_less) simp_all
  have e: "exp2 x = (if 2 powi (int a - int b) \<le> x then int a - int b else int a - int b - 1)"
    by (simp add: exp2_def pq a_def b_def Let_def)
  show "2 powi exp2 x \<le> x" "x < 2 powi (exp2 x + 1)"
    unfolding e using lo hi by auto
qed

lemma exp2_unique:
  assumes "2 powi k \<le> x" "x < 2 powi (k + 1)"
  shows "exp2 x = k"
proof -
  have "0 < x" using assms(1) by (meson less_le_trans zero_less_numeral zero_less_power_int)
  note b = exp2_bounds[OF this]
  have "(2::rat) powi k < 2 powi (exp2 x + 1)" "(2::rat) powi exp2 x < 2 powi (k + 1)"
    using b assms by linarith+
  then have "k < exp2 x + 1" "exp2 x < k + 1"
    using power_int_increasing[of "exp2 x + 1" k "2::rat"] power_int_increasing[of "k + 1" "exp2 x" "2::rat"]
    by (force simp: not_less[symmetric])+
  then show ?thesis by simp
qed

lemma float64_zero [simp]: "float64 0 = 0"
  by (simp add: float64_def)

lemma float64_error:
  assumes "0 \<le> x"
  shows "\<bar>float64 x - x\<bar> \<le> x / 2 ^ 53"
proof (cases "x = 0")
  case False
  with assms have x: "0 < x" by simp
  define u :: rat where "u = 2 powi (exp2 x - 52)"
  have u: "0 < u" by (simp add: u_def)
  have f: "float64 x = of_int (round_even (x / u)) * u" using x by (simp add: float64_def u_def Let_def)
  have "2 powi exp2 x = u * 2 ^ 52" by (simp add: u_def power_int_diff)
  then have "u * 2 ^ 52 \<le> x" using exp2_bounds(1)[OF x] by simp
  moreover have "float64 x - x = (of_int (round_even (x / u)) - x / u) * u"
    using u unfolding f by (simp add: field_simps)
  then have "\<bar>float64 x - x\<bar> = \<bar>of_int (round_even (x / u)) - x / u\<bar> * u"
    using u by (simp add: abs_mult)
  then have "\<bar>float64 x - x\<bar> \<le> 1 / 2 * u"
    using mult_right_mono[OF round_even_bounds[of "x / u"], of u] u by simp
  ultimately show ?thesis by simp
qed simp

lemma float64_nonneg: "0 \<le> x \<Longrightarrow> 0 \<le> float64 x"
proof -
  assume x: "0 \<le> x"
  have "0 \<le> x / 2 powi (exp2 \<bar>x\<bar> - 52)" using x by simp
  then have "0 \<le> round_even (x / 2 powi (exp2 \<bar>x\<bar> - 52))"
    using round_even_mono[of 0] round_even_of_int[of 0] by simp
  then show ?thesis by (simp add: float64_def Let_def)
qed

lemma float64_scaled:
  assumes "0 < x"
  obtains m where "float64 x = of_int m * 2 powi (exp2 x - 52)" "2 ^ 52 \<le> m" "m \<le> 2 ^ 53"
    "m = round_even (x / 2 powi (exp2 x - 52))"
proof -
  define u :: rat where "u = 2 powi (exp2 x - 52)"
  have u: "0 < u" by (simp add: u_def)
  have b: "2 ^ 52 * u = 2 powi exp2 x" "2 ^ 53 * u = 2 powi (exp2 x + 1)"
    by (simp_all add: u_def power_int_diff power_int_add)
  have "2 ^ 52 \<le> x / u" "x / u \<le> 2 ^ 53"
    using exp2_bounds[OF assms] u b by (simp_all add: field_simps)
  then have "round_even (of_int (2 ^ 52)) \<le> round_even (x / u)" "round_even (x / u) \<le> round_even (of_int (2 ^ 53))"
    by (intro round_even_mono; simp)+
  then have "2 ^ 52 \<le> round_even (x / u)" "round_even (x / u) \<le> 2 ^ 53"
    by (simp_all only: round_even_of_int)
  moreover have "float64 x = of_int (round_even (x / u)) * u"
    using assms by (simp add: float64_def u_def Let_def)
  ultimately show thesis by (intro that[of "round_even (x / u)"]) (simp_all add: u_def)
qed

lemma float64_mono:
  assumes "0 \<le> x" "x \<le> y"
  shows "float64 x \<le> float64 y"
proof (cases "x = 0")
  case True
  with assms show ?thesis using float64_nonneg[of y] by simp
next
  case False
  with assms have x: "0 < x" and y: "0 < y" by simp_all
  obtain m where m: "float64 x = of_int m * 2 powi (exp2 x - 52)" "m \<le> 2 ^ 53"
      "m = round_even (x / 2 powi (exp2 x - 52))"
    using float64_scaled[OF x] by metis
  obtain n where n: "float64 y = of_int n * 2 powi (exp2 y - 52)" "2 ^ 52 \<le> n"
      "n = round_even (y / 2 powi (exp2 y - 52))"
    using float64_scaled[OF y] by metis
  have "(2::rat) powi exp2 x < 2 powi (exp2 y + 1)"
    using exp2_bounds(1)[OF x] exp2_bounds(2)[OF y] assms by linarith
  then have "exp2 x \<le> exp2 y"
    using power_int_increasing[of "exp2 y + 1" "exp2 x" "2::rat"] by force
  then consider "exp2 x = exp2 y" | "exp2 x + 1 \<le> exp2 y" by linarith
  then show ?thesis
  proof cases
    case 1
    have "m \<le> n" unfolding m(3) n(3) 1
      by (rule round_even_mono) (use assms in \<open>simp add: divide_right_mono\<close>)
    then show ?thesis unfolding m(1) n(1) 1 by simp
  next
    case 2
    have "of_int m \<le> (2 ^ 53 :: rat)" using m(2) by (metis of_int_le_iff of_int_numeral of_int_power)
    then have "float64 x \<le> 2 ^ 53 * 2 powi (exp2 x - 52)" unfolding m(1) by simp
    also have "\<dots> = 2 powi (exp2 x + 1)" by (simp add: power_int_diff power_int_add)
    also have "\<dots> \<le> 2 powi exp2 y" using 2 by (intro power_int_increasing) simp_all
    also have "\<dots> = 2 ^ 52 * 2 powi (exp2 y - 52)" by (simp add: power_int_diff)
    also have "\<dots> \<le> float64 y"
    proof -
      have "(2 ^ 52 :: rat) \<le> of_int n" using n(2) by (metis of_int_le_iff of_int_numeral of_int_power)
      then show ?thesis unfolding n(1) by simp
    qed
    finally show ?thesis .
  qed
qed

text \<open>Whole numbers below 2^53 are not rounded.\<close>

lemma float64_nat:
  assumes "n < 2 ^ 53"
  shows "float64 (of_nat n) = of_nat n"
proof (cases "n = 0")
  case False
  define x :: rat where "x = of_nat n"
  have x: "0 < x" using False by (simp add: x_def)
  have "x < 2 ^ 53" using assms unfolding x_def by (metis of_nat_less_iff of_nat_numeral of_nat_power)
  then have "(2::rat) powi exp2 x < 2 powi 53" using exp2_bounds(1)[OF x] by simp
  then have "exp2 x < 53" using power_int_increasing[of 53 "exp2 x" "2::rat"] by force
  then have k: "0 \<le> 52 - exp2 x" by simp
  have "(2::rat) powi (exp2 x - 52) = inverse (2 powi (52 - exp2 x))"
    by (metis minus_diff_eq power_int_minus)
  then have "x / 2 powi (exp2 x - 52) = of_int (int n * 2 ^ nat (52 - exp2 x))"
    using k by (simp add: x_def power_int_nonneg_exp divide_inverse)
  then have "of_int (round_even (x / 2 powi (exp2 x - 52))) = x / 2 powi (exp2 x - 52)"
    by (simp only: round_even_of_int)
  then show ?thesis using x unfolding x_def[symmetric] by (simp add: float64_def Let_def)
qed simp

lemma f_of_nat_exact: "n < 2 ^ 53 \<Longrightarrow> f_of_nat n = of_nat n"
  by (simp add: f_of_nat_def float64_nat)

lemma f_of_nat_mono: "m \<le> n \<Longrightarrow> f_of_nat m \<le> f_of_nat n"
  unfolding f_of_nat_def by (rule float64_mono) simp_all

text \<open>A percentage computed in floating point lies between 0 and 100.\<close>

lemma percentage_bounds:
  assumes "m \<le> n" "0 < n"
  shows "0 \<le> f_mul (f_div (f_of_nat m) (f_of_nat n)) 100 \<and> f_mul (f_div (f_of_nat m) (f_of_nat n)) 100 \<le> 100"
proof -
  have one: "float64 1 = 1" "float64 100 = 100" using float64_nat[of 1] float64_nat[of 100] by simp_all
  have n: "1 \<le> f_of_nat n" using f_of_nat_mono[of 1 n] assms(2) one by (simp add: f_of_nat_def)
  have m: "0 \<le> f_of_nat m" unfolding f_of_nat_def by (rule float64_nonneg) simp
  have q: "0 \<le> f_of_nat m / f_of_nat n" "f_of_nat m / f_of_nat n \<le> 1"
    using n m f_of_nat_mono[OF assms(1)] by simp_all
  then have "0 \<le> f_div (f_of_nat m) (f_of_nat n)" "f_div (f_of_nat m) (f_of_nat n) \<le> 1"
    using float64_nonneg float64_mono[OF q] one by (simp_all add: f_div_def)
  then show ?thesis
    unfolding f_mul_def using float64_nonneg float64_mono[of "f_div (f_of_nat m) (f_of_nat n) * 100" 100] one
    by simp
qed


section \<open>Comparing a ratio of counts with 0.2\<close>

text \<open>The \<^verbatim>\<open>float64\<close> nearest to 0.2 is a little above it.\<close>

definition default_threshold :: rat where
  "default_threshold = 3602879701896397 / 18014398509481984"

lemma float64_fifth: "float64 (1 / 5) = default_threshold"
proof -
  have e: "exp2 (1 / 5) = - 3"
    by (rule exp2_unique) (simp_all add: power_int_minus_divide)
  have u: "(2::rat) powi (- 55) = 1 / 36028797018963968" by (simp add: power_int_minus_divide)
  have "\<lfloor>36028797018963968 / 5 :: rat\<rfloor> = 7205759403792793" by (rule floor_unique) simp_all
  then have r: "round_even (36028797018963968 / 5) = 7205759403792794" by (simp add: round_even_def Let_def)
  have "float64 (1 / 5) = of_int (round_even (1 / 5 / 2 powi (- 55))) * 2 powi (- 55)"
    by (simp add: float64_def Let_def e)
  also have "\<dots> = default_threshold" unfolding u using r by (simp add: default_threshold_def)
  finally show ?thesis .
qed

text \<open>
  Rounded or not, up to a thousand million attempts the ratio reaches the threshold exactly
  when it is at least one fifth.
\<close>

lemma ratio_at_least_fifth:
  assumes "m \<le> n" "0 < n" "n \<le> 10 ^ 9"
  shows "default_threshold \<le> f_div (f_of_nat m) (f_of_nat n) \<longleftrightarrow> n \<le> 5 * m"
proof -
  define x :: rat where "x = of_nat m / of_nat n"
  have ex: "f_div (f_of_nat m) (f_of_nat n) = float64 x"
    using assms by (simp add: f_div_def x_def f_of_nat_exact)
  have N: "0 < (of_nat n :: rat)" "(of_nat n :: rat) \<le> 10 ^ 9"
    using assms by (simp, metis of_nat_le_iff of_nat_numeral of_nat_power)
  have x: "0 \<le> x" "x \<le> 1" using assms by (simp_all add: x_def)
  have "\<bar>float64 x - x\<bar> \<le> 1 / 2 ^ 53"
    using float64_error[OF x(1)] x by (simp add: field_simps)
  then have err: "x - 1 / 2 ^ 53 \<le> float64 x" "float64 x \<le> x + 1 / 2 ^ 53" by linarith+
  have gap: "1 / (5 * 10 ^ 9) \<le> (d :: rat) / (5 * of_nat n)" if "1 \<le> d" for d
    using that N by (intro frac_le) simp_all
  consider "n = 5 * m" | "n < 5 * m" | "5 * m < n" by linarith
  then show ?thesis
  proof cases
    case 1
    then have "x = 1 / 5" using N by (simp add: x_def)
    with 1 show ?thesis unfolding ex by (simp only: float64_fifth) simp
  next
    case 2
    then have "of_nat (n + 1) \<le> (of_nat (5 * m) :: rat)" by (simp only: of_nat_le_iff)
    then have "1 \<le> 5 * of_nat m - (of_nat n :: rat)" by simp
    from gap[OF this] have "1 / (5 * 10 ^ 9) \<le> x - 1 / 5"
      using N by (simp add: x_def diff_divide_distrib)
    then have "default_threshold \<le> float64 x" using err unfolding default_threshold_def by simp
    with 2 show ?thesis by (simp add: ex)
  next
    case 3
    then have "of_nat (5 * m + 1) \<le> (of_nat n :: rat)" by (simp only: of_nat_le_iff)
    then have "1 \<le> (of_nat n :: rat) - 5 * of_nat m" by simp
    from gap[OF this] have "1 / (5 * 10 ^ 9) \<le> 1 / 5 - x"
      using N by (simp add: x_def diff_divide_distrib)
    then have "float64 x < default_threshold" using err unfolding default_threshold_def by simp
    with 3 show ?thesis by (simp add: ex)
  qed
qed

end
