(* ===== verification/Stats.thy ===== *)
theory Stats
  imports NotifyStore Float64
begin

text \<open>
  \<^verbatim>\<open>internal/store/stats.go\<close> and the monthly wrappers of \<^verbatim>\<open>internal/store/notify.go\<close>: counts by
  day, by domain and by reason over the emails created in a half-open range of timestamps.
\<close>

definition in_range :: "string \<Rightarrow> string \<Rightarrow> email_row \<Rightarrow> bool" where
  "in_range lo hi r \<longleftrightarrow> lo \<le> er_created r \<and> er_created r < hi"

definition count_status :: "string list \<Rightarrow> email_row list \<Rightarrow> nat" where
  "count_status sts rs = length (filter (\<lambda>r. er_status r \<in> set sts) rs)"

text \<open>\<^verbatim>\<open>GROUP BY k ORDER BY k\<close>: the keys that occur, once each, in order.\<close>

definition groups :: "('r \<Rightarrow> 'k::linorder) \<Rightarrow> 'r list \<Rightarrow> ('k \<times> 'r list) list" where
  "groups k rs = map (\<lambda>x. (x, filter (\<lambda>r. k r = x) rs)) (sort (remdups (map k rs)))"

record day_count =
  dc_date :: string
  dc_sent :: nat
  dc_failed :: nat

definition DailyVolume :: "string \<Rightarrow> string \<Rightarrow> day_count list db" where
  "DailyVolume lo hi = query (\<lambda>s.
     map (\<lambda>(day, rs). \<lparr>dc_date = day, dc_sent = count_status [''sent''] rs,
                       dc_failed = count_status [''failed''] rs\<rparr>)
       (groups (\<lambda>r. take 10 (er_created r)) (filter (in_range lo hi) (t_emails s))))"

text \<open>The success rate is a \<^verbatim>\<open>float64\<close>.\<close>

record summary =
  sm_sent :: nat
  sm_failed :: nat
  sm_queued :: nat
  sm_canceled :: nat
  sm_total :: nat
  sm_success_rate :: rat

definition summary_of :: "email_row list \<Rightarrow> summary" where
  "summary_of rs =
     (let sent = count_status [''sent''] rs; canceled = count_status [''canceled''] rs;
          total = length rs; rated = int total - int canceled
      in \<lparr>sm_sent = sent, sm_failed = count_status [''failed''] rs,
          sm_queued = count_status [''queued'', ''sending''] rs, sm_canceled = canceled,
          sm_total = total,
          sm_success_rate = (if 0 < rated then f_mul (f_div (f_of_nat sent) (f_of_nat (nat rated))) 100 else 0)\<rparr>)"

definition SummaryStats :: "string \<Rightarrow> string \<Rightarrow> summary db" where
  "SummaryStats lo hi = query (\<lambda>s. summary_of (filter (in_range lo hi) (t_emails s)))"

record domain_stats =
  ds_name :: string
  ds_sent :: nat
  ds_failed :: nat

text \<open>The join with \<open>domains\<close>: each email with the name of its domain.\<close>

definition domain_name :: "store \<Rightarrow> email_row \<Rightarrow> string option" where
  "domain_name s r = map_option d_name (find (\<lambda>d. d_id d = er_domain_id r) (t_domains s))"

definition DomainVolume :: "string \<Rightarrow> string \<Rightarrow> domain_stats list db" where
  "DomainVolume lo hi = query (\<lambda>s.
     map (\<lambda>(name, rs). \<lparr>ds_name = name, ds_sent = count_status [''sent''] rs,
                        ds_failed = count_status [''failed''] rs\<rparr>)
       (groups (\<lambda>r. the (domain_name s r))
          (filter (\<lambda>r. in_range lo hi r \<and> domain_name s r \<noteq> None) (t_emails s))))"

text \<open>
  The most frequent errors first; equally frequent ones in the order of the grouping, by
  their text.
\<close>

definition FailureReasons :: "string \<Rightarrow> string \<Rightarrow> int \<Rightarrow> (string \<times> nat) list db" where
  "FailureReasons lo hi limit = query (\<lambda>s.
     sql_limit limit (sort_desc snd (map (\<lambda>(e, rs). (e, length rs))
       (groups er_error (filter (\<lambda>r. er_status r = ''failed'' \<and> in_range lo hi r \<and> er_error r \<noteq> [])
          (t_emails s))))))"

section \<open>Months\<close>

text \<open>\<^verbatim>\<open>time.Parse("2006-01", s)\<close>: four digits, a dash, and a month of two digits.\<close>

definition parse_month :: "string \<Rightarrow> time option" where
  "parse_month s =
     (if length s \<noteq> 7 \<or> s ! 4 \<noteq> CHR ''-'' then None
      else case (parse_digits 0 (take 4 s), parse_digits 0 (drop 5 s)) of
             (Some y, Some m) \<Rightarrow> if 1 \<le> m \<and> m \<le> 12 then Some (Date (int y) (int m) 1 0 0 0 0) else None
           | _ \<Rightarrow> None)"

text \<open>The last string of the defensive range is U+FFFF, which is EF BF BF in UTF-8.\<close>

definition monthRange :: "string \<Rightarrow> string \<times> string" where
  "monthRange monthPrefix = (case parse_month monthPrefix of
       None \<Rightarrow> (monthPrefix, monthPrefix @ map char_of [239 :: nat, 191, 191])
     | Some t \<Rightarrow> (FmtTime t, FmtTime (AddDate t 0 1 0)))"

definition MonthlyStats :: "string \<Rightarrow> domain_stats list db" where
  "MonthlyStats monthPrefix = (case monthRange monthPrefix of (lo, hi) \<Rightarrow> DomainVolume lo hi)"

definition TopFailureReasons :: "string \<Rightarrow> int \<Rightarrow> (string \<times> nat) list db" where
  "TopFailureReasons monthPrefix limit = (case monthRange monthPrefix of (lo, hi) \<Rightarrow> FailureReasons lo hi limit)"

end
