(* ===== verification/Guarantee.thy ===== *)
theory Guarantee
  imports Domains ApiKeys Stats
begin

text \<open>
  The interface between the database and its clients. A guarantee is a reflexive, transitive
  relation between database states that does not look at the clock or at the outcomes of the
  statements to come; an operation that ends in \<open>R s t\<close> from every \<open>s\<close>, whether its
  statements succeed or fail, keeps the guarantee. The locales name the table updates behind
  the statements: \<open>ingress_guarantee\<close> those of the API, the admin pages and the notifier,
  \<open>delivery_guarantee\<close> those of the delivery worker. The clients' theories prove once, in
  these locales, that each of their handlers keeps any guarantee the updates keep; the
  theories \<open>StoreInvariant\<close> and \<open>StoreHistory\<close> interpret them.
\<close>

named_theorems keeps \<comment> \<open>operations that keep a guarantee\<close>

locale guarantee =
  fixes R :: "store \<Rightarrow> store \<Rightarrow> bool"
  assumes R_refl: "R s s"
    and R_trans: "R s t \<Longrightarrow> R t u \<Longrightarrow> R s u"
    and R_env: "env_step s t \<Longrightarrow> R s t"
begin

lemma keeps_stmt:
  assumes "\<And>s. R s (snd (f s))"
  shows "R s (snd (stmt f s))"
proof -
  obtain r t where rt: "stmt f s = (r, t)" by (cases "stmt f s")
  then show ?thesis
  proof (cases rule: stmt_cases)
    case (ok s')
    with assms[of s'] R_env[OF ok(1)] rt show ?thesis by (auto intro: R_trans)
  next
    case (failed msg)
    with R_env rt show ?thesis by simp
  qed
qed

lemma keeps_elapse [keeps]: "R s (elapse d s)"
  by (rule R_env, unfold env_step_def elapse_def, rule exI[of _ "db_script s"],
      rule exI[of _ "db_clock s + d"]) simp

lemma keeps_query [keeps]: "R s (snd (query f s))"
  unfolding query_def by (rule keeps_stmt) (simp add: R_refl)

lemma keeps_query_row [keeps]: "R s (snd (query_row f s))"
  unfolding query_row_def by (rule keeps_stmt) (simp add: R_refl)

lemma keeps_exec_upd: "(\<And>s. R s (f s)) \<Longrightarrow> R s (snd (exec_upd f s))"
  unfolding exec_upd_def by (rule keeps_stmt) simp

lemma keeps_null_row [keeps]:
  assumes "\<And>s. R s (snd (m s))"
  shows "R s (snd (null_row m s))"
proof (cases "m s")
  case (Pair r s')
  with assms[of s] show ?thesis by (cases r) (simp_all add: null_row_def)
qed

lemma keeps_bind [keeps]:
  assumes "\<And>s. R s (snd (m s))" "\<And>a s. R s (snd (k a s))"
  shows "R s (snd (db_bind m k s))"
proof (cases "m s")
  case (Pair r s')
  with assms(1)[of s] have "R s s'" by simp
  with Pair assms(2) show ?thesis by (cases r) (auto simp: db_bind_def intro: R_trans)
qed

lemma keeps_or_empty:
  assumes "\<And>s. R s (snd (m s))"
  shows "R s (snd (or_empty m s))"
  using assms[of s] by (auto simp: or_empty_def split: prod.split sum.split)

text \<open>A step that hands its database on to another.\<close>

lemma keeps_then: "R s (snd p) \<Longrightarrow> (\<And>a t. R t (snd (k a t))) \<Longrightarrow> R s (snd (case p of (a, t) \<Rightarrow> k a t))"
  by (cases p) (auto intro: R_trans)

text \<open>The reads of the store.\<close>

lemma keeps_reads [keeps]:
  "R s (snd (GetDomain i s))" "R s (snd (GetDomainByName n s))" "R s (snd (ListDomains s))"
  "R s (snd (GetAPIKeyByHash h s))" "R s (snd (ListAPIKeys s))"
  "R s (snd (GetEmail i s))" "R s (snd (FindByIdempotencyKey k i' s))" "R s (snd (ListEmails f s))"
  "R s (snd (ListAttempts i s))" "R s (snd (ListPendingFailures s))"
  "R s (snd (FailureRate i since s))" "R s (snd (DailyVolume lo hi s))"
  "R s (snd (SummaryStats lo hi s))" "R s (snd (DomainVolume lo hi s))"
  "R s (snd (FailureReasons lo hi n' s))" "R s (snd (MonthlyStats m s))"
  "R s (snd (TopFailureReasons m n' s))"
  unfolding GetDomain_def GetDomainByName_def ListDomains_def GetAPIKeyByHash_def ListAPIKeys_def
    GetEmail_def FindByIdempotencyKey_def ListEmails_def ListAttempts_def ListPendingFailures_def
    FailureRate_def DailyVolume_def SummaryStats_def DomainVolume_def FailureReasons_def
    MonthlyStats_def TopFailureReasons_def
  by (auto intro: keeps split: prod.split)

lemma keeps_GetState [keeps]: "R s (snd (GetState key s))"
proof (cases "query_row (\<lambda>s. map_of (t_state s) key) s")
  case (Pair r s')
  then show ?thesis
    using keeps_query_row[of s "\<lambda>s. map_of (t_state s) key"]
    by (cases r) (auto simp: GetState_def)
qed

end

locale ingress_guarantee = guarantee +
  assumes R_insert_domain: "R s (snd (insert_domain name sel pem now s))"
    and R_set_verification: "R s (set_verification i spf dkim dmarc now s)"
    and R_insert_key: "R s (snd (insert_key name i hash now s))"
    and R_revoke_key: "R s (revoke_key i s)"
    and R_touch_key: "R s (touch_key i now s)"
    and R_insert_email: "R s (snd (insert_email e s))"
    and R_cancel: "R s (s\<lparr>t_emails := update_where (\<lambda>r. er_id r = i \<and> er_status r = ''queued'')
           (\<lambda>r. r\<lparr>er_status := ''canceled''\<rparr>) (t_emails s)\<rparr>)"
    and R_requeue: "R s (s\<lparr>t_emails := update_where (\<lambda>r. er_id r = i \<and> requeueGuard r)
           (requeue_row now) (t_emails s)\<rparr>)"
    and R_readdress: "R s (s\<lparr>t_emails := update_where (\<lambda>r. er_id r = i \<and> requeueGuard r)
           (readdress_row to nm now) (t_emails s)\<rparr>)"
    and R_upsert_state: "R s (upsert_state key val s)"
    and R_clear_pending: "R s (clear_pending s)"
begin

lemma keeps_ingress [keeps]:
  "R s (snd (CreateDomain name sel pem s))"
  "R s (snd (SetDomainVerification i spf dkim dmarc now s))"
  "R s (snd (CreateAPIKey name i hash s))" "R s (snd (RevokeAPIKey i s))"
  "R s (snd (TouchAPIKey i now s))" "R s (snd (EnqueueEmail e s))"
  "R s (snd (CancelEmail i s))" "R s (snd (SetState key val s))"
  "R s (snd (ClearPendingFailures s))"
  unfolding CreateDomain_def SetDomainVerification_def CreateAPIKey_def RevokeAPIKey_def
    TouchAPIKey_def EnqueueEmail_def CancelEmail_def guarded_update_def SetState_def
    ClearPendingFailures_def Let_def
  by (rule keeps_bind keeps_stmt keeps_exec_upd R_insert_domain keeps_reads R_set_verification
      R_insert_key R_revoke_key R_touch_key R_insert_email R_upsert_state R_clear_pending
      | simp add: R_cancel)+

lemma keeps_RequeueEmail [keeps]: "R s (snd (RequeueEmail i to nm s))"
  unfolding RequeueEmail_def guarded_update_def Let_def
  by (simp add: keeps_stmt R_requeue R_readdress)

end

locale delivery_guarantee = guarantee +
  assumes R_requeue_stale: "R s (snd (requeue_stale cutoff s))"
    and R_claim_due: "R s (snd (claim_due limit now s))"
    and R_sent: "R s (update_email i (sent_row now) s)"
    and R_retry: "R s (update_email i (retry_row next msg) s)"
    and R_failed: "R s (update_email i (failed_row msg) s)"
    and R_insert_attempt: "R s (snd (insert_attempt i no code mx resp ms now s))"
begin

lemma keeps_delivery [keeps]:
  "R s (snd (RequeueStaleSending cutoff s))" "R s (snd (ClaimDue limit now s))"
  "R s (snd (MarkSent i now s))" "R s (snd (MarkRetry i next msg s))"
  "R s (snd (MarkFailed i msg s))" "R s (snd (RecordAttempt i no code mx resp ms s))"
  unfolding RequeueStaleSending_def ClaimDue_def MarkSent_def MarkRetry_def MarkFailed_def
    RecordAttempt_def
  by (rule keeps_stmt keeps_exec_upd R_requeue_stale R_claim_due R_sent R_retry R_failed
      R_insert_attempt)+

end

text \<open>The failure callback of the worker is the notifier's: it only adds to the waiting failures.\<close>

locale callback_guarantee = guarantee +
  assumes R_insert_pending: "R s (snd (insert_pending i now s))"
begin

lemma keeps_AddPendingFailure [keeps]: "R s (snd (AddPendingFailure i s))"
  unfolding AddPendingFailure_def by (rule keeps_stmt) (rule R_insert_pending)

end

locale store_guarantee = ingress_guarantee + delivery_guarantee + callback_guarantee

end
