(* ===== verification/StoreInvariant.thy ===== *)
theory StoreInvariant
  imports Guarantee
begin

text \<open>
  What every state of the database satisfies: the schema's keys, UNIQUE constraints and
  foreign keys, the five statuses, and non-negative attempt counts. The schema does not
  constrain \<open>status\<close>; that only these five occur is a property of the statements.
\<close>

definition statuses :: "string set" where
  "statuses = {''queued'', ''sending'', ''sent'', ''failed'', ''canceled''}"

text \<open>Row ids are positive and ascend in row-id order.\<close>

definition keys_ok :: "('r \<Rightarrow> int) \<Rightarrow> 'r list \<Rightarrow> bool" where
  "keys_ok k rs \<longleftrightarrow> sorted_wrt (<) (0 # map k rs)"

definition idem_unique :: "email_row list \<Rightarrow> bool" where
  "idem_unique rs \<longleftrightarrow> distinct (filter (\<lambda>x. x \<noteq> None) (map idem_entry rs))"

definition wf_domains :: "domain list \<Rightarrow> bool" where
  "wf_domains ds \<longleftrightarrow> keys_ok d_id ds \<and> distinct (map d_name ds)"

definition wf_keys :: "int set \<Rightarrow> api_key list \<Rightarrow> bool" where
  "wf_keys D ks \<longleftrightarrow> keys_ok k_id ks \<and> distinct (map k_hash ks) \<and> k_domain_id ` set ks \<subseteq> D"

definition email_row_ok :: "int set \<Rightarrow> int set \<Rightarrow> email_row \<Rightarrow> bool" where
  "email_row_ok D K r \<longleftrightarrow> er_domain_id r \<in> D \<and> set_option (er_api_key_id r) \<subseteq> K \<and>
     er_status r \<in> statuses \<and> 0 \<le> er_attempts r"

definition wf_emails :: "int set \<Rightarrow> int set \<Rightarrow> email_row list \<Rightarrow> bool" where
  "wf_emails D K rs \<longleftrightarrow> keys_ok er_id rs \<and> idem_unique rs \<and> (\<forall>r \<in> set rs. email_row_ok D K r)"

definition wf_attempts :: "int set \<Rightarrow> attempt list \<Rightarrow> bool" where
  "wf_attempts E as \<longleftrightarrow> keys_ok a_id as \<and> a_email_id ` set as \<subseteq> E"

definition wf_pending :: "int set \<Rightarrow> (int \<times> string) list \<Rightarrow> bool" where
  "wf_pending E ps \<longleftrightarrow> distinct (map fst ps) \<and> fst ` set ps \<subseteq> E"

definition wf_store :: "store \<Rightarrow> bool" where
  "wf_store s \<longleftrightarrow>
     wf_domains (t_domains s) \<and>
     wf_keys (d_id ` set (t_domains s)) (t_keys s) \<and>
     wf_emails (d_id ` set (t_domains s)) (k_id ` set (t_keys s)) (t_emails s) \<and>
     wf_attempts (er_id ` set (t_emails s)) (t_attempts s) \<and>
     distinct (map fst (t_state s)) \<and>
     wf_pending (er_id ` set (t_emails s)) (t_pending s)"

definition empty_store :: "time \<Rightarrow> store" where
  "empty_store t = \<lparr>t_domains = [], t_keys = [], t_emails = [], t_attempts = [], t_state = [],
     t_pending = [], db_script = [], db_clock = t\<rparr>"

lemmas wf_defs = wf_domains_def wf_keys_def wf_emails_def wf_attempts_def wf_pending_def

lemma wf_empty_store: "wf_store (empty_store t)"
  by (simp add: wf_store_def empty_store_def wf_defs keys_ok_def idem_unique_def)

section \<open>Keys and table updates\<close>

lemma keys_ok_append:
  "keys_ok k rs \<Longrightarrow> k r = next_rowid (map k rs) \<Longrightarrow> keys_ok k (rs @ [r])"
  by (auto simp: keys_ok_def sorted_wrt_append next_rowid_gt next_rowid_pos)

lemma keys_ok_update [row_simps]:
  "(\<And>r. k (f r) = k r) \<Longrightarrow> keys_ok k (update_where P f rs) = keys_ok k rs"
  by (simp add: keys_ok_def map_update_where)

lemma keys_ok_distinct: "keys_ok k rs \<Longrightarrow> distinct (map k rs)"
  by (simp add: keys_ok_def strict_sorted_iff)

lemma keys_ok_pos: "keys_ok k rs \<Longrightarrow> r \<in> set rs \<Longrightarrow> 0 < k r"
  by (simp add: keys_ok_def)

lemma image_update_where [row_simps]:
  assumes "\<And>r. k (f r) = k r"
  shows "k ` set (update_where P f rs) = k ` set rs"
  by (simp only: set_map[symmetric] map_update_where[of k f P rs, OF assms])

lemma idem_unique_update [row_simps]:
  assumes "\<And>r. er_idem (f r) = er_idem r" "\<And>r. er_api_key_id (f r) = er_api_key_id r"
  shows "idem_unique (update_where P f rs) = idem_unique rs"
proof -
  have "map idem_entry (update_where P f rs) = map idem_entry rs"
    by (rule map_update_where) (simp add: idem_entry_def assms split: option.split)
  then show ?thesis by (simp only: idem_unique_def)
qed

lemma idem_unique_append:
  "idem_unique rs \<Longrightarrow> idem_entry r = None \<or> idem_entry r \<notin> idem_entry ` set rs \<Longrightarrow>
   idem_unique (rs @ [r])"
  by (auto simp: idem_unique_def)

lemma email_row_ok_mono: "email_row_ok D K r \<Longrightarrow> D \<subseteq> D' \<Longrightarrow> K \<subseteq> K' \<Longrightarrow> email_row_ok D' K' r"
  by (auto simp: email_row_ok_def)

lemma wf_emails_mono: "wf_emails D K rs \<Longrightarrow> D \<subseteq> D' \<Longrightarrow> K \<subseteq> K' \<Longrightarrow> wf_emails D' K' rs"
  by (auto simp: wf_emails_def intro: email_row_ok_mono)

lemma wf_keys_mono: "wf_keys D ks \<Longrightarrow> D \<subseteq> D' \<Longrightarrow> wf_keys D' ks"
  by (auto simp: wf_keys_def)

lemma wf_attempts_mono: "wf_attempts E as \<Longrightarrow> E \<subseteq> E' \<Longrightarrow> wf_attempts E' as"
  by (auto simp: wf_attempts_def)

lemma wf_pending_mono: "wf_pending E ps \<Longrightarrow> E \<subseteq> E' \<Longrightarrow> wf_pending E' ps"
  by (auto simp: wf_pending_def)

lemmas wf_monos = wf_emails_mono wf_keys_mono wf_attempts_mono wf_pending_mono

lemma wf_ids_distinct:
  assumes "wf_store s"
  shows "distinct (map d_id (t_domains s))" "distinct (map k_id (t_keys s))"
    "distinct (map er_id (t_emails s))" "distinct (map a_id (t_attempts s))"
  using assms by (auto simp: wf_store_def wf_defs dest: keys_ok_distinct)

lemma wf_row_of:
  assumes "wf_store s"
  shows "row_of i s = Some r \<longleftrightarrow> r \<in> set (t_emails s) \<and> er_id r = i"
  unfolding row_of_def
  using find_Some_in[of "\<lambda>r. er_id r = i" "t_emails s" r]
    find_key[OF wf_ids_distinct(3)[OF assms], of r] by auto

text \<open>Updates of the emails table that leave keys and references alone.\<close>

definition keeps_row :: "(email_row \<Rightarrow> email_row) \<Rightarrow> bool" where
  "keeps_row f \<longleftrightarrow> (\<forall>r. er_id (f r) = er_id r \<and> er_domain_id (f r) = er_domain_id r \<and>
     er_api_key_id (f r) = er_api_key_id r \<and> er_idem (f r) = er_idem r \<and>
     (er_status r \<in> statuses \<longrightarrow> er_status (f r) \<in> statuses) \<and>
     (0 \<le> er_attempts r \<longrightarrow> 0 \<le> er_attempts (f r)))"

lemma keeps_row_code [simp]:
  "keeps_row (claim_row now)" "keeps_row (sent_row now)" "keeps_row (retry_row nxt msg)"
  "keeps_row (failed_row msg)" "keeps_row (requeue_row now)" "keeps_row (readdress_row to nm now)"
  "keeps_row (\<lambda>r. r\<lparr>er_status := ''queued''\<rparr>)" "keeps_row (\<lambda>r. r\<lparr>er_status := ''canceled''\<rparr>)"
  by (simp_all add: keeps_row_def claim_row_def sent_row_def retry_row_def failed_row_def
      requeue_row_def readdress_row_def statuses_def)

lemma wf_emails_update:
  assumes "wf_emails D K rs" and f: "keeps_row f"
  shows "wf_emails D K (update_where P f rs)"
proof -
  have "email_row_ok D K (f r)" if "email_row_ok D K r" for r
    using that f by (simp add: email_row_ok_def keeps_row_def)
  then show ?thesis
    using assms by (auto simp: wf_emails_def keeps_row_def row_simps set_update_where)
qed

lemma wf_store_update:
  assumes "wf_store s" and f: "keeps_row f"
  shows "wf_store (s\<lparr>t_emails := update_where P f (t_emails s)\<rparr>)"
proof -
  have "er_id ` set (update_where P f (t_emails s)) = er_id ` set (t_emails s)"
    using f by (intro image_update_where) (simp add: keeps_row_def)
  with assms show ?thesis by (simp add: wf_store_def wf_emails_update)
qed

section \<open>Every statement keeps it\<close>

definition R_wf :: "store \<Rightarrow> store \<Rightarrow> bool" where
  "R_wf s t \<longleftrightarrow> (wf_store s \<longrightarrow> wf_store t)"

lemma wf_env: "env_step s t \<Longrightarrow> wf_store t = wf_store s"
  by (simp add: wf_store_def)

lemma wf_insert_domain: "wf_store s \<Longrightarrow> wf_store (snd (insert_domain n sel pem now s))"
  by (auto simp: insert_domain_def Let_def wf_store_def wf_domains_def keys_ok_append
      elim!: wf_monos)

lemma wf_insert_key: "wf_store s \<Longrightarrow> wf_store (snd (insert_key n i h now s))"
  by (auto simp: insert_key_def Let_def wf_store_def wf_keys_def keys_ok_append elim!: wf_monos)

lemma new_row_sel [simp]:
  "er_id (new_row i e) = i" "er_domain_id (new_row i e) = e_domain_id e"
  "er_status (new_row i e) = ''queued''" "er_attempts (new_row i e) = 0"
  "er_api_key_id (new_row i e) = (if e_api_key_id e = 0 then None else Some (e_api_key_id e))"
  "er_idem (new_row i e) = (if e_idem e = [] then None else Some (e_idem e))"
  "er_next (new_row i e) = e_next e" "er_created (new_row i e) = e_created e"
  by (simp_all add: new_row_def)

lemma wf_insert_email:
  assumes wf: "wf_store s"
  shows "wf_store (snd (insert_email e s))"
proof -
  define r where "r = new_row (next_rowid (map er_id (t_emails s))) e"
  show ?thesis
  proof (cases "e_domain_id e \<notin> d_id ` set (t_domains s) \<or>
      (e_api_key_id e \<noteq> 0 \<and> e_api_key_id e \<notin> k_id ` set (t_keys s)) \<or>
      (idem_entry r \<noteq> None \<and> idem_entry r \<in> idem_entry ` set (t_emails s))")
    case True
    then have "snd (insert_email e s) = s" unfolding insert_email_def Let_def r_def by auto
    with wf show ?thesis by simp
  next
    case False
    then have res: "snd (insert_email e s) = s\<lparr>t_emails := t_emails s @ [r]\<rparr>"
      unfolding insert_email_def Let_def r_def by simp
    have "email_row_ok (d_id ` set (t_domains s)) (k_id ` set (t_keys s)) r"
      using False by (auto simp: email_row_ok_def r_def statuses_def)
    moreover have "keys_ok er_id (t_emails s @ [r])"
      using wf by (intro keys_ok_append) (simp_all add: wf_store_def wf_emails_def r_def)
    moreover have "idem_unique (t_emails s @ [r])"
      using wf False by (intro idem_unique_append) (auto simp: wf_store_def wf_emails_def)
    ultimately show ?thesis
      using wf by (auto simp: res wf_store_def wf_emails_def elim!: wf_attempts_mono wf_pending_mono)
  qed
qed

lemma wf_insert_attempt: "wf_store s \<Longrightarrow> wf_store (snd (insert_attempt i no c mx resp ms now s))"
  by (auto simp: insert_attempt_def wf_store_def wf_attempts_def keys_ok_append)

lemma wf_insert_pending: "wf_store s \<Longrightarrow> wf_store (snd (insert_pending i now s))"
  by (auto simp: insert_pending_def wf_store_def wf_pending_def)

lemma wf_others:
  assumes "wf_store s"
  shows "wf_store (set_verification i spf dkim dmarc now s)" "wf_store (revoke_key i s)"
    "wf_store (touch_key i now s)" "wf_store (upsert_state key val s)" "wf_store (clear_pending s)"
  using assms
  by (auto simp: wf_store_def wf_domains_def wf_keys_def wf_pending_def set_verification_def
      revoke_key_def touch_key_def upsert_state_def clear_pending_def row_simps)

interpretation wf: store_guarantee R_wf
proof (unfold_locales, goal_cases)
  case (3 s t)
  then show ?case by (simp add: R_wf_def wf_env)
qed (auto simp: R_wf_def wf_insert_domain wf_insert_key wf_insert_email wf_insert_attempt
    wf_insert_pending wf_others wf_store_update requeue_stale_def claim_due_def Let_def
    update_email_def)

end
