(* ===== verification/StoreHistory.thy ===== *)
theory StoreHistory
  imports StoreInvariant "HOL-Library.Sublist"
begin

text \<open>
  What no operation of the store ever does: delete an email, a domain, a key or an attempt,
  change what an email says, give a revoked key back, rewrite the attempt log; and what only
  the delivery worker may do: touch an email that is being sent or has been sent.
\<close>

section \<open>Append-only tables\<close>

text \<open>
  The part of a row that is fixed when it is written: everything but the recipient, which
  the operator may correct, and the columns of the delivery state.
\<close>

definition letter :: "email_row \<Rightarrow> email_row" where
  "letter r = r\<lparr>er_to := [], er_to_name := [], er_original_to := [], er_status := [],
     er_attempts := 0, er_next := [], er_error := [], er_sent := []\<rparr>"

definition key_identity :: "api_key \<Rightarrow> api_key" where
  "key_identity k = k\<lparr>k_revoked := False, k_last_used := []\<rparr>"

definition domain_identity :: "domain \<Rightarrow> domain" where
  "domain_identity d = d\<lparr>d_spf := False, d_dkim := False, d_dmarc := False, d_last_checked := []\<rparr>"

definition revoked_ids :: "store \<Rightarrow> int set" where
  "revoked_ids s = k_id ` {k \<in> set (t_keys s). k_revoked k}"

definition R_history :: "store \<Rightarrow> store \<Rightarrow> bool" where
  "R_history s t \<longleftrightarrow>
     prefix (map letter (t_emails s)) (map letter (t_emails t)) \<and>
     prefix (map key_identity (t_keys s)) (map key_identity (t_keys t)) \<and>
     prefix (map domain_identity (t_domains s)) (map domain_identity (t_domains t)) \<and>
     prefix (t_attempts s) (t_attempts t) \<and>
     revoked_ids s \<subseteq> revoked_ids t"

lemma history_emails_update:
  "(\<And>r. letter (f r) = letter r) \<Longrightarrow> R_history s (s\<lparr>t_emails := update_where P f (t_emails s)\<rparr>)"
  by (simp add: R_history_def map_update_where revoked_ids_def)

lemma letter_code [simp]:
  "letter (claim_row now r) = letter r" "letter (sent_row now r) = letter r"
  "letter (retry_row nxt msg r) = letter r" "letter (failed_row msg r) = letter r"
  "letter (requeue_row now r) = letter r" "letter (readdress_row to nm now r) = letter r"
  "letter (r\<lparr>er_status := st\<rparr>) = letter r"
  by (simp_all add: letter_def claim_row_def sent_row_def retry_row_def failed_row_def
      requeue_row_def readdress_row_def)

lemma revoked_update:
  assumes "\<And>k. k_id (f k) = k_id k" "\<And>k. k_revoked k \<Longrightarrow> k_revoked (f k)"
  shows "revoked_ids s \<subseteq> revoked_ids (s\<lparr>t_keys := update_where P f (t_keys s)\<rparr>)"
proof
  fix x assume "x \<in> revoked_ids s"
  then obtain k where k: "k \<in> set (t_keys s)" "k_revoked k" "x = k_id k"
    by (auto simp: revoked_ids_def)
  let ?k = "if P k then f k else k"
  have "?k \<in> set (update_where P f (t_keys s))" using k(1) by (simp add: update_where_def)
  moreover have "k_revoked ?k" "x = k_id ?k" using k assms by auto
  ultimately show "x \<in> revoked_ids (s\<lparr>t_keys := update_where P f (t_keys s)\<rparr>)"
    unfolding revoked_ids_def by (auto intro!: image_eqI[of x k_id ?k])
qed

lemma history_keys:
  "R_history s (revoke_key i s)" "R_history s (touch_key i now s)"
  using revoked_update[of "\<lambda>k. k\<lparr>k_revoked := True\<rparr>" s] revoked_update[of "\<lambda>k. k\<lparr>k_last_used := now\<rparr>" s]
  by (auto simp: R_history_def revoke_key_def touch_key_def map_update_where key_identity_def)

lemma history_inserts:
  "R_history s (snd (insert_domain n sel pem now s))" "R_history s (snd (insert_key n i h now s))"
  "R_history s (snd (insert_email e s))" "R_history s (snd (insert_attempt i no c mx resp ms now s))"
  "R_history s (snd (insert_pending i now s))"
  by (auto simp: R_history_def insert_domain_def insert_key_def insert_email_def
      insert_attempt_def insert_pending_def Let_def revoked_ids_def)

lemma history_others:
  "R_history s (set_verification i spf dkim dmarc now s)" "R_history s (upsert_state key val s)"
  "R_history s (clear_pending s)"
  by (auto simp: R_history_def set_verification_def upsert_state_def clear_pending_def
      map_update_where domain_identity_def revoked_ids_def)

interpretation history: store_guarantee R_history
proof (unfold_locales, goal_cases)
  case (2 s t u)
  then show ?case unfolding R_history_def by (meson prefix_order.order_trans subset_trans)
qed (auto simp: history_keys history_inserts history_others requeue_stale_def claim_due_def Let_def
    update_email_def intro: history_emails_update, simp_all add: R_history_def revoked_ids_def)

section \<open>The ingress never touches an email in flight or delivered\<close>

definition settled :: "email_row \<Rightarrow> bool" where
  "settled r \<longleftrightarrow> er_status r = ''sending'' \<or> er_status r = ''sent''"

definition R_settled :: "store \<Rightarrow> store \<Rightarrow> bool" where
  "R_settled s t \<longleftrightarrow> {r \<in> set (t_emails s). settled r} \<subseteq> set (t_emails t) \<and> t_attempts t = t_attempts s"

lemma settled_update:
  "(\<And>r. P r \<Longrightarrow> \<not> settled r) \<Longrightarrow> R_settled s (s\<lparr>t_emails := update_where P f (t_emails s)\<rparr>)"
  by (auto simp: R_settled_def set_update_where)

interpretation settled: ingress_guarantee R_settled
  by (unfold_locales;
      (rule settled_update; auto simp: settled_def requeueGuard_def)?;
      auto simp: R_settled_def insert_domain_def set_verification_def insert_key_def revoke_key_def
        touch_key_def insert_email_def upsert_state_def clear_pending_def Let_def)

interpretation settled: callback_guarantee R_settled
  by unfold_locales (simp add: R_settled_def insert_pending_def)

section \<open>Sequences of operations\<close>

datatype store_op =
    OpCreateDomain string string string
  | OpSetVerification int bool bool bool string
  | OpCreateKey string int string
  | OpRevokeKey int
  | OpTouchKey int string
  | OpEnqueue email
  | OpClaim int string
  | OpRequeueStale string
  | OpMarkSent int string
  | OpMarkRetry int string string
  | OpMarkFailed int string
  | OpCancel int
  | OpRequeue int string string
  | OpRecordAttempt int int int string string int
  | OpSetState string string
  | OpAddPending int
  | OpClearPending
  | OpElapse int

fun run_op :: "store_op \<Rightarrow> store \<Rightarrow> store" where
  "run_op (OpCreateDomain n sel pem) s = snd (CreateDomain n sel pem s)"
| "run_op (OpSetVerification i a b c tm) s = snd (SetDomainVerification i a b c tm s)"
| "run_op (OpCreateKey n i h) s = snd (CreateAPIKey n i h s)"
| "run_op (OpRevokeKey i) s = snd (RevokeAPIKey i s)"
| "run_op (OpTouchKey i tm) s = snd (TouchAPIKey i tm s)"
| "run_op (OpEnqueue e) s = snd (EnqueueEmail e s)"
| "run_op (OpClaim n now) s = snd (ClaimDue n now s)"
| "run_op (OpRequeueStale cutoff) s = snd (RequeueStaleSending cutoff s)"
| "run_op (OpMarkSent i tm) s = snd (MarkSent i tm s)"
| "run_op (OpMarkRetry i nxt msg) s = snd (MarkRetry i nxt msg s)"
| "run_op (OpMarkFailed i msg) s = snd (MarkFailed i msg s)"
| "run_op (OpCancel i) s = snd (CancelEmail i s)"
| "run_op (OpRequeue i to nm) s = snd (RequeueEmail i to nm s)"
| "run_op (OpRecordAttempt i no c mx resp ms) s = snd (RecordAttempt i no c mx resp ms s)"
| "run_op (OpSetState k v) s = snd (SetState k v s)"
| "run_op (OpAddPending i) s = snd (AddPendingFailure i s)"
| "run_op OpClearPending s = snd (ClearPendingFailures s)"
| "run_op (OpElapse d) s = elapse d s"

definition run_ops :: "store_op list \<Rightarrow> store \<Rightarrow> store" where
  "run_ops ops s = fold run_op ops s"

context store_guarantee
begin

lemma keeps_run_op: "R s (run_op op s)"
  by (cases op) (auto intro: keeps)

lemma keeps_run_ops: "R s (run_ops ops s)"
proof (induction ops arbitrary: s)
  case Nil
  then show ?case by (simp add: run_ops_def R_refl)
next
  case (Cons op ops)
  have "R (run_op op s) (run_ops ops (run_op op s))" by (rule Cons)
  then show ?case using keeps_run_op[of s op] by (auto simp: run_ops_def intro: R_trans)
qed

end

end
