(* ===== verification/Api.thy ===== *)
theory Api
  imports Message StoreHistory
begin

text \<open>
  \<^verbatim>\<open>internal/api/api.go\<close>: the HTTP API that accepts emails. A handler is a function from a
  request and the database to a response and the database. \<open>env n\<close> is what concurrent
  handlers and the worker do to the database between the n-th statement of the handler and
  the next one. JSON decoding under \<^verbatim>\<open>http.MaxBytesReader\<close> is the argument \<open>decode\<close>.
\<close>

section \<open>Requests and responses\<close>

datatype response_body =
    ErrorBody string
  | QueuedBody int string
  | EmailBody int string int string string string

record response =
  rs_code :: int
  rs_body :: response_body

definition writeJSON :: "int \<Rightarrow> response_body \<Rightarrow> response" where
  "writeJSON code v = \<lparr>rs_code = code, rs_body = v\<rparr>"

definition jsonError :: "int \<Rightarrow> string \<Rightarrow> response" where
  "jsonError code msg = writeJSON code (ErrorBody msg)"

text \<open>The headers of a request are a Go map: the list is in the order the map is ranged over.\<close>

record send_request =
  q_from :: string
  q_to :: string
  q_subject :: string
  q_html :: string
  q_text :: string
  q_reply_to :: string
  q_headers :: "(string \<times> string) list"

datatype decoded = TooLarge | BadJSON string | Decoded send_request

record http_request =
  h_authorization :: string
  h_idempotency_key :: string
  h_body :: string
  h_path_id :: string

type_synonym env = "nat \<Rightarrow> store \<Rightarrow> store"

definition maxRequestBodyBytes :: nat where
  "maxRequestBodyBytes = 10 * 2 ^ 20"

section \<open>Authentication\<close>

definition bearer_token :: "string \<Rightarrow> string" where
  "bearer_token authorization = TrimPrefix authorization ''Bearer ''"

definition auth :: "'a libs_scheme \<Rightarrow> env \<Rightarrow> http_request \<Rightarrow> store \<Rightarrow> (response + api_key) \<times> store" where
  "auth L env rq s =
     (let token = bearer_token (h_authorization rq)
      in if token = [] \<or> token = h_authorization rq then (Inl (jsonError 401 ''missing bearer token''), s)
         else case GetAPIKeyByHash (HashAPIKey L token) s of
                (Inr (Some k), s1) \<Rightarrow>
                   (let s2 = env 0 s1 in (Inr k, snd (TouchAPIKey (k_id k) (Now s2) s2)))
              | (_, s1) \<Rightarrow> (Inl (jsonError 401 ''invalid api key''), s1))"

section \<open>Validation of a send request\<close>

fun invalid_header :: "'a libs_scheme \<Rightarrow> (string \<times> string) list \<Rightarrow> err option" where
  "invalid_header L [] = None"
| "invalid_header L ((name, val) # hs) =
     (case ValidateHeader L name val of Some e \<Rightarrow> Some e | None \<Rightarrow> invalid_header L hs)"

text \<open>The checks before the database is read: a refusal, or the parsed sender and recipient.\<close>

definition validate_request ::
    "'a libs_scheme \<Rightarrow> send_request \<Rightarrow> response + (string \<times> string) \<times> (string \<times> string)" where
  "validate_request L q =
     (case lib_parse_address L (q_from q) of
        None \<Rightarrow> Inl (jsonError 422 ''invalid from address'')
      | Some frm \<Rightarrow>
     (case lib_parse_address L (q_to q) of
        None \<Rightarrow> Inl (jsonError 422 ''invalid to address'')
      | Some rcpt \<Rightarrow>
     if q_subject q = [] \<or> (q_html q = [] \<and> q_text q = [])
     then Inl (jsonError 422 ''subject and html or text are required'') else
     (case ValidateHeaderValue ''Subject'' (q_subject q) of
        Some e \<Rightarrow> Inl (jsonError 422 (''invalid subject: '' @ error_text e))
      | None \<Rightarrow>
     if q_reply_to q \<noteq> [] \<and> lib_parse_address L (q_reply_to q) = None
     then Inl (jsonError 422 ''invalid reply_to address'') else
     (case ValidateHeaderValue ''From'' (FormatAddress L (fst frm) (snd frm)) of
        Some e \<Rightarrow> Inl (jsonError 422 (''invalid from: '' @ error_text e))
      | None \<Rightarrow>
     (case ValidateHeaderValue ''To'' (FormatAddress L (fst rcpt) (snd rcpt)) of
        Some e \<Rightarrow> Inl (jsonError 422 (''invalid to: '' @ error_text e))
      | None \<Rightarrow>
     (case invalid_header L (q_headers q) of
        Some e \<Rightarrow> Inl (jsonError 422 (''invalid header: '' @ error_text e))
      | None \<Rightarrow> Inr (frm, rcpt)))))))"

section \<open>Enqueue or replay\<close>

text \<open>The result: id, status and whether it is a replay.\<close>

definition enqueueOrReplay :: "env \<Rightarrow> email \<Rightarrow> store \<Rightarrow> (err + int \<times> string \<times> bool) \<times> store" where
  "enqueueOrReplay env e s =
     (case EnqueueEmail e s of
        (Inr i, s1) \<Rightarrow> (Inr (i, ''queued'', False), s1)
      | (Inl er, s1) \<Rightarrow>
          if e_idem e \<noteq> [] then
            (case FindByIdempotencyKey (e_api_key_id e) (e_idem e) (env 4 s1) of
               (Inr (Some ex), s2) \<Rightarrow> (Inr (e_id ex, e_status ex, True), s2)
             | (_, s2) \<Rightarrow> (Inl er, s2))
          else (Inl er, s1))"

text \<open>The email a request asks for.\<close>

definition request_email ::
    "'a libs_scheme \<Rightarrow> int \<Rightarrow> int \<Rightarrow> string \<Rightarrow> (string \<times> string) \<Rightarrow> (string \<times> string) \<Rightarrow> send_request \<Rightarrow> email" where
  "request_email L key dmn idem frm rcpt q = \<lparr>e_id = 0, e_api_key_id = key, e_domain_id = dmn,
     e_from = snd frm, e_to = snd rcpt, e_from_name = fst frm, e_to_name = fst rcpt,
     e_original_to = [], e_reply_to = q_reply_to q, e_subject = q_subject q, e_html = q_html q,
     e_text = q_text q,
     e_headers = (if 0 < length (q_headers q) then lib_json_marshal L (q_headers q) else ''{}''),
     e_status = [], e_attempts = 0, e_next = [], e_error = [], e_idem = idem, e_system = False,
     e_created = [], e_sent = []\<rparr>"

section \<open>The handlers\<close>

text \<open>What \<^verbatim>\<open>postEmail\<close> does after the request has been validated, with key \<open>k\<close>.\<close>

definition post_validated ::
    "'a libs_scheme \<Rightarrow> env \<Rightarrow> http_request \<Rightarrow> api_key \<Rightarrow> send_request \<Rightarrow> (string \<times> string) \<Rightarrow> (string \<times> string) \<Rightarrow>
     store \<Rightarrow> response \<times> store" where
  "post_validated L env rq k q frm rcpt s =
     (case GetDomain (k_domain_id k) s of
        (Inl er, s1) \<Rightarrow> (jsonError 500 ''internal error'', s1)
      | (Inr d, s1) \<Rightarrow>
          if \<not> EqualFold L (after_at (snd frm)) (d_name d)
          then (jsonError 422 (''from address must be on domain '' @ d_name d), s1)
          else if \<not> Verified d
          then (jsonError 403 (''domain '' @ d_name d @
                 '' is not verified; complete DNS setup in the doevoe admin before sending''), s1)
          else
            (let idemKey = h_idempotency_key rq;
                 (found, s2) = (if idemKey \<noteq> [] then FindByIdempotencyKey (k_id k) idemKey (env 2 s1)
                                else (Inr None, s1))
             in case found of
                  Inr (Some ex) \<Rightarrow> (writeJSON 200 (QueuedBody (e_id ex) (e_status ex)), s2)
                | _ \<Rightarrow>
                    (case enqueueOrReplay env (request_email L (k_id k) (d_id d) idemKey frm rcpt q) (env 3 s2) of
                       (Inl er, s3) \<Rightarrow> (jsonError 500 ''enqueue failed'', s3)
                     | (Inr (i, status, replay), s3) \<Rightarrow>
                         (writeJSON (if replay then 200 else 202) (QueuedBody i status), s3))))"

definition postEmail ::
    "'a libs_scheme \<Rightarrow> (nat \<Rightarrow> string \<Rightarrow> decoded) \<Rightarrow> env \<Rightarrow> http_request \<Rightarrow> store \<Rightarrow> response \<times> store" where
  "postEmail L decode env rq s =
     (case auth L env rq s of
        (Inl resp, s1) \<Rightarrow> (resp, s1)
      | (Inr k, s1) \<Rightarrow>
          (case decode maxRequestBodyBytes (h_body rq) of
             TooLarge \<Rightarrow> (jsonError 413 ''request body too large'', s1)
           | BadJSON msg \<Rightarrow> (jsonError 400 (''invalid json: '' @ msg), s1)
           | Decoded q \<Rightarrow>
               (case validate_request L q of
                  Inl resp \<Rightarrow> (resp, s1)
                | Inr (frm, rcpt) \<Rightarrow> post_validated L env rq k q frm rcpt (env 1 s1))))"

definition getEmail :: "'a libs_scheme \<Rightarrow> env \<Rightarrow> http_request \<Rightarrow> store \<Rightarrow> response \<times> store" where
  "getEmail L env rq s =
     (case auth L env rq s of
        (Inl resp, s1) \<Rightarrow> (resp, s1)
      | (Inr k, s1) \<Rightarrow>
          (case ParseInt (h_path_id rq) of
             None \<Rightarrow> (jsonError 400 ''bad id'', s1)
           | Some i \<Rightarrow>
               (case GetEmail i (env 1 s1) of
                  (Inl er, s2) \<Rightarrow> (jsonError 404 ''not found'', s2)
                | (Inr e, s2) \<Rightarrow>
                    if e_domain_id e \<noteq> k_domain_id k then (jsonError 404 ''not found'', s2)
                    else (writeJSON 200 (EmailBody (e_id e) (e_status e) (e_attempts e) (e_error e)
                            (e_created e) (e_sent e)), s2))))"

section \<open>Every handler keeps what the store's operations keep\<close>

context ingress_guarantee
begin

lemma keeps_auth:
  assumes env: "\<And>n s. R s (env n s)"
  shows "R s (snd (auth L env rq s))"
proof (cases "GetAPIKeyByHash (HashAPIKey L (bearer_token (h_authorization rq))) s")
  case (Pair r s1)
  have 1: "R s s1"
    using keeps_reads(4)[of s "HashAPIKey L (bearer_token (h_authorization rq))"] Pair by simp
  have "R s (snd (TouchAPIKey i now (env 0 s1)))" for i now
    by (rule R_trans[OF R_trans[OF 1 env]]) (rule keeps)
  with 1 Pair show ?thesis
    by (auto simp: auth_def Let_def R_refl split: sum.split option.split)
qed

lemma keeps_enqueueOrReplay:
  assumes env: "\<And>n s. R s (env n s)"
  shows "R s (snd (enqueueOrReplay env e s))"
proof (cases "EnqueueEmail e s")
  case (Pair r s1)
  have 1: "R s s1" using keeps_ingress(6)[of s e] Pair by simp
  obtain f s2 where f: "FindByIdempotencyKey (e_api_key_id e) (e_idem e) (env 4 s1) = (f, s2)" by fastforce
  then have "R s s2"
    using R_trans[OF R_trans[OF 1 env]] keeps_reads(7)[of "env 4 s1" "e_api_key_id e" "e_idem e"] by simp
  with 1 Pair f show ?thesis
    by (auto simp: enqueueOrReplay_def split: sum.split option.split)
qed

lemma keeps_post_validated:
  assumes env: "\<And>n s. R s (env n s)"
  shows "R s (snd (post_validated L env rq k q frm rcpt s))"
proof -
  obtain r s1 where g: "GetDomain (k_domain_id k) s = (r, s1)" by fastforce
  have 1: "R s s1" using keeps_reads(1)[of s "k_domain_id k"] g by simp
  define fs where "fs = (if h_idempotency_key rq \<noteq> []
    then FindByIdempotencyKey (k_id k) (h_idempotency_key rq) (env 2 s1) else (Inr None, s1))"
  have 2: "R s (snd fs)"
    using R_trans[OF R_trans[OF 1 env] keeps_reads(7)] 1 by (simp add: fs_def)
  have 3: "R s (snd (enqueueOrReplay env e (env 3 (snd fs))))" for e
    by (rule R_trans[OF R_trans[OF 2 env]]) (rule keeps_enqueueOrReplay[OF env])
  show ?thesis
  proof (cases r)
    case (Inl er)
    with g 1 show ?thesis by (simp add: post_validated_def)
  next
    case (Inr d)
    obtain res s3 where e: "enqueueOrReplay env (request_email L (k_id k) (d_id d) (h_idempotency_key rq) frm rcpt q)
        (env 3 (snd fs)) = (res, s3)" by fastforce
    show ?thesis
      using 1 2 3[of "request_email L (k_id k) (d_id d) (h_idempotency_key rq) frm rcpt q"] e
      by (cases fs) (auto simp: post_validated_def g Inr Let_def fs_def[symmetric]
          split: sum.split option.split)
  qed
qed

lemma keeps_postEmail:
  assumes env: "\<And>n s. R s (env n s)"
  shows "R s (snd (postEmail L decode env rq s))"
proof (cases "auth L env rq s")
  case (Pair r s1)
  have 1: "R s s1" using keeps_auth[of env s L rq, OF env] Pair by simp
  have "R s (snd (post_validated L env rq k q frm rcpt (env 1 s1)))" for k q frm rcpt
    by (rule R_trans[OF R_trans[OF 1 env]]) (rule keeps_post_validated[OF env])
  with 1 Pair show ?thesis
    by (auto simp: postEmail_def split: sum.split decoded.split)
qed

lemma keeps_getEmail:
  assumes env: "\<And>n s. R s (env n s)"
  shows "R s (snd (getEmail L env rq s))"
proof (cases "auth L env rq s")
  case (Pair r s1)
  have 1: "R s s1" using keeps_auth[of env s L rq, OF env] Pair by simp
  have "R s (snd (GetEmail i (env 1 s1)))" for i
    by (rule R_trans[OF R_trans[OF 1 env]]) (rule keeps)
  then show ?thesis
    using 1 Pair by (auto simp: getEmail_def split: sum.split option.split prod.split) (metis snd_conv)+
qed

end

section \<open>Authentication and the tenant of a key\<close>

lemma GetAPIKeyByHash_Some:
  assumes "GetAPIKeyByHash h s = (Inr (Some k), t)"
  shows "env_step s t \<and> k \<in> set (t_keys s) \<and> k_hash k = h \<and> \<not> k_revoked k"
  using null_row_Some[OF assms[unfolded GetAPIKeyByHash_def]] by (auto dest: find_Some_in)

lemma GetDomain_Inr:
  assumes "GetDomain i s = (Inr d, t)"
  shows "env_step s t \<and> d \<in> set (t_domains s) \<and> d_id d = i"
  using query_row_Inr[OF assms[unfolded GetDomain_def]] by (auto dest: find_Some_in)

lemma GetEmail_Inr:
  assumes "GetEmail i s = (Inr e, t)"
  shows "env_step s t \<and> (\<exists>r \<in> set (t_emails s). er_id r = i \<and> e = scanEmail r)"
  using query_row_Inr[OF assms[unfolded GetEmail_def]] by (fastforce simp: row_of_def dest!: find_Some_in)

lemma FindByIdempotencyKey_Some:
  assumes "FindByIdempotencyKey k key s = (Inr (Some e), t)"
  shows "env_step s t \<and> (\<exists>r \<in> set (t_emails s). er_api_key_id r = Some k \<and> er_idem r = Some key \<and> e = scanEmail r)"
  using null_row_Some[OF assms[unfolded FindByIdempotencyKey_def]] by (fastforce dest!: find_Some_in)

text \<open>Authentication changes nothing but the key's time of last use.\<close>

definition touched :: "store \<Rightarrow> store \<Rightarrow> bool" where
  "touched s t \<longleftrightarrow> t_emails t = t_emails s \<and> t_domains t = t_domains s \<and> t_attempts t = t_attempts s \<and>
     k_id ` set (t_keys t) = k_id ` set (t_keys s)"

lemma touched_refl: "touched s s" and touched_env: "env_step s t \<Longrightarrow> touched s t"
  and touched_trans: "touched s t \<Longrightarrow> touched t u \<Longrightarrow> touched s u"
  by (simp_all add: touched_def)

lemma touched_TouchAPIKey: "touched s (snd (TouchAPIKey i now s))"
proof -
  obtain r t where st: "stmt (\<lambda>s. (Inr (), touch_key i now s)) s = (r, t)" by fastforce
  moreover have "touched s (touch_key i now s)" for s
    unfolding touched_def touch_key_def by (simp, rule image_update_where) simp
  ultimately have "touched s t"
    by (cases rule: stmt_cases) (auto intro: touched_trans[OF touched_env] touched_env)
  with st show ?thesis by (simp add: TouchAPIKey_def exec_upd_def)
qed

lemma auth_Inr:
  assumes "auth L (\<lambda>_. id) rq s = (Inr k, t)"
  shows "touched s t \<and> k \<in> set (t_keys s) \<and> \<not> k_revoked k \<and>
    k_hash k = HashAPIKey L (bearer_token (h_authorization rq)) \<and> bearer_token (h_authorization rq) \<noteq> []"
proof -
  obtain r s1 where g: "GetAPIKeyByHash (HashAPIKey L (bearer_token (h_authorization rq))) s = (r, s1)" by fastforce
  then have r: "r = Inr (Some k)" "t = snd (TouchAPIKey (k_id k) (Now s1) s1)"
      "bearer_token (h_authorization rq) \<noteq> []"
    using assms by (auto simp: auth_def Let_def split: if_splits sum.splits option.splits)
  with g GetAPIKeyByHash_Some[of _ s k s1] show ?thesis
    using touched_trans[OF touched_env[of s s1] touched_TouchAPIKey] by simp
qed

lemma auth_Inl:
  assumes "auth L (\<lambda>_. id) rq s = (Inl resp, t)"
  shows "touched s t \<and> rs_code resp = 401"
proof -
  obtain r s1 where g: "GetAPIKeyByHash (HashAPIKey L (bearer_token (h_authorization rq))) s = (r, s1)" by fastforce
  then have "touched s s1" using null_row_env touched_env unfolding GetAPIKeyByHash_def by blast
  with g assms show ?thesis
    by (auto simp: auth_def Let_def touched_refl jsonError_def writeJSON_def
        split: if_splits sum.splits option.splits)
qed

section \<open>What a request adds to the queue\<close>

lemma insert_email_cases:
  assumes "insert_email e s = (r, t)"
  shows "(\<exists>i. r = Inr i \<and> i = next_rowid (map er_id (t_emails s)) \<and>
        t = s\<lparr>t_emails := t_emails s @ [new_row i e]\<rparr>) \<or> (\<exists>msg. r = Inl (Constraint msg) \<and> t = s)"
  using assms by (auto simp: insert_email_def Let_def split: if_splits)

lemma EnqueueEmail_cases:
  assumes "EnqueueEmail e s = (r, t)"
  obtains (ok) i where "r = Inr i" "i = next_rowid (map er_id (t_emails s))"
      "t_emails t = t_emails s @ [new_row i (with_defaults (Now s) e)]" "t_domains t = t_domains s"
    | (failed) er where "r = Inl er" "env_step s t"
proof -
  have "stmt (insert_email (with_defaults (Now s) e)) s = (r, t)"
    using assms by (simp add: EnqueueEmail_def)
  then show thesis
  proof (cases rule: stmt_cases)
    case (ok s')
    then show thesis using insert_email_cases[OF ok(2)] that by fastforce
  qed (use that in simp)
qed

lemma with_defaults_sel [simp]:
  "e_domain_id (with_defaults n e) = e_domain_id e" "e_api_key_id (with_defaults n e) = e_api_key_id e"
  "e_from (with_defaults n e) = e_from e" "e_to (with_defaults n e) = e_to e"
  "e_idem (with_defaults n e) = e_idem e" "e_system (with_defaults n e) = e_system e"
  "e_subject (with_defaults n e) = e_subject e" "e_reply_to (with_defaults n e) = e_reply_to e"
  "e_from_name (with_defaults n e) = e_from_name e" "e_to_name (with_defaults n e) = e_to_name e"
  "e_text (with_defaults n e) = e_text e" "e_html (with_defaults n e) = e_html e"
  by (simp_all add: with_defaults_def)

text \<open>The row that a request of key \<open>k\<close> adds.\<close>

definition requested_row ::
    "'a libs_scheme \<Rightarrow> http_request \<Rightarrow> api_key \<Rightarrow> domain \<Rightarrow> (string \<times> string) \<Rightarrow> (string \<times> string) \<Rightarrow>
     send_request \<Rightarrow> int \<Rightarrow> string \<Rightarrow> email_row" where
  "requested_row L rq k d frm rcpt q i now = new_row i (with_defaults now
     (request_email L (k_id k) (d_id d) (h_idempotency_key rq) frm rcpt q))"

lemma enqueueOrReplay_id:
  assumes "enqueueOrReplay (\<lambda>_. id) e s = (r, t)"
  obtains (added) i now where "r = Inr (i, ''queued'', False)"
      "t_emails t = t_emails s @ [new_row i (with_defaults now e)]"
    | (replayed) i st where "r = Inr (i, st, True)" "t_emails t = t_emails s"
    | (failed) er where "r = Inl er" "t_emails t = t_emails s"
proof -
  obtain r1 s1 where q: "EnqueueEmail e s = (r1, s1)" by fastforce
  then show thesis
  proof (cases rule: EnqueueEmail_cases)
    case (ok i)
    with assms q that(1) show thesis by (auto simp: enqueueOrReplay_def)
  next
    case (failed er)
    obtain f s2 where f: "FindByIdempotencyKey (e_api_key_id e) (e_idem e) s1 = (f, s2)" by fastforce
    then have "env_step s1 s2" unfolding FindByIdempotencyKey_def by (rule null_row_env)
    then have "t_emails s2 = t_emails s" using failed(2) by simp
    then show thesis
      using assms q failed f that(2,3)
      by (cases f; cases "e_idem e = []")
        (auto simp: enqueueOrReplay_def split: option.splits)
  qed
qed

lemma post_validated_adds:
  assumes "post_validated L (\<lambda>_. id) rq k q frm rcpt s = (resp, t)"
  shows "t_emails t = t_emails s \<and> rs_code resp \<noteq> 202 \<or>
    (\<exists>d i now. d \<in> set (t_domains s) \<and> d_id d = k_domain_id k \<and> Verified d \<and>
      EqualFold L (after_at (snd frm)) (d_name d) \<and>
      t_emails t = t_emails s @ [requested_row L rq k d frm rcpt q i now] \<and>
      resp = writeJSON 202 (QueuedBody i ''queued''))"
proof -
  obtain r s1 where g: "GetDomain (k_domain_id k) s = (r, s1)" by fastforce
  then have s1: "env_step s s1" unfolding GetDomain_def by (rule query_row_env)
  show ?thesis
  proof (cases r)
    case (Inl er)
    with g s1 assms show ?thesis by (auto simp: post_validated_def jsonError_def writeJSON_def)
  next
    case (Inr d)
    note d = GetDomain_Inr[OF g[unfolded Inr]]
    define fs where "fs = (if h_idempotency_key rq \<noteq> []
      then FindByIdempotencyKey (k_id k) (h_idempotency_key rq) s1 else (Inr None, s1))"
    obtain found s2 where fs: "fs = (found, s2)" by fastforce
    have s2: "t_emails s2 = t_emails s"
      using fs s1 null_row_env[of _ s1] unfolding fs_def FindByIdempotencyKey_def
      by (fastforce split: if_splits)
    obtain res s3 where e: "enqueueOrReplay (\<lambda>_. id)
        (request_email L (k_id k) (d_id d) (h_idempotency_key rq) frm rcpt q) s2 = (res, s3)" by fastforce
    have post: "(resp, t) =
       (if \<not> EqualFold L (after_at (snd frm)) (d_name d)
          then (jsonError 422 (''from address must be on domain '' @ d_name d), s1)
        else if \<not> Verified d
          then (jsonError 403 (''domain '' @ d_name d @
                 '' is not verified; complete DNS setup in the doevoe admin before sending''), s1)
        else (case found of Inr (Some ex) \<Rightarrow> (writeJSON 200 (QueuedBody (e_id ex) (e_status ex)), s2)
           | _ \<Rightarrow> (case res of Inl er \<Rightarrow> (jsonError 500 ''enqueue failed'', s3)
             | Inr (i, status, replay) \<Rightarrow> (writeJSON (if replay then 200 else 202) (QueuedBody i status), s3))))"
      unfolding assms[symmetric]
      by (simp only: post_validated_def g Inr prod.case sum.case Let_def id_apply fs_def[symmetric] fs e)
    show ?thesis
      using e
    proof (cases rule: enqueueOrReplay_id)
      case (added i now)
      have "t_emails t = t_emails s \<and> rs_code resp \<noteq> 202 \<or> Verified d \<and>
          EqualFold L (after_at (snd frm)) (d_name d) \<and> resp = writeJSON 202 (QueuedBody i ''queued'') \<and> t = s3"
        using post s1 s2 added(1)
        by (auto simp: jsonError_def writeJSON_def split: if_splits sum.splits option.splits)
      moreover have "t_emails s3 = t_emails s @ [requested_row L rq k d frm rcpt q i now]"
        using added(2) s2 by (simp add: requested_row_def)
      ultimately show ?thesis using d by blast
    qed (use post d s1 s2 in \<open>auto simp: jsonError_def writeJSON_def split: if_splits sum.splits option.splits\<close>)
  qed
qed

lemma postEmail_adds:
  assumes "postEmail L decode (\<lambda>_. id) rq s = (resp, t)"
  shows "t_emails t = t_emails s \<and> rs_code resp \<noteq> 202 \<or>
    (\<exists>k q frm rcpt d i now. k \<in> set (t_keys s) \<and> \<not> k_revoked k \<and>
      k_hash k = HashAPIKey L (bearer_token (h_authorization rq)) \<and>
      decode maxRequestBodyBytes (h_body rq) = Decoded q \<and> validate_request L q = Inr (frm, rcpt) \<and>
      d \<in> set (t_domains s) \<and> d_id d = k_domain_id k \<and> Verified d \<and>
      EqualFold L (after_at (snd frm)) (d_name d) \<and>
      t_emails t = t_emails s @ [requested_row L rq k d frm rcpt q i now] \<and>
      resp = writeJSON 202 (QueuedBody i ''queued''))"
proof -
  obtain r s1 where a: "auth L (\<lambda>_. id) rq s = (r, s1)" by fastforce
  show ?thesis
  proof (cases r)
    case (Inl resp')
    with a assms auth_Inl[of L rq s resp' s1] show ?thesis by (auto simp: postEmail_def touched_def)
  next
    case (Inr k)
    note k = auth_Inr[OF a[unfolded Inr]]
    then have same: "t_emails s1 = t_emails s" "t_domains s1 = t_domains s" by (simp_all add: touched_def)
    show ?thesis
    proof (cases "decode maxRequestBodyBytes (h_body rq)")
      case (Decoded q)
      show ?thesis
      proof (cases "validate_request L q")
        case (Inl resp')
        have "\<not> rs_code resp' = 202"
          using Inl by (auto simp: validate_request_def jsonError_def writeJSON_def
              split: option.splits if_splits)
        with Inl a Inr Decoded assms same show ?thesis by (auto simp: postEmail_def)
      next
        case v: (Inr p)
        obtain frm rcpt where p: "p = (frm, rcpt)" by (cases p)
        have "post_validated L (\<lambda>_. id) rq k q frm rcpt s1 = (resp, t)"
          using assms a Inr Decoded v p by (simp add: postEmail_def)
        from post_validated_adds[OF this] show ?thesis
          using k v p Decoded unfolding same by blast
      qed
    qed (use a Inr assms same in \<open>auto simp: postEmail_def jsonError_def writeJSON_def\<close>)
  qed
qed

lemma validate_request_Inr:
  assumes "validate_request L q = Inr (frm, rcpt)"
  shows "lib_parse_address L (q_from q) = Some frm \<and> lib_parse_address L (q_to q) = Some rcpt \<and>
    q_subject q \<noteq> [] \<and> (q_html q \<noteq> [] \<or> q_text q \<noteq> []) \<and> clean (q_subject q) \<and>
    clean (FormatAddress L (fst frm) (snd frm)) \<and> clean (FormatAddress L (fst rcpt) (snd rcpt)) \<and>
    invalid_header L (q_headers q) = None"
  using assms
  by (auto simp: validate_request_def ValidateHeaderValue_def validateHeaderValue_None
      split: option.splits if_splits)

lemma invalid_header_None:
  "invalid_header L hs = None \<longleftrightarrow> (\<forall>(n, v) \<in> set hs. ValidateHeader L n v = None)"
  by (induction L hs rule: invalid_header.induct) (auto split: option.split)

lemma idem_entry_requested_row:
  "k_id k \<noteq> 0 \<Longrightarrow> h_idempotency_key rq \<noteq> [] \<Longrightarrow>
   idem_entry (requested_row L rq k d frm rcpt q i now) = Some (k_id k, h_idempotency_key rq)"
  by (simp add: requested_row_def idem_entry_def request_email_def)

lemma requested_row_sel [simp]:
  "er_from (requested_row L rq k d frm rcpt q i now) = snd frm"
  "er_to (requested_row L rq k d frm rcpt q i now) = snd rcpt"
  "er_from_name (requested_row L rq k d frm rcpt q i now) = fst frm"
  "er_to_name (requested_row L rq k d frm rcpt q i now) = fst rcpt"
  "er_reply_to (requested_row L rq k d frm rcpt q i now) = q_reply_to q"
  "er_subject (requested_row L rq k d frm rcpt q i now) = q_subject q"
  "er_domain_id (requested_row L rq k d frm rcpt q i now) = d_id d"
  "er_status (requested_row L rq k d frm rcpt q i now) = ''queued''"
  "er_id (requested_row L rq k d frm rcpt q i now) = i"
  "er_system (requested_row L rq k d frm rcpt q i now) = False"
  by (simp_all add: requested_row_def new_row_def with_defaults_def request_email_def)

end
