(* ===== verification/Backoff.thy ===== *)
theory Backoff
  imports GoTime
begin

text \<open>
  \<^verbatim>\<open>internal/delivery/backoff.go\<close> and \<^verbatim>\<open>internal/delivery/classify.go\<close>: when a failed
  delivery is tried again, and which failures are final.
\<close>

definition Schedule :: "duration list" where
  "Schedule = [minute, 5 * minute, 15 * minute, hour, 4 * hour, 12 * hour, 24 * hour]"

definition NextAttempt :: "int \<Rightarrow> time \<Rightarrow> time option" where
  "NextAttempt attempts now =
     (if attempts < 1 \<or> int (length Schedule) < attempts then None
      else Some (now + Schedule ! nat (attempts - 1)))"

datatype Class = ClassTemp | ClassPerm

definition Classify :: "err \<Rightarrow> Class" where
  "Classify e = (case as_SMTPError e of
       Some (code, msg) \<Rightarrow> if 500 \<le> code then ClassPerm else ClassTemp
     | None \<Rightarrow> (case as_DNSError e of
         Some isNotFound \<Rightarrow> if isNotFound then ClassPerm else ClassTemp
       | None \<Rightarrow> ClassTemp))"

lemma NextAttempt_iff: "NextAttempt n now \<noteq> None \<longleftrightarrow> 1 \<le> n \<and> n \<le> 7"
  by (auto simp: NextAttempt_def Schedule_def)

lemma Schedule_pos: "d \<in> set Schedule \<Longrightarrow> 0 < d"
  by (auto simp: Schedule_def)

lemma NextAttempt_future: "NextAttempt n now = Some t \<Longrightarrow> now + minute \<le> t \<and> t \<le> now + 24 * hour"
proof -
  assume a: "NextAttempt n now = Some t"
  then have n: "nat (n - 1) < length Schedule" and t: "t = now + Schedule ! nat (n - 1)"
    by (auto simp: NextAttempt_def split: if_splits)
  have "Schedule ! nat (n - 1) \<in> set Schedule" using n by (rule nth_mem)
  moreover have "\<forall>d \<in> set Schedule. minute \<le> d \<and> d \<le> 24 * hour" by (simp add: Schedule_def)
  ultimately show ?thesis using t by auto
qed

lemma Classify_wrapped [simp]: "Classify (Wrapped p e) = Classify e"
  by (simp add: Classify_def split: option.split)

end
