(* ===== verification/DkimKeys.thy ===== *)
theory DkimKeys
  imports Prelude
begin

text \<open>
  \<^verbatim>\<open>internal/dkimkeys/dkimkeys.go\<close>: the DKIM key of a domain and the DNS records to publish
  for it. RSA, PEM and X.509 are the library's; a private key is a name for it, as a text.
\<close>

section \<open>Keys\<close>

text \<open>
  \<open>rsa_pem_encode\<close> writes a block of a type, \<open>rsa_pem_decode\<close> finds the first block of a text,
  \<open>rsa_marshal\<close> and \<open>rsa_parse\<close> are PKCS1, \<open>rsa_public\<close> the base64 of the PKIX public key.
\<close>

record rsa =
  rsa_pem_encode :: "string \<Rightarrow> string \<Rightarrow> string"
  rsa_pem_decode :: "string \<Rightarrow> string option"
  rsa_marshal :: "string \<Rightarrow> string"
  rsa_parse :: "string \<Rightarrow> err + string"
  rsa_public :: "string \<Rightarrow> err + string"

text \<open>\<open>generated\<close> is what \<^verbatim>\<open>rsa.GenerateKey\<close> returns.\<close>

definition Generate :: "rsa \<Rightarrow> err + string \<Rightarrow> err + string \<times> string" where
  "Generate R generated = (case generated of Inl er \<Rightarrow> Inl er
     | Inr key \<Rightarrow> (let privPEM = rsa_pem_encode R ''RSA PRIVATE KEY'' (rsa_marshal R key)
         in case rsa_public R key of Inl er \<Rightarrow> Inl er | Inr b64 \<Rightarrow> Inr (privPEM, b64)))"

definition ParsePrivateKey :: "rsa \<Rightarrow> string \<Rightarrow> err + string" where
  "ParsePrivateKey R pemStr = (case rsa_pem_decode R pemStr of
       None \<Rightarrow> Inl (Plain ''invalid PEM'')
     | Some block \<Rightarrow> rsa_parse R block)"

definition PublicKeyTXT :: "rsa \<Rightarrow> string \<Rightarrow> err + string" where
  "PublicKeyTXT R key = (case rsa_public R key of Inl er \<Rightarrow> Inl er
     | Inr b64 \<Rightarrow> Inr (''v=DKIM1; k=rsa; p='' @ b64))"

definition PublicB64FromPrivatePEM :: "rsa \<Rightarrow> string \<Rightarrow> err + string" where
  "PublicB64FromPrivatePEM R pemStr = (case ParsePrivateKey R pemStr of Inl er \<Rightarrow> Inl er
     | Inr key \<Rightarrow> (case PublicKeyTXT R key of Inl er \<Rightarrow> Inl er
         | Inr txt \<Rightarrow> Inr (TrimPrefix txt ''v=DKIM1; k=rsa; p='')))"

section \<open>The records to publish\<close>

record dns_record =
  rec_type :: string
  rec_host :: string
  rec_value :: string
  rec_note :: string

definition Records :: "string \<Rightarrow> string \<Rightarrow> string \<Rightarrow> string \<Rightarrow> string \<Rightarrow> dns_record list" where
  "Records dmn selector pubBase64 egressIP adminEmail =
     [\<lparr>rec_type = ''TXT (SPF)'', rec_host = ''@'', rec_value = ''v=spf1 ip4:'' @ egressIP @ '' -all'',
       rec_note = []\<rparr>,
      \<lparr>rec_type = ''TXT (DKIM)'', rec_host = selector @ ''._domainkey'',
       rec_value = ''v=DKIM1; k=rsa; p='' @ pubBase64, rec_note = []\<rparr>,
      \<lparr>rec_type = ''TXT (DMARC)'', rec_host = ''_dmarc'',
       rec_value = ''v=DMARC1; p=quarantine; rua=mailto:'' @ adminEmail, rec_note = []\<rparr>,
      \<lparr>rec_type = ''PTR (rDNS)'', rec_host = egressIP, rec_value = [],
       rec_note = ''Set at your hosting provider, not in this domain's DNS: reverse DNS for '' @ egressIP @
         '' must resolve to the server hostname. Doevoe cannot verify this record; Gmail/Outlook will junk mail without it.''\<rparr>]"

section \<open>The interface of the key library\<close>

text \<open>What the program relies on: encoding and marshalling can be read back.\<close>

definition reads_back :: "rsa \<Rightarrow> bool" where
  "reads_back R \<longleftrightarrow> (\<forall>ty b. rsa_pem_decode R (rsa_pem_encode R ty b) = Some b) \<and>
     (\<forall>key. rsa_parse R (rsa_marshal R key) = Inr key)"

lemma Generate_reads_back:
  assumes "reads_back R" "Generate R generated = Inr (priv, pub)"
  shows "\<exists>key. generated = Inr key \<and> rsa_public R key = Inr pub \<and> ParsePrivateKey R priv = Inr key \<and>
    PublicB64FromPrivatePEM R priv = Inr pub"
proof -
  obtain key where key: "generated = Inr key" "rsa_public R key = Inr pub"
      "priv = rsa_pem_encode R ''RSA PRIVATE KEY'' (rsa_marshal R key)"
    using assms(2) by (auto simp: Generate_def Let_def split: sum.splits)
  then have parse: "ParsePrivateKey R priv = Inr key"
    using assms(1) by (simp add: ParsePrivateKey_def reads_back_def)
  have "PublicB64FromPrivatePEM R priv = Inr (TrimPrefix (''v=DKIM1; k=rsa; p='' @ pub) ''v=DKIM1; k=rsa; p='')"
    by (simp only: PublicB64FromPrivatePEM_def parse PublicKeyTXT_def key(2) sum.case)
  also have "\<dots> = Inr pub" by (simp only: TrimPrefix_append)
  finally show ?thesis using key parse by blast
qed

text \<open>A library that meets it: a key is its own encoding.\<close>

definition sample_rsa :: rsa where
  "sample_rsa = \<lparr>rsa_pem_encode = (\<lambda>ty b. b), rsa_pem_decode = Some, rsa_marshal = (\<lambda>k. k),
     rsa_parse = Inr, rsa_public = Inr\<rparr>"

lemma sample_rsa_parse [simp]: "ParsePrivateKey sample_rsa pem = Inr pem"
  by (simp add: ParsePrivateKey_def sample_rsa_def)

lemma sample_reads_back: "reads_back sample_rsa"
  by (simp add: reads_back_def sample_rsa_def)

end
