(* ===== verification/Sender.thy ===== *)
theory Sender
  imports Message Backoff DkimKeys "HOL-Library.Word"
begin

text \<open>
  \<^verbatim>\<open>internal/delivery/sender.go\<close>: one delivery of one email: build and sign the message, look
  up the recipient's mail exchangers, and walk at most three of them.
\<close>

section \<open>Signing\<close>

text \<open>
  The key library and the DKIM library are arguments: \<open>sg_sign\<close> gets the domain, the selector, the key, the names of the header fields to sign
  and the message.
\<close>

record signing =
  sg_rsa :: rsa
  sg_sign :: "string \<Rightarrow> string \<Rightarrow> string \<Rightarrow> string list \<Rightarrow> string \<Rightarrow> err + string"

definition signed_headers :: "string list" where
  "signed_headers = [''From'', ''To'', ''Subject'', ''Date'', ''Message-ID'', ''MIME-Version'', ''Content-Type'']"

definition SignMessage :: "signing \<Rightarrow> string \<Rightarrow> domain \<Rightarrow> err + string" where
  "SignMessage sg msg d = (case ParsePrivateKey (sg_rsa sg) (d_private_key d) of
       Inl er \<Rightarrow> Inl er
     | Inr key \<Rightarrow> sg_sign sg (d_name d) (d_selector d) key signed_headers msg)"

section \<open>One SMTP session\<close>

text \<open>
  What the network and the remote server answer to one visit of a mail exchanger: the
  outcome of each call \<^verbatim>\<open>connect\<close> and \<^verbatim>\<open>deliverTo\<close> make on the dialer and the SMTP client, in
  their order. \<open>x_dial\<close>, \<open>x_starttls\<close>, \<open>x_hello_tls\<close> belong to the first connection,
  \<open>x_redial\<close>, \<open>x_hello\<close> to the plaintext one. The deadline of the context shows as an error.
\<close>

record session =
  x_dial :: "err option"
  x_starttls :: "err option"
  x_hello_tls :: "err option"
  x_redial :: "err option"
  x_hello :: "err option"
  x_mail :: "err option"
  x_rcpt :: "err option"
  x_data :: "err option"
  x_write :: "err option"
  x_close :: "err option"
  x_quit :: "err option"

text \<open>The closure \<^verbatim>\<open>plaintext\<close> of \<^verbatim>\<open>connect\<close>.\<close>

definition plaintext :: "err option \<Rightarrow> err option \<Rightarrow> err option" where
  "plaintext dialed hello = (case dialed of Some er \<Rightarrow> Some er | None \<Rightarrow> hello)"

text \<open>\<open>tls\<close>: whether the sender has a \<^verbatim>\<open>TLSConfig\<close>. The result says if the connection is encrypted.\<close>

definition connect :: "bool \<Rightarrow> session \<Rightarrow> bool \<times> err option" where
  "connect tls x =
     (if tls then
        (case x_dial x of Some er \<Rightarrow> (False, Some er)
         | None \<Rightarrow> (case x_starttls x of
             Some er \<Rightarrow> if as_SMTPError er \<noteq> None then (False, Some er)
                        else (False, plaintext (x_redial x) (x_hello x))
           | None \<Rightarrow> (case x_hello_tls x of
               Some er \<Rightarrow> if as_SMTPError er \<noteq> None then (False, Some er)
                          else (False, plaintext (x_redial x) (x_hello x))
             | None \<Rightarrow> (True, None))))
      else (False, plaintext (x_dial x) (x_hello x)))"

definition deliverTo :: "bool \<Rightarrow> session \<Rightarrow> bool \<times> err option" where
  "deliverTo tls x =
     (case connect tls x of
        (usedTLS, Some er) \<Rightarrow> (False, Some er)
      | (usedTLS, None) \<Rightarrow>
          (case x_mail x of Some er \<Rightarrow> (usedTLS, Some er)
           | None \<Rightarrow> (case x_rcpt x of Some er \<Rightarrow> (usedTLS, Some er)
           | None \<Rightarrow> (case x_data x of Some er \<Rightarrow> (usedTLS, Some er)
           | None \<Rightarrow> (case x_write x of Some er \<Rightarrow> (usedTLS, Some er)
           | None \<Rightarrow> (case x_close x of Some er \<Rightarrow> (usedTLS, Some er)
           | None \<Rightarrow> (usedTLS, x_quit x)))))))"

text \<open>
  The server has taken the message over when the final dot is answered with success: from
  then on it will deliver it, whatever happens to the rest of the session.
\<close>

definition took_over :: "bool \<Rightarrow> session \<Rightarrow> bool" where
  "took_over tls x \<longleftrightarrow> snd (connect tls x) = None \<and> x_mail x = None \<and> x_rcpt x = None \<and>
     x_data x = None \<and> x_write x = None \<and> x_close x = None"

lemma deliverTo_None: "snd (deliverTo tls x) = None \<longleftrightarrow> took_over tls x \<and> x_quit x = None"
  by (cases "connect tls x") (auto simp: deliverTo_def took_over_def split: option.split)

lemma deliverTo_tls: "deliverTo tls x = (True, None) \<Longrightarrow> tls \<and> x_starttls x = None \<and> x_hello_tls x = None"
  by (auto simp: deliverTo_def connect_def split: option.splits if_splits prod.splits)

section \<open>Send\<close>

definition maxMXAttempts :: nat where "maxMXAttempts = 3"
definition commandTimeout :: duration where "commandTimeout = 2 * minute"
definition submissionTimeout :: duration where "submissionTimeout = 5 * minute"
definition defaultOverallTimeout :: duration where "defaultOverallTimeout = 30 * minute"

record result =
  r_mx_host :: string
  r_code :: int
  r_response :: string
  r_duration :: duration
  r_err :: "err option"
  r_tls :: bool

record mx =
  mx_host :: string
  mx_pref :: "16 word"

text \<open>
  The sender: host name, port, whether it has a \<^verbatim>\<open>TLSConfig\<close> and its timeout; and the world it
  acts in: \<^verbatim>\<open>LookupMX\<close>, \<^verbatim>\<open>sort.Slice\<close> by preference (not a stable sort, so only known up to
  the order of equal preferences), and the session that visiting a host for the n-th time with
  a sender, a recipient and a message leads to.
\<close>

record sender =
  sd_hostname :: string
  sd_port :: int
  sd_tls :: bool
  sd_overall_timeout :: duration
  sd_lookup_mx :: "string \<Rightarrow> err + mx list"
  sd_sort_mx :: "mx list \<Rightarrow> mx list"
  sd_session :: "nat \<Rightarrow> string \<Rightarrow> string \<Rightarrow> string \<Rightarrow> string \<Rightarrow> session"

definition NewSender ::
    "string \<Rightarrow> int \<Rightarrow> (string \<Rightarrow> err + mx list) \<Rightarrow> (mx list \<Rightarrow> mx list) \<Rightarrow>
     (nat \<Rightarrow> string \<Rightarrow> string \<Rightarrow> string \<Rightarrow> string \<Rightarrow> session) \<Rightarrow> sender" where
  "NewSender hostname port resolver srt net = \<lparr>sd_hostname = hostname, sd_port = port, sd_tls = True,
     sd_overall_timeout = defaultOverallTimeout, sd_lookup_mx = resolver, sd_sort_mx = srt,
     sd_session = net\<rparr>"

text \<open>The deadline of the whole \<^verbatim>\<open>Send\<close>: zero means the default.\<close>

definition overall_timeout :: "sender \<Rightarrow> duration" where
  "overall_timeout sd = (if sd_overall_timeout sd = 0 then defaultOverallTimeout else sd_overall_timeout sd)"

text \<open>The closure \<^verbatim>\<open>fail\<close>.\<close>

definition fail_result :: "duration \<Rightarrow> string \<Rightarrow> err option \<Rightarrow> result" where
  "fail_result dur host er =
     (let (code, resp) = (case er of None \<Rightarrow> (0, [])
        | Some e \<Rightarrow> (case as_SMTPError e of Some (c, m) \<Rightarrow> (c, m) | None \<Rightarrow> (0, error_text e)))
      in \<lparr>r_mx_host = host, r_code = code, r_response = resp, r_duration = dur, r_err = er, r_tls = False\<rparr>)"

text \<open>
  The loop over the exchangers, with its variables \<open>lastHost\<close> and \<open>lastErr\<close>. Besides the
  result it returns its visits, each with the host, the envelope, the message and whether the
  host took it over: the program does not keep them but its correctness is about them.
\<close>

record visit =
  v_host :: string
  v_from :: string
  v_to :: string
  v_msg :: string
  v_taken :: bool

fun walk ::
    "sender \<Rightarrow> duration \<Rightarrow> string \<Rightarrow> string \<Rightarrow> string \<Rightarrow> nat \<Rightarrow> mx list \<Rightarrow> string \<Rightarrow> err option \<Rightarrow>
     result \<times> visit list" where
  "walk sd dur frm rcp msg n [] lastHost lastErr = (fail_result dur lastHost lastErr, [])"
| "walk sd dur frm rcp msg n (m # ms) lastHost lastErr =
     (let host = TrimSuffix (mx_host m) ''.'';
          x = sd_session sd n host frm rcp msg;
          visit = \<lparr>v_host = host, v_from = frm, v_to = rcp, v_msg = msg, v_taken = took_over (sd_tls sd) x\<rparr>
      in case deliverTo (sd_tls sd) x of
           (usedTLS, None) \<Rightarrow> (\<lparr>r_mx_host = host, r_code = 250, r_response = ''accepted'',
              r_duration = dur, r_err = None, r_tls = usedTLS\<rparr>, [visit])
         | (usedTLS, Some er) \<Rightarrow>
             (if Classify er = ClassPerm then (fail_result dur host (Some er), [visit])
              else case walk sd dur frm rcp msg (n + 1) ms host (Some er) of (res, log) \<Rightarrow> (res, visit # log)))"

definition rcpt_domain :: "email \<Rightarrow> string" where
  "rcpt_domain e = after_at (e_to e)"

text \<open>
  \<open>now\<close> is the time, \<open>dur\<close> what \<^verbatim>\<open>time.Since(start)\<close> returns, \<open>mid\<close> and \<open>bnd\<close> the random bytes.
\<close>

definition Send ::
    "'a libs_scheme \<Rightarrow> signing \<Rightarrow> sender \<Rightarrow> time \<Rightarrow> duration \<Rightarrow> string \<Rightarrow> string \<Rightarrow> email \<Rightarrow> domain \<Rightarrow>
     result \<times> visit list" where
  "Send L sg sd now dur mid bnd e d =
     (case BuildMessage L e (sd_hostname sd) now mid bnd of
        Inl er \<Rightarrow> (fail_result dur [] (Some er), [])
      | Inr msg \<Rightarrow>
         (case SignMessage sg msg d of
            Inl er \<Rightarrow> (fail_result dur [] (Some er), [])
          | Inr wire \<Rightarrow>
             (case sd_lookup_mx sd (rcpt_domain e) of
                Inl er \<Rightarrow> (fail_result dur [] (Some er), [])
              | Inr mxs0 \<Rightarrow>
                 (let mxs1 = (if mxs0 = [] then [\<lparr>mx_host = rcpt_domain e, mx_pref = 0\<rparr>] else mxs0);
                      mxs2 = sd_sort_mx sd mxs1;
                      mxs = (if maxMXAttempts < length mxs2 then take maxMXAttempts mxs2 else mxs2)
                  in walk sd dur (e_from e) (e_to e) wire 0 mxs [] None))))"

section \<open>What the walk guarantees\<close>

lemma fail_result_sel [simp]:
  "r_err (fail_result dur h er) = er" "r_mx_host (fail_result dur h er) = h"
  "r_duration (fail_result dur h er) = dur" "\<not> r_tls (fail_result dur h er)"
  by (simp_all add: fail_result_def Let_def split: prod.split)

text \<open>Every visit but the last failed for now, and the last decides.\<close>

lemma walk_bound: "length (snd (walk sd dur frm rcp msg n ms h er)) \<le> length ms"
  by (induction sd dur frm rcp msg n ms h er rule: walk.induct)
     (auto simp: Let_def split: prod.split option.split)

lemma walk_visits:
  "v \<in> set (snd (walk sd dur frm rcp msg n ms h er)) \<Longrightarrow>
   v_from v = frm \<and> v_to v = rcp \<and> v_msg v = msg \<and> v_host v \<in> (\<lambda>m. TrimSuffix (mx_host m) ''.'') ` set ms"
  by (induction sd dur frm rcp msg n ms h er rule: walk.induct)
     (fastforce simp: Let_def split: prod.splits option.splits if_splits)+

lemma walk_hosts:
  "map v_host (snd (walk sd dur frm rcp msg n ms h er)) =
   take (length (snd (walk sd dur frm rcp msg n ms h er))) (map (\<lambda>m. TrimSuffix (mx_host m) ''.'') ms)"
  by (induction sd dur frm rcp msg n ms h er rule: walk.induct)
     (auto simp: Let_def split: prod.split option.split)

lemma walk_success:
  "r_err (fst (walk sd dur frm rcp msg n ms h er)) = None \<Longrightarrow> er \<noteq> None \<or> ms \<noteq> [] \<Longrightarrow>
   \<exists>vs v. snd (walk sd dur frm rcp msg n ms h er) = vs @ [v] \<and> v_taken v \<and>
     v_host v = r_mx_host (fst (walk sd dur frm rcp msg n ms h er))"
proof (induction sd dur frm rcp msg n ms h er rule: walk.induct)
  case (2 sd dur frm rcp msg n m ms lastHost lastErr)
  let ?host = "TrimSuffix (mx_host m) ''.''"
  let ?x = "sd_session sd n ?host frm rcp msg"
  obtain used out where d: "deliverTo (sd_tls sd) ?x = (used, out)" by fastforce
  show ?case
  proof (cases out)
    case None
    with d deliverTo_None[of "sd_tls sd" ?x] show ?thesis by (simp add: Let_def)
  next
    case (Some e)
    show ?thesis
    proof (cases "Classify e = ClassPerm")
      case True
      with d Some 2(2) show ?thesis by (simp add: Let_def)
    next
      case False
      obtain res log where w: "walk sd dur frm rcp msg (n + 1) ms ?host (Some e) = (res, log)" by fastforce
      have "r_err res = None" using 2(2) d Some False w by (simp add: Let_def)
      then have "\<exists>vs v. log = vs @ [v] \<and> v_taken v \<and> v_host v = r_mx_host res"
        using 2(1)[OF refl refl refl d[symmetric] Some False] w by simp
      then obtain vs v where "log = vs @ [v]" "v_taken v" "v_host v = r_mx_host res" by blast
      then show ?thesis using d Some False w by (auto simp: Let_def intro!: exI[of _ "_ # vs"])
    qed
  qed
qed simp

text \<open>If no server that took the message over then fails the QUIT, at most one took it over.\<close>

definition quits_cleanly :: "sender \<Rightarrow> bool" where
  "quits_cleanly sd \<longleftrightarrow> (\<forall>n h frm rcp msg. let x = sd_session sd n h frm rcp msg in
     took_over (sd_tls sd) x \<longrightarrow> x_quit x = None)"

lemma walk_taken:
  "quits_cleanly sd \<Longrightarrow> er \<noteq> None \<or> ms \<noteq> [] \<Longrightarrow>
   length (filter v_taken (snd (walk sd dur frm rcp msg n ms h er))) =
     (if r_err (fst (walk sd dur frm rcp msg n ms h er)) = None then 1 else 0)"
proof (induction sd dur frm rcp msg n ms h er rule: walk.induct)
  case (2 sd dur frm rcp msg n m ms lastHost lastErr)
  let ?host = "TrimSuffix (mx_host m) ''.''"
  let ?x = "sd_session sd n ?host frm rcp msg"
  obtain used out where d: "deliverTo (sd_tls sd) ?x = (used, out)" by fastforce
  have taken: "took_over (sd_tls sd) ?x \<longleftrightarrow> out = None"
    using deliverTo_None[of "sd_tls sd" ?x] d 2(2) by (auto simp: quits_cleanly_def Let_def)
  show ?case
  proof (cases out)
    case None
    with d taken show ?thesis by (simp add: Let_def)
  next
    case (Some e)
    obtain res log where w: "walk sd dur frm rcp msg (n + 1) ms ?host (Some e) = (res, log)" by fastforce
    show ?thesis
      using 2(1)[OF refl refl refl d[symmetric] Some] 2(2) w d Some taken
      by (cases "Classify e = ClassPerm") (simp_all add: Let_def)
  qed
qed auto

section \<open>Send as a whole\<close>

text \<open>What \<^verbatim>\<open>sort.Slice\<close> with \<^verbatim>\<open>mxs[i].Pref < mxs[j].Pref\<close> promises.\<close>

definition sorts_by_pref :: "(mx list \<Rightarrow> mx list) \<Rightarrow> bool" where
  "sorts_by_pref srt \<longleftrightarrow> (\<forall>ms. mset (srt ms) = mset ms \<and> sorted (map mx_pref (srt ms)))"

lemma sorts_by_pref_sort_key: "sorts_by_pref (sort_key mx_pref)"
  by (simp add: sorts_by_pref_def)

text \<open>The exchangers a \<^verbatim>\<open>Send\<close> may visit, in their order.\<close>

definition candidates :: "sender \<Rightarrow> email \<Rightarrow> mx list \<Rightarrow> mx list" where
  "candidates sd e mxs0 = take maxMXAttempts (sd_sort_mx sd
     (if mxs0 = [] then [\<lparr>mx_host = rcpt_domain e, mx_pref = 0\<rparr>] else mxs0))"

lemma Send_cases:
  assumes "Send L sg sd now dur mid bnd e d = (res, log)"
  obtains (unsent) er where "res = fail_result dur [] (Some er)" "log = []"
  | (walked) msg wire mxs0 where "BuildMessage L e (sd_hostname sd) now mid bnd = Inr msg"
      "SignMessage sg msg d = Inr wire" "sd_lookup_mx sd (rcpt_domain e) = Inr mxs0"
      "walk sd dur (e_from e) (e_to e) wire 0 (candidates sd e mxs0) [] None = (res, log)"
proof (cases "BuildMessage L e (sd_hostname sd) now mid bnd")
  case (Inl er)
  with assms show thesis by (intro unsent[of er]) (auto simp: Send_def)
next
  case (Inr msg)
  note b = this
  show thesis
  proof (cases "SignMessage sg msg d")
    case (Inl er)
    with assms b show thesis by (intro unsent[of er]) (auto simp: Send_def)
  next
    case (Inr wire)
    show thesis
    proof (cases "sd_lookup_mx sd (rcpt_domain e)")
      case (Inl er)
      with assms b Inr show thesis by (intro unsent[of er]) (auto simp: Send_def)
    next
      case (Inr mxs0)
      note l = this
      have cap: "(if maxMXAttempts < length ms then take maxMXAttempts ms else ms) = take maxMXAttempts ms"
        for ms :: "mx list" by simp
      have "Send L sg sd now dur mid bnd e d =
          walk sd dur (e_from e) (e_to e) wire 0 (candidates sd e mxs0) [] None"
        by (simp only: Send_def b \<open>SignMessage sg msg d = Inr wire\<close> l sum.case Let_def cap candidates_def)
      with assms b \<open>SignMessage sg msg d = Inr wire\<close> l show thesis
        by (intro walked[of msg wire mxs0]) simp_all
    qed
  qed
qed

lemma candidates_nonempty: "sorts_by_pref (sd_sort_mx sd) \<Longrightarrow> candidates sd e mxs0 \<noteq> []"
proof -
  assume "sorts_by_pref (sd_sort_mx sd)"
  then have "mset (sd_sort_mx sd ms) = mset ms" for ms by (simp add: sorts_by_pref_def)
  then have "sd_sort_mx sd ms = [] \<longleftrightarrow> ms = []" for ms by (metis mset_zero_iff)
  then show ?thesis by (simp add: candidates_def maxMXAttempts_def)
qed

lemma Send_bound: "length (snd (Send L sg sd now dur mid bnd e d)) \<le> maxMXAttempts"
proof -
  obtain res log where s: "Send L sg sd now dur mid bnd e d = (res, log)" by fastforce
  then show ?thesis
  proof (cases rule: Send_cases)
    case (walked msg wire mxs0)
    have "length log \<le> length (candidates sd e mxs0)"
      using walk_bound[of sd dur "e_from e" "e_to e" wire 0 "candidates sd e mxs0" "[]" None] walked(4) by simp
    also have "\<dots> \<le> maxMXAttempts" by (simp add: candidates_def)
    finally show ?thesis using s by simp
  qed (use s in simp)
qed

lemma Send_taken:
  assumes "quits_cleanly sd" "sorts_by_pref (sd_sort_mx sd)"
  shows "length (filter v_taken (snd (Send L sg sd now dur mid bnd e d))) =
    (if r_err (fst (Send L sg sd now dur mid bnd e d)) = None then 1 else 0)"
proof -
  obtain res log where s: "Send L sg sd now dur mid bnd e d = (res, log)" by fastforce
  then show ?thesis
  proof (cases rule: Send_cases)
    case (walked msg wire mxs0)
    show ?thesis
      using walk_taken[OF assms(1), of None "candidates sd e mxs0" dur "e_from e" "e_to e" wire 0 "[]"]
        walked(4) s candidates_nonempty[OF assms(2)] by simp
  qed (use s in simp)
qed

end
