(* ===== verification/Worker.thy ===== *)
theory Worker
  imports Sender StoreHistory
begin

text \<open>
  \<^verbatim>\<open>internal/delivery/worker.go\<close>: the worker that claims due emails, has them sent and records
  the outcome. A send is an argument of the model: \<open>Sender.Send\<close> is one. The goroutines of a
  tick run one at a time here, in any order (the \<open>order\<close> of \<open>Tick\<close>); they work on different
  emails, and a statement is atomic.
\<close>

section \<open>The handler of one email\<close>

text \<open>
  \<open>w_on_failure\<close> is \<^verbatim>\<open>OnPermanentFailure\<close> with its effect on the database, \<open>None\<close> for nil.
\<close>

record worker =
  w_batch_size :: int
  w_per_domain_limit :: int
  w_on_failure :: "(int \<Rightarrow> store \<Rightarrow> store) option"

text \<open>How a call of \<^verbatim>\<open>Send\<close> ends: with a panic (its value and how long it took) or a result.\<close>

datatype send_outcome = SendPanic string duration | SendDone result

text \<open>\<^verbatim>\<open>time.Duration.Milliseconds()\<close> of a duration that is not negative.\<close>

definition Milliseconds :: "duration \<Rightarrow> int" where
  "Milliseconds d = d div 1000000"

definition recordAttempt :: "email \<Rightarrow> int \<Rightarrow> string \<Rightarrow> string \<Rightarrow> int \<Rightarrow> store \<Rightarrow> store" where
  "recordAttempt e code mxHost response ms s =
     snd (RecordAttempt (e_id e) (e_attempts e + 1) code mxHost response ms s)"

definition markFailed :: "worker \<Rightarrow> email \<Rightarrow> string \<Rightarrow> store \<Rightarrow> store" where
  "markFailed w e errMsg s =
     (let s1 = snd (MarkFailed (e_id e) errMsg s)
      in case w_on_failure w of None \<Rightarrow> s1 | Some f \<Rightarrow> f (e_id e) s1)"

definition retryOrFail :: "worker \<Rightarrow> email \<Rightarrow> time \<Rightarrow> string \<Rightarrow> store \<Rightarrow> store" where
  "retryOrFail w e now errMsg s =
     (case NextAttempt (e_attempts e + 1) now of
        None \<Rightarrow> markFailed w e (''retries exhausted: '' @ errMsg) s
      | Some nxt \<Rightarrow> snd (MarkRetry (e_id e) (FmtTime nxt) errMsg s))"

text \<open>An attempt that got no answer from a server: the domain did not load, or \<^verbatim>\<open>Send\<close> panicked.\<close>

definition abandon :: "worker \<Rightarrow> email \<Rightarrow> time \<Rightarrow> string \<Rightarrow> store \<Rightarrow> store" where
  "abandon w e now errMsg s = retryOrFail w e now errMsg (recordAttempt e 0 [] errMsg 0 s)"

text \<open>What follows the call of \<^verbatim>\<open>Send\<close>.\<close>

definition settle :: "worker \<Rightarrow> email \<Rightarrow> time \<Rightarrow> send_outcome \<Rightarrow> store \<Rightarrow> store" where
  "settle w e now outcome s =
     (case outcome of
        SendPanic msg dur \<Rightarrow> abandon w e now (''panic: '' @ msg) s
      | SendDone res \<Rightarrow>
          (let s1 = recordAttempt e (r_code res) (r_mx_host res) (r_response res)
                 (Milliseconds (r_duration res)) s
           in case r_err res of
                None \<Rightarrow> snd (MarkSent (e_id e) (Now s1) s1)
              | Some er \<Rightarrow>
                  if Classify er = ClassPerm then markFailed w e (error_text er) s1
                  else retryOrFail w e now (error_text er) s1))"

definition send_time :: "send_outcome \<Rightarrow> duration" where
  "send_time outcome = (case outcome of SendPanic msg dur \<Rightarrow> dur | SendDone res \<Rightarrow> r_duration res)"

definition process :: "worker \<Rightarrow> (email \<Rightarrow> domain \<Rightarrow> send_outcome) \<Rightarrow> email \<Rightarrow> time \<Rightarrow> store \<Rightarrow> store" where
  "process w send e now s =
     (case GetDomain (e_domain_id e) s of
        (Inl er, s1) \<Rightarrow> abandon w e now (error_text er) s1
      | (Inr d, s1) \<Rightarrow> settle w e now (send e d) (elapse (send_time (send e d)) s1))"

section \<open>One tick\<close>

definition staleSendingWindow :: duration where
  "staleSendingWindow = 45 * minute"

text \<open>
  The result is \<^verbatim>\<open>Tick\<close>'s error. An error of \<^verbatim>\<open>RequeueStaleSending\<close> is only logged.
\<close>

definition Tick ::
    "worker \<Rightarrow> (email \<Rightarrow> domain \<Rightarrow> send_outcome) \<Rightarrow> (email list \<Rightarrow> email list) \<Rightarrow> time \<Rightarrow> store \<Rightarrow>
     err option \<times> store" where
  "Tick w send order now s =
     (let s1 = snd (RequeueStaleSending (FmtTime (now + (- staleSendingWindow))) s);
          batch = (if w_batch_size w = 0 then 10 else w_batch_size w)
      in case ClaimDue batch (FmtTime now) s1 of
           (Inl er, s2) \<Rightarrow> (Some er, s2)
         | (Inr emails, s2) \<Rightarrow> (None, fold (\<lambda>e. process w send e now) (order emails) s2))"

text \<open>
  The semaphores of a tick: emails for the same (lower-cased) recipient domain share one with
  \<open>PerDomainLimit\<close> slots. \<open>sem_starts\<close> gives the time at which each of the sends waiting for
  one semaphore starts, from the times its slots are free and how long the sends take: a
  waiting goroutine gets the slot that is freed first, in the order of arrival.
\<close>

definition sem_key :: "'a libs_scheme \<Rightarrow> email \<Rightarrow> string" where
  "sem_key L e = ToLower L (rcpt_domain e)"

definition sem_limit :: "worker \<Rightarrow> int" where
  "sem_limit w = (if w_per_domain_limit w = 0 then 2 else w_per_domain_limit w)"

fun sem_starts :: "int list \<Rightarrow> int list \<Rightarrow> int list" where
  "sem_starts free [] = []"
| "sem_starts free (d # ds) =
     (case insort (hd (sort free) + d) (tl (sort free)) of free' \<Rightarrow> hd (sort free) # sem_starts free' ds)"

section \<open>The attempt it logs keeps what the store's delivery operations keep\<close>

context delivery_guarantee
begin

lemma keeps_recordAttempt [keeps]: "R s (recordAttempt e code mx resp ms s)"
  unfolding recordAttempt_def by (rule keeps)

end

end
