(* ===== verification/QueueLemmas.thy ===== *)
theory QueueLemmas
  imports StoreHistory
begin

text \<open>
  The queue's operations: which emails a claim takes, that it takes none twice, and what
  cancelling and requeueing do to a row.
\<close>

section \<open>The claim\<close>

lemma due_ids_rows:
  assumes "i \<in> set (due_ids limit now rs)"
  obtains r where "r \<in> set rs" "er_id r = i" "due now r"
proof -
  obtain r where "r \<in> set (sql_limit limit (sort_key er_next (filter (due now) rs)))" "er_id r = i"
    using assms by (auto simp: due_ids_def)
  then show thesis using that set_sql_limit[of limit "sort_key er_next (filter (due now) rs)"] by auto
qed

lemma length_due_ids:
  "0 \<le> limit \<Longrightarrow> length (due_ids limit now rs) = min (nat limit) (length (filter (due now) rs))"
  by (simp add: due_ids_def sql_limit_def min.commute)

lemma distinct_due_ids:
  assumes "distinct (map er_id rs)"
  shows "distinct (due_ids limit now rs)"
proof -
  have "distinct (map er_id (filter (due now) rs))"
    using assms by (simp add: distinct_map_filter)
  moreover have "mset (map er_id (sort_key er_next (filter (due now) rs))) = mset (map er_id (filter (due now) rs))"
    by (simp add: mset_map)
  ultimately have "distinct (map er_id (sort_key er_next (filter (due now) rs)))"
    by (metis mset_eq_imp_distinct_iff)
  then show ?thesis by (simp add: due_ids_def sql_limit_def take_map[symmetric])
qed

text \<open>A due email that is not taken is not due earlier than one that is.\<close>

lemma due_ids_earliest:
  assumes "distinct (map er_id rs)" "r \<in> set rs" "er_id r \<in> set (due_ids limit now rs)"
    and q: "q \<in> set rs" "due now q" "er_id q \<notin> set (due_ids limit now rs)"
  shows "er_next r \<le> er_next q"
proof (cases "limit < 0")
  case True
  with q show ?thesis by (auto simp: due_ids_def sql_limit_def)
next
  case False
  let ?xs = "sort_key er_next (filter (due now) rs)"
  let ?n = "nat limit"
  have ids: "due_ids limit now rs = map er_id (take ?n ?xs)"
    using False by (simp add: due_ids_def sql_limit_def)
  have "er_id r \<in> er_id ` set (take ?n ?xs)" using assms(3) ids by simp
  then obtain r' where r': "r' \<in> set (take ?n ?xs)" "er_id r' = er_id r" by force
  moreover have "r' \<in> set rs" using in_set_takeD[OF r'(1)] by simp
  ultimately have "r' = r" using assms(1,2) distinct_key_eq by metis
  with r' have r: "r \<in> set (take ?n ?xs)" by simp
  have "q \<in> set ?xs" using q by simp
  moreover have "q \<notin> set (take ?n ?xs)" using q(3) ids by auto
  ultimately have "q \<in> set (drop ?n ?xs)" by (metis Un_iff append_take_drop_id set_append)
  moreover have "sorted_wrt (\<lambda>x y. er_next x \<le> er_next y) (take ?n ?xs @ drop ?n ?xs)"
    using sorted_sort_key[of er_next "filter (due now) rs"] by (simp add: sorted_map)
  ultimately show ?thesis using r by (simp only: sorted_wrt_append)
qed

definition claimed_rows :: "int \<Rightarrow> string \<Rightarrow> email_row list \<Rightarrow> email_row list" where
  "claimed_rows limit now rs = update_where (\<lambda>r. er_id r \<in> set (due_ids limit now rs)) (claim_row now) rs"

definition claimed :: "int \<Rightarrow> string \<Rightarrow> email_row list \<Rightarrow> email list" where
  "claimed limit now rs =
     map scanEmail (filter (\<lambda>r. er_id r \<in> set (due_ids limit now rs)) (claimed_rows limit now rs))"

lemma claim_due_eq:
  "claim_due limit now s = (Inr (claimed limit now (t_emails s)),
     s\<lparr>t_emails := claimed_rows limit now (t_emails s)\<rparr>)"
  by (simp add: claim_due_def claimed_def claimed_rows_def Let_def)

lemma claim_row_sel [simp]:
  "er_id (claim_row now r) = er_id r" "er_domain_id (claim_row now r) = er_domain_id r"
  "er_status (claim_row now r) = ''sending''" "er_next (claim_row now r) = now"
  "er_attempts (claim_row now r) = er_attempts r"
  by (simp_all add: claim_row_def)

lemma ids_claimed_rows [simp]: "map er_id (claimed_rows limit now rs) = map er_id rs"
  unfolding claimed_rows_def by (rule map_update_where) simp

lemma ids_claimed:
  "map e_id (claimed limit now rs) = filter (\<lambda>i. i \<in> set (due_ids limit now rs)) (map er_id rs)"
proof -
  have "map e_id (claimed limit now rs) =
      filter (\<lambda>i. i \<in> set (due_ids limit now rs)) (map er_id (claimed_rows limit now rs))"
    by (simp add: claimed_def filter_map comp_def del: ids_claimed_rows)
  then show ?thesis by (simp only: ids_claimed_rows)
qed

lemma set_ids_claimed: "e_id ` set (claimed limit now rs) = set (due_ids limit now rs)"
proof -
  have "e_id ` set (claimed limit now rs) = set (map e_id (claimed limit now rs))" by simp
  also have "\<dots> = set (due_ids limit now rs)"
    unfolding ids_claimed by (auto elim: due_ids_rows)
  finally show ?thesis .
qed

lemma length_claimed:
  assumes "distinct (map er_id rs)"
  shows "length (claimed limit now rs) = length (due_ids limit now rs)"
proof -
  have "distinct (map e_id (claimed limit now rs))" unfolding ids_claimed using assms by simp
  then have "card (e_id ` set (claimed limit now rs)) = length (map e_id (claimed limit now rs))"
    by (metis distinct_card set_map)
  then show ?thesis
    unfolding set_ids_claimed using distinct_due_ids[OF assms] by (simp add: distinct_card)
qed

lemma claimed_sending:
  "e \<in> set (claimed limit now rs) \<Longrightarrow> e_status e = ''sending'' \<and> e_next e = now"
  by (auto simp: claimed_def claimed_rows_def update_where_def)

lemma claimed_in_rows:
  assumes "distinct (map er_id rs)" "e \<in> set (claimed limit now rs)"
  obtains r where "r \<in> set rs" "due now r" "claim_row now r \<in> set (claimed_rows limit now rs)"
    "e = scanEmail (claim_row now r)"
proof -
  obtain q where q: "q \<in> set rs" "er_id q \<in> set (due_ids limit now rs)" "e = scanEmail (claim_row now q)"
    using assms(2) by (auto simp: claimed_def claimed_rows_def update_where_def)
  obtain r where r: "r \<in> set rs" "er_id r = er_id q" "due now r" using due_ids_rows[OF q(2)] .
  have "r = q" using distinct_key_eq[OF assms(1) r(1) q(1)] r(2) by simp
  moreover have "claim_row now q \<in> set (claimed_rows limit now rs)"
    using q(1,2) by (auto simp: claimed_rows_def update_where_def)
  ultimately show thesis using that[of q] q r by simp
qed

section \<open>A claimed email is not claimed again\<close>

text \<open>
  The operations that leave emails in 'sending' as they are: all but the requeue of stale
  emails, the worker's three ways to finish, and (for the log) the recording of an attempt.
\<close>

definition R_sending :: "store \<Rightarrow> store \<Rightarrow> bool" where
  "R_sending s t \<longleftrightarrow> {r \<in> set (t_emails s). er_status r = ''sending''} \<subseteq> set (t_emails t)"

fun leaves_claims :: "store_op \<Rightarrow> bool" where
  "leaves_claims (OpRequeueStale cutoff) = False"
| "leaves_claims (OpMarkSent i tm) = False"
| "leaves_claims (OpMarkRetry i nxt msg) = False"
| "leaves_claims (OpMarkFailed i msg) = False"
| "leaves_claims op = True"

lemma R_sending_update:
  "(\<And>r. P r \<Longrightarrow> er_status r \<noteq> ''sending'') \<Longrightarrow> R_sending s (s\<lparr>t_emails := update_where P f (t_emails s)\<rparr>)"
  by (auto simp: R_sending_def set_update_where)

interpretation sending: ingress_guarantee R_sending
  by (unfold_locales;
      (rule R_sending_update; auto simp: requeueGuard_def)?;
      auto simp: R_sending_def insert_domain_def set_verification_def insert_key_def revoke_key_def
        touch_key_def insert_email_def upsert_state_def clear_pending_def Let_def)

interpretation sending: callback_guarantee R_sending
  by unfold_locales (simp add: R_sending_def insert_pending_def)

lemma R_sending_claim:
  assumes "distinct (map er_id (t_emails s))"
  shows "R_sending s (snd (ClaimDue limit now s))"
proof -
  have upd: "R_sending s' (snd (claim_due limit now s'))" if "t_emails s' = t_emails s" for s'
  proof -
    have "er_status r \<noteq> ''sending''" if r: "r \<in> set (t_emails s)" "er_id r \<in> set (due_ids limit now (t_emails s))" for r
    proof -
      obtain q where "q \<in> set (t_emails s)" "er_id q = er_id r" "due now q" using due_ids_rows[OF r(2)] .
      then have "q = r" using distinct_key_eq[OF assms _ r(1)] by simp
      with \<open>due now q\<close> show ?thesis by (simp add: due_def)
    qed
    with that show ?thesis
      by (auto simp: R_sending_def claim_due_eq claimed_rows_def set_update_where)
  qed
  obtain r t where st: "stmt (claim_due limit now) s = (r, t)" by fastforce
  then have "R_sending s t"
  proof (cases rule: stmt_cases)
    case (ok s')
    then show ?thesis using upd[of s'] by (simp add: R_sending_def)
  qed (simp add: R_sending_def)
  with st show ?thesis by (simp add: ClaimDue_def)
qed

lemma R_sending_attempt: "R_sending s (snd (RecordAttempt i no c mx resp ms s))"
proof -
  obtain r t where st: "stmt (insert_attempt i no c mx resp ms (Now s)) s = (r, t)" by fastforce
  then have "t_emails t = t_emails s"
    by (cases rule: stmt_cases) (auto simp: insert_attempt_def split: if_splits)
  with st show ?thesis by (simp add: RecordAttempt_def R_sending_def)
qed

lemma R_sending_run_op:
  assumes "leaves_claims op" "distinct (map er_id (t_emails s))"
  shows "R_sending s (run_op op s)"
  using assms(1) R_sending_claim[OF assms(2)] R_sending_attempt[of s]
  by (cases op) (auto intro: keeps sending.keeps_ingress sending.keeps_RequeueEmail
      sending.keeps_AddPendingFailure sending.keeps_elapse)

lemma R_sending_run_ops:
  "list_all leaves_claims ops \<Longrightarrow> wf_store s \<Longrightarrow> R_sending s (run_ops ops s)"
proof (induction ops arbitrary: s)
  case (Cons op ops)
  have "wf_store (run_op op s)" using wf.keeps_run_op[of s op] Cons.prems(2) by (simp add: R_wf_def)
  then have "R_sending (run_op op s) (run_ops ops (run_op op s))" using Cons by simp
  moreover have "R_sending s (run_op op s)"
    using Cons.prems wf_ids_distinct(3) by (intro R_sending_run_op) simp_all
  ultimately show ?case
    unfolding run_ops_def by (simp add: run_ops_def) (rule sending.R_trans)
qed (simp add: run_ops_def R_sending_def)

section \<open>Cancel and requeue\<close>

lemma guarded_update_healthy:
  assumes "healthy s"
  shows "healthy (snd (guarded_update g f er i s)) \<and>
    t_emails (snd (guarded_update g f er i s)) = update_where (\<lambda>r. er_id r = i \<and> g r) f (t_emails s) \<and>
    fst (guarded_update g f er i s) = (if \<exists>r \<in> set (t_emails s). er_id r = i \<and> g r then Inr () else Inl er)"
proof -
  obtain s1 where "env_step s s1" "healthy s1" "guarded_update g f er i s = (let hit = (\<lambda>r. er_id r = i \<and> g r)
     in (if filter hit (t_emails s1) = [] then Inl er else Inr (),
         s1\<lparr>t_emails := update_where hit f (t_emails s1)\<rparr>))"
    unfolding guarded_update_def using stmt_healthy[OF assms] by blast
  then show ?thesis by (auto simp: filter_empty_conv Let_def)
qed

lemma row_of_update:
  assumes "wf_store s" "row_of i s = Some r" "\<And>r. er_id (f r) = er_id r"
    and "t_emails t = update_where (\<lambda>r. er_id r = i \<and> g r) f (t_emails s)"
  shows "row_of i t = Some (if g r then f r else r) \<and> (j \<noteq> i \<longrightarrow> row_of j t = row_of j s)"
proof -
  have i: "er_id r = i" using assms(1,2) wf_row_of by blast
  have "row_of k t = map_option (\<lambda>r. if er_id r = i \<and> g r then f r else r) (row_of k s)" for k
    unfolding row_of_def assms(4) by (rule find_update_where) (rule assms(3))
  moreover have "er_id a = j" if "row_of j s = Some a" for a using that wf_row_of[OF assms(1)] by blast
  ultimately show ?thesis using assms(2) i by (cases "row_of j s") auto
qed

text \<open>A guarded update of an existing row: done, or refused and nothing changed.\<close>

lemma guarded_update_row:
  assumes h: "healthy s" and w: "wf_store s" and r: "row_of i s = Some r"
    and f: "\<And>r. er_id (f r) = er_id r"
  shows "fst (guarded_update g f er i s) = (if g r then Inr () else Inl er) \<and>
    row_of i (snd (guarded_update g f er i s)) = Some (if g r then f r else r) \<and>
    (j \<noteq> i \<longrightarrow> row_of j (snd (guarded_update g f er i s)) = row_of j s)"
proof -
  note u = guarded_update_healthy[OF h, of g f er i]
  have "(\<exists>r \<in> set (t_emails s). er_id r = i \<and> g r) = g r"
    using r wf_row_of[OF w] by (metis option.inject)
  with u row_of_update[OF w r f, of "snd (guarded_update g f er i s)" g j] show ?thesis by simp
qed

lemma operator_row_sel [simp]:
  "er_id (requeue_row now r) = er_id r" "er_id (readdress_row to nm now r) = er_id r"
  "er_status (readdress_row to nm now r) = ''queued''" "er_to (readdress_row to nm now r) = to"
  "er_original_to (readdress_row to nm now r) =
     (if er_original_to r = [] \<and> er_to r \<noteq> to then er_to r else er_original_to r)"
  by (simp_all add: requeue_row_def readdress_row_def)

lemma wf_RequeueEmail: "wf_store s \<Longrightarrow> wf_store (snd (RequeueEmail i to nm s))"
  using wf.keeps_RequeueEmail[of s i to nm] by (simp add: R_wf_def)

lemma RequeueEmail_row:
  assumes "healthy s" "wf_store s" "row_of i s = Some r" "requeueGuard r" "to \<noteq> []"
  shows "healthy (snd (RequeueEmail i to nm s)) \<and> wf_store (snd (RequeueEmail i to nm s)) \<and>
    row_of i (snd (RequeueEmail i to nm s)) = Some (readdress_row to nm (Now s) r)"
  using guarded_update_healthy[OF assms(1), of requeueGuard "readdress_row to nm (Now s)" ErrNotRequeueable i]
    guarded_update_row[OF assms(1-3), of "readdress_row to nm (Now s)" requeueGuard ErrNotRequeueable]
    wf_RequeueEmail[OF assms(2), of i to nm] assms(4,5)
  by (simp add: RequeueEmail_def)

end
