(* ===== verification/Delivery.thy ===== *)
theory Delivery
  imports Worker QueueLemmas
begin

text \<open>
  What the worker's code does, against an abstract account of a delivery: the outcome of a
  send has one verdict (delivered, try again at a given time, give up), and handling an email
  is to log one attempt and to apply the verdict to its row. A tick leaves no email it
  claimed in 'sending'. On a database whose statements fail the guarantees are the invariants of
  \<open>StoreInvariant\<close> and \<open>StoreHistory\<close>.
\<close>

section \<open>Statements on a healthy database\<close>

lemma exec_upd_healthy:
  assumes "healthy s"
  obtains s1 where "env_step s s1" "healthy s1" "exec_upd f s = (Inr (), f s1)"
  using stmt_healthy[OF assms, of "\<lambda>s. (Inr (), f s)"] by (auto simp: exec_upd_def)

lemma update_email_sel [simp]:
  "t_domains (update_email i f s) = t_domains s" "t_keys (update_email i f s) = t_keys s"
  "t_attempts (update_email i f s) = t_attempts s" "healthy (update_email i f s) = healthy s"
  "t_state (update_email i f s) = t_state s" "t_pending (update_email i f s) = t_pending s"
  "t_emails (update_email i f s) = update_where (\<lambda>r. er_id r = i) f (t_emails s)"
  by (simp_all add: update_email_def)

text \<open>The tables the worker's statements read and write.\<close>

definition delivery_tables :: "store \<Rightarrow> domain list \<times> email_row list \<times> attempt list" where
  "delivery_tables s = (t_domains s, t_emails s, t_attempts s)"

lemma exec_update_email:
  assumes "healthy s"
  shows "healthy (snd (exec_upd (update_email i f) s)) \<and>
    delivery_tables (snd (exec_upd (update_email i f) s)) =
      (t_domains s, update_where (\<lambda>r. er_id r = i) f (t_emails s), t_attempts s)"
proof -
  obtain s1 where "env_step s s1" "healthy s1" "exec_upd (update_email i f) s = (Inr (), update_email i f s1)"
    using exec_upd_healthy[OF assms] .
  then show ?thesis by (simp add: delivery_tables_def)
qed

lemma RecordAttempt_healthy:
  assumes "healthy s" "i \<in> er_id ` set (t_emails s)"
  shows "healthy (snd (RecordAttempt i no code mx resp ms s)) \<and>
    delivery_tables (snd (RecordAttempt i no code mx resp ms s)) =
      (t_domains s, t_emails s, t_attempts s @
         [\<lparr>a_id = next_rowid (map a_id (t_attempts s)), a_email_id = i, a_no = no, a_mx = mx,
           a_code = code, a_response = resp, a_duration = ms, a_created = Now s\<rparr>])"
proof -
  obtain s1 where "env_step s s1" "healthy s1"
      "RecordAttempt i no code mx resp ms s = insert_attempt i no code mx resp ms (Now s) s1"
    unfolding RecordAttempt_def using stmt_healthy[OF assms(1)] by blast
  with assms(2) show ?thesis by (simp add: insert_attempt_def delivery_tables_def)
qed

lemma GetDomain_healthy:
  assumes "healthy s" "find (\<lambda>d. d_id d = i) (t_domains s) = Some d"
  obtains s1 where "env_step s s1" "healthy s1" "GetDomain i s = (Inr d, s1)"
proof -
  obtain s1 where "env_step s s1" "healthy s1"
      "GetDomain i s = (case find (\<lambda>d. d_id d = i) (t_domains s1) of None \<Rightarrow> Inl ErrNoRows | Some a \<Rightarrow> Inr a, s1)"
    unfolding GetDomain_def query_row_def using stmt_healthy[OF assms(1)] by blast
  with assms(2) that show thesis by simp
qed

section \<open>The verdict on a send\<close>

datatype verdict = Delivered | TryAgain time string | GiveUp string

definition later :: "email \<Rightarrow> time \<Rightarrow> string \<Rightarrow> verdict" where
  "later e now msg = (if 0 \<le> e_attempts e \<and> e_attempts e < 7
     then TryAgain (now + Schedule ! nat (e_attempts e)) msg
     else GiveUp (''retries exhausted: '' @ msg))"

definition verdict_of :: "email \<Rightarrow> time \<Rightarrow> send_outcome \<Rightarrow> verdict" where
  "verdict_of e now out = (case out of
       SendPanic msg dur \<Rightarrow> later e now (''panic: '' @ msg)
     | SendDone res \<Rightarrow> (case r_err res of
         None \<Rightarrow> Delivered
       | Some er \<Rightarrow> if Classify er = ClassPerm then GiveUp (error_text er)
                    else later e now (error_text er)))"

definition apply_verdict :: "verdict \<Rightarrow> string \<Rightarrow> email_row \<Rightarrow> email_row" where
  "apply_verdict v tm r = (case v of
       Delivered \<Rightarrow> sent_row tm r
     | TryAgain t msg \<Rightarrow> retry_row (FmtTime t) msg r
     | GiveUp msg \<Rightarrow> failed_row msg r)"

lemma apply_verdict_simps [simp]:
  "apply_verdict Delivered tm = sent_row tm" "apply_verdict (TryAgain t msg) tm = retry_row (FmtTime t) msg"
  "apply_verdict (GiveUp msg) tm = failed_row msg"
  by (simp_all add: fun_eq_iff apply_verdict_def)

text \<open>What is logged of a send: code, exchanger, response and milliseconds.\<close>

definition logged :: "send_outcome \<Rightarrow> int \<times> string \<times> string \<times> int" where
  "logged out = (case out of
       SendPanic msg dur \<Rightarrow> (0, [], ''panic: '' @ msg, 0)
     | SendDone res \<Rightarrow> (r_code res, r_mx_host res, r_response res, Milliseconds (r_duration res)))"

definition attempt_of :: "email \<Rightarrow> send_outcome \<Rightarrow> int \<Rightarrow> string \<Rightarrow> attempt" where
  "attempt_of e out i created = (case logged out of (code, mx, resp, ms) \<Rightarrow>
     \<lparr>a_id = i, a_email_id = e_id e, a_no = e_attempts e + 1, a_mx = mx, a_code = code,
      a_response = resp, a_duration = ms, a_created = created\<rparr>)"

lemma attempt_of_sel [simp]:
  "a_email_id (attempt_of e out i created) = e_id e" "a_no (attempt_of e out i created) = e_attempts e + 1"
  "a_id (attempt_of e out i created) = i"
  by (simp_all add: attempt_of_def split: prod.split)

text \<open>A failure callback that leaves the tables of the worker alone, as the notifier's does.\<close>

definition benign_callback :: "worker \<Rightarrow> bool" where
  "benign_callback w \<longleftrightarrow> (\<forall>f i s. w_on_failure w = Some f \<longrightarrow>
     delivery_tables (f i s) = delivery_tables s \<and> (healthy s \<longrightarrow> healthy (f i s)))"

lemma later_NextAttempt:
  "NextAttempt (e_attempts e + 1) now =
     (if 0 \<le> e_attempts e \<and> e_attempts e < 7 then Some (now + Schedule ! nat (e_attempts e)) else None)"
  by (simp add: NextAttempt_def Schedule_def)

lemma markFailed_healthy:
  assumes "healthy s" "benign_callback w"
  shows "healthy (markFailed w e msg s) \<and> delivery_tables (markFailed w e msg s) =
    (t_domains s, update_where (\<lambda>r. er_id r = e_id e) (failed_row msg) (t_emails s), t_attempts s)"
  using exec_update_email[OF assms(1), of "e_id e" "failed_row msg"] assms(2)
  by (simp add: markFailed_def MarkFailed_def benign_callback_def Let_def split: option.split)

lemma retryOrFail_healthy:
  assumes "healthy s" "benign_callback w"
  shows "healthy (retryOrFail w e now msg s) \<and> delivery_tables (retryOrFail w e now msg s) =
    (t_domains s, update_where (\<lambda>r. er_id r = e_id e) (apply_verdict (later e now msg) tm) (t_emails s),
     t_attempts s)"
  using exec_update_email[OF assms(1), of "e_id e"]
    markFailed_healthy[OF assms, of e "''retries exhausted: '' @ msg"]
  unfolding retryOrFail_def later_NextAttempt later_def MarkRetry_def
  by (simp split: if_split)

text \<open>Handling an email is to log its attempt and to apply the verdict.\<close>

lemma process_healthy:
  assumes "healthy s" "benign_callback w"
    and d: "find (\<lambda>d. d_id d = e_domain_id e) (t_domains s) = Some d"
    and e: "e_id e \<in> er_id ` set (t_emails s)"
  shows "\<exists>tm created. healthy (process w send e now s) \<and>
    delivery_tables (process w send e now s) =
      (t_domains s,
       update_where (\<lambda>r. er_id r = e_id e) (apply_verdict (verdict_of e now (send e d)) tm) (t_emails s),
       t_attempts s @ [attempt_of e (send e d) (next_rowid (map a_id (t_attempts s))) created])"
proof -
  obtain s1 where s1: "env_step s s1" "healthy s1" "GetDomain (e_domain_id e) s = (Inr d, s1)"
    using GetDomain_healthy[OF assms(1) d] .
  define t where "t = (\<lambda>dur. elapse dur s1)"
  define rec where "rec = (\<lambda>code mx resp ms dur. recordAttempt e code mx resp ms (t dur))"
  have rec: "healthy (rec code mx resp ms dur) \<and> delivery_tables (rec code mx resp ms dur) =
      (t_domains s, t_emails s, t_attempts s @
         [\<lparr>a_id = next_rowid (map a_id (t_attempts s)), a_email_id = e_id e, a_no = e_attempts e + 1,
           a_mx = mx, a_code = code, a_response = resp, a_duration = ms, a_created = Now (t dur)\<rparr>])"
    for code mx resp ms dur
    using RecordAttempt_healthy[of "t dur" "e_id e"] s1 e by (simp add: rec_def t_def recordAttempt_def)
  show ?thesis
  proof (cases "send e d")
    case (SendPanic msg dur)
    let ?s = "rec 0 [] (''panic: '' @ msg) 0 dur"
    have "process w send e now s = retryOrFail w e now (''panic: '' @ msg) ?s"
      by (simp add: process_def settle_def abandon_def send_time_def s1 SendPanic rec_def t_def Let_def)
    then show ?thesis
      using retryOrFail_healthy[of ?s w e now "''panic: '' @ msg"] rec assms(2) SendPanic
      by (simp add: delivery_tables_def verdict_of_def attempt_of_def logged_def)
  next
    case (SendDone res)
    let ?s = "rec (r_code res) (r_mx_host res) (r_response res) (Milliseconds (r_duration res)) (r_duration res)"
    have p: "process w send e now s = (case r_err res of
         None \<Rightarrow> snd (MarkSent (e_id e) (Now ?s) ?s)
       | Some er \<Rightarrow> if Classify er = ClassPerm then markFailed w e (error_text er) ?s
                    else retryOrFail w e now (error_text er) ?s)"
      by (simp add: process_def settle_def send_time_def s1 SendDone rec_def t_def Let_def split: option.split)
    show ?thesis
    proof (cases "r_err res")
      case None
      then show ?thesis
        using exec_update_email[of ?s "e_id e" "sent_row (Now ?s)"] rec SendDone unfolding p
        by (simp add: delivery_tables_def verdict_of_def attempt_of_def logged_def MarkSent_def) blast
    next
      case (Some er)
      then show ?thesis
        using markFailed_healthy[of ?s w e "error_text er"] retryOrFail_healthy[of ?s w e now "error_text er"]
          rec assms(2) SendDone unfolding p
        by (simp add: delivery_tables_def verdict_of_def attempt_of_def logged_def)
    qed
  qed
qed

section \<open>All emails of a tick\<close>

text \<open>The verdict on an email, with its domain looked up.\<close>

definition verdict_in ::
    "domain list \<Rightarrow> (email \<Rightarrow> domain \<Rightarrow> send_outcome) \<Rightarrow> time \<Rightarrow> email \<Rightarrow> verdict" where
  "verdict_in ds send now e =
     verdict_of e now (send e (the (find (\<lambda>d. d_id d = e_domain_id e) ds)))"

text \<open>Each row gets the verdict of its email, if the email is among those handled.\<close>

definition settle_rows ::
    "(email \<Rightarrow> verdict) \<Rightarrow> (int \<Rightarrow> string) \<Rightarrow> email list \<Rightarrow> email_row list \<Rightarrow> email_row list" where
  "settle_rows V tm es rs = map (\<lambda>r. case find (\<lambda>e. e_id e = er_id r) es of
       None \<Rightarrow> r | Some e \<Rightarrow> apply_verdict (V e) (tm (er_id r)) r) rs"

definition handled_email :: "domain list \<Rightarrow> email_row list \<Rightarrow> email \<Rightarrow> bool" where
  "handled_email ds rs e \<longleftrightarrow> e_id e \<in> er_id ` set rs \<and> e_domain_id e \<in> d_id ` set ds"

lemma apply_verdict_id [simp]: "er_id (apply_verdict v tm r) = er_id r"
  by (cases v) (simp_all add: sent_row_def retry_row_def failed_row_def)

lemma find_domain: "i \<in> d_id ` set ds \<Longrightarrow> \<exists>d. find (\<lambda>d. d_id d = i) ds = Some d"
  by (induction ds) auto

lemma settle_rows_Cons:
  assumes "e_id e \<notin> e_id ` set es"
  shows "settle_rows V tm es (update_where (\<lambda>r. er_id r = e_id e) (apply_verdict (V e) t) rs) =
    settle_rows V (tm(e_id e := t)) (e # es) rs"
proof -
  have none: "find (\<lambda>x. e_id x = e_id e) es = None"
    using assms by (auto simp: find_None_notin image_iff)
  show ?thesis
    using none by (auto simp: settle_rows_def update_where_def split: option.split)
qed

lemma fold_process_healthy:
  assumes "healthy s" "benign_callback w" "distinct (map e_id es)"
    and "\<forall>e \<in> set es. handled_email (t_domains s) (t_emails s) e"
  shows "\<exists>tm as. healthy (fold (\<lambda>e. process w send e now) es s) \<and>
    delivery_tables (fold (\<lambda>e. process w send e now) es s) =
      (t_domains s, settle_rows (verdict_in (t_domains s) send now) tm es (t_emails s), t_attempts s @ as) \<and>
    map (\<lambda>a. (a_email_id a, a_no a)) as = map (\<lambda>e. (e_id e, e_attempts e + 1)) es"
  using assms
proof (induction es arbitrary: s)
  case Nil
  then show ?case by (auto simp: delivery_tables_def settle_rows_def)
next
  case (Cons e es)
  let ?V = "verdict_in (t_domains s) send now"
  let ?s = "process w send e now s"
  obtain d where d: "find (\<lambda>d. d_id d = e_domain_id e) (t_domains s) = Some d"
    using Cons.prems(4) find_domain by (fastforce simp: handled_email_def)
  obtain t created where p: "healthy ?s" "t_domains ?s = t_domains s"
      "t_emails ?s = update_where (\<lambda>r. er_id r = e_id e) (apply_verdict (?V e) t) (t_emails s)"
      "t_attempts ?s = t_attempts s @ [attempt_of e (send e d) (next_rowid (map a_id (t_attempts s))) created]"
    using process_healthy[OF Cons.prems(1,2) d, of send now] Cons.prems(4) d
    by (auto simp: delivery_tables_def verdict_in_def handled_email_def)
  have ids: "er_id ` set (t_emails ?s) = er_id ` set (t_emails s)"
    unfolding p(3) by (rule image_update_where) simp
  obtain tm as where ih: "healthy (fold (\<lambda>e. process w send e now) es ?s)"
      "delivery_tables (fold (\<lambda>e. process w send e now) es ?s) =
        (t_domains s, settle_rows ?V tm es (t_emails ?s), t_attempts ?s @ as)"
      "map (\<lambda>a. (a_email_id a, a_no a)) as = map (\<lambda>e. (e_id e, e_attempts e + 1)) es"
    using Cons.IH[of ?s] p ids Cons.prems by (auto simp: handled_email_def)
  have "settle_rows ?V tm es (t_emails ?s) = settle_rows ?V (tm(e_id e := t)) (e # es) (t_emails s)"
    unfolding p(3) using Cons.prems(3) by (intro settle_rows_Cons) simp
  with ih p(4) show ?case
    by (intro exI[of _ "tm(e_id e := t)"]
        exI[of _ "attempt_of e (send e d) (next_rowid (map a_id (t_attempts s))) created # as"])
      (simp add: fun_upd_def)
qed

section \<open>The claim\<close>

lemma ClaimDue_healthy:
  assumes "healthy s"
  obtains s1 where "healthy s1" "ClaimDue limit now s = (Inr (claimed limit now (t_emails s)), s1)"
    "delivery_tables s1 = (t_domains s, claimed_rows limit now (t_emails s), t_attempts s)"
proof -
  obtain s1 where s1: "env_step s s1" "healthy s1" "ClaimDue limit now s = claim_due limit now s1"
    unfolding ClaimDue_def using stmt_healthy[OF assms] by blast
  then show thesis
    by (intro that[of "s1\<lparr>t_emails := claimed_rows limit now (t_emails s)\<rparr>"])
      (simp_all add: claim_due_eq delivery_tables_def)
qed

lemma RequeueStale_healthy:
  assumes "healthy s"
  shows "healthy (snd (RequeueStaleSending cutoff s)) \<and>
    delivery_tables (snd (RequeueStaleSending cutoff s)) =
      (t_domains s, update_where (stale cutoff) (\<lambda>r. r\<lparr>er_status := ''queued''\<rparr>) (t_emails s), t_attempts s)"
proof -
  obtain s1 where "env_step s s1" "healthy s1" "RequeueStaleSending cutoff s = requeue_stale cutoff s1"
    unfolding RequeueStaleSending_def using stmt_healthy[OF assms] by blast
  then show ?thesis by (simp add: requeue_stale_def delivery_tables_def)
qed

section \<open>A tick\<close>

definition batch_size :: "worker \<Rightarrow> int" where
  "batch_size w = (if w_batch_size w = 0 then 10 else w_batch_size w)"

text \<open>The emails table after the requeue of stale emails, before the claim.\<close>

definition unstuck :: "time \<Rightarrow> email_row list \<Rightarrow> email_row list" where
  "unstuck now = update_where (stale (FmtTime (now - staleSendingWindow))) (\<lambda>r. r\<lparr>er_status := ''queued''\<rparr>)"

definition tick_emails :: "worker \<Rightarrow> time \<Rightarrow> email_row list \<Rightarrow> email list" where
  "tick_emails w now rs = claimed (batch_size w) (FmtTime now) (unstuck now rs)"

lemma unstuck_ids [simp]: "map er_id (unstuck now rs) = map er_id rs"
  unfolding unstuck_def by (rule map_update_where) simp

lemma unstuck_domains: "er_domain_id ` set (unstuck now rs) = er_domain_id ` set rs"
  unfolding unstuck_def by (rule image_update_where) simp

lemma Tick_healthy:
  fixes now :: time and w :: worker
  assumes "healthy s" "wf_store s" "benign_callback w" and order: "\<And>es. mset (order es) = mset es"
  defines "rs \<equiv> claimed_rows (batch_size w) (FmtTime now) (unstuck now (t_emails s))"
    and "es \<equiv> tick_emails w now (t_emails s)"
  shows "\<exists>tm as. fst (Tick w send order now s) = None \<and> healthy (snd (Tick w send order now s)) \<and>
    delivery_tables (snd (Tick w send order now s)) =
      (t_domains s, settle_rows (verdict_in (t_domains s) send now) tm (order es) rs, t_attempts s @ as) \<and>
    map (\<lambda>a. (a_email_id a, a_no a)) as = map (\<lambda>e. (e_id e, e_attempts e + 1)) (order es)"
proof -
  define s1 where "s1 = snd (RequeueStaleSending (FmtTime (now + (- staleSendingWindow))) s)"
  have s1: "healthy s1" "t_domains s1 = t_domains s" "t_emails s1 = unstuck now (t_emails s)"
      "t_attempts s1 = t_attempts s"
    using RequeueStale_healthy[OF assms(1), of "FmtTime (now + (- staleSendingWindow))"]
    by (simp_all add: s1_def delivery_tables_def unstuck_def)
  obtain s2 where c: "healthy s2" "ClaimDue (batch_size w) (FmtTime now) s1 = (Inr es, s2)"
      "t_domains s2 = t_domains s" "t_emails s2 = rs" "t_attempts s2 = t_attempts s"
    using ClaimDue_healthy[OF s1(1), of "batch_size w" "FmtTime now"] s1
    by (auto simp: es_def rs_def tick_emails_def delivery_tables_def)
  have tick: "Tick w send order now s = (None, fold (\<lambda>e. process w send e now) (order es) s2)"
    unfolding Tick_def Let_def s1_def[symmetric] using c(2) by (simp add: batch_size_def)
  have dist: "distinct (map e_id es)"
    using wf_ids_distinct(3)[OF assms(2)] by (simp add: es_def tick_emails_def ids_claimed)
  have "distinct (map e_id (order es))"
    using dist order[of es] by (metis mset_map distinct_count_atmost_1 set_mset_mset)
  moreover have "handled_email (t_domains s2) (t_emails s2) e" if e: "e \<in> set (order es)" for e
  proof -
    have "e \<in> set es" using e order[of es] by (metis set_mset_mset)
    then obtain r where r: "r \<in> set rs" "e = scanEmail r"
      by (auto simp: es_def tick_emails_def claimed_def rs_def)
    have "er_domain_id ` set rs = er_domain_id ` set (t_emails s)"
      unfolding rs_def claimed_rows_def by (subst image_update_where) (simp_all add: unstuck_domains)
    then have "er_domain_id r \<in> er_domain_id ` set (t_emails s)" using r(1) by blast
    then have "er_domain_id r \<in> d_id ` set (t_domains s)"
      using assms(2) by (auto simp: wf_store_def wf_emails_def email_row_ok_def)
    with r show ?thesis by (simp add: handled_email_def c(3,4))
  qed
  ultimately show ?thesis
    using fold_process_healthy[OF c(1) assms(3), of "order es" send now] unfolding tick c(3-5) by simp
qed

end
