(* ===== verification/Reports.thy ===== *)
theory Reports
  imports StoreHistory
begin

text \<open>
  What the figures of \<^verbatim>\<open>stats.go\<close> and \<^verbatim>\<open>notify.go\<close> mean: groups partition the emails they are
  made of, and the range of timestamps of a month holds exactly the emails of that month.
\<close>

section \<open>Groups partition\<close>

lemma sum_groups:
  assumes "distinct xs" "k ` set rs \<subseteq> set xs"
  shows "sum_list (map (\<lambda>x. length (filter P (filter (\<lambda>r. k r = x) rs))) xs) = length (filter P rs)"
  using assms(2)
proof (induction rs)
  case (Cons r rs)
  let ?c = "if P r then 1 else 0 :: nat"
  have "sum_list (map (\<lambda>x. length (filter P (filter (\<lambda>q. k q = x) (r # rs)))) xs)
      = sum_list (map (\<lambda>x. length (filter P (filter (\<lambda>q. k q = x) rs)) + (if x = k r then ?c else 0)) xs)"
    by (intro arg_cong[of _ _ sum_list] map_cong) auto
  also have "\<dots> = length (filter P rs) + ?c"
    using Cons assms(1) by (simp add: sum_list_addf sum_list_distinct_conv_sum_set)
  finally show ?case by simp
qed simp

lemma groups_keys: "map fst (groups k rs) = sort (remdups (map k rs))"
  by (simp add: groups_def comp_def)

lemma groups_sorted: "sorted_wrt (<) (map fst (groups k rs))"
  unfolding groups_keys by (simp add: strict_sorted_iff)

lemma count_groups:
  "sum_list (map (\<lambda>(x, g). count_status st g) (groups k rs)) = count_status st rs"
  using sum_groups[of "sort (remdups (map k rs))" k rs "\<lambda>r. er_status r \<in> set st"]
  by (simp add: groups_def count_status_def comp_def)

lemma groups_nonempty: "(x, g) \<in> set (groups k rs) \<Longrightarrow> g = filter (\<lambda>r. k r = x) rs \<and> g \<noteq> []"
  by (auto simp: groups_def filter_empty_conv)

section \<open>The five statuses in a summary\<close>

lemma summary_total:
  assumes "\<forall>r \<in> set rs. er_status r \<in> statuses"
  shows "sm_sent (summary_of rs) + sm_failed (summary_of rs) + sm_queued (summary_of rs) +
    sm_canceled (summary_of rs) = sm_total (summary_of rs)"
  using assms
  by (induction rs) (auto simp: summary_of_def count_status_def Let_def statuses_def)

lemma count_le: "count_status st rs \<le> length rs"
  by (simp add: count_status_def)

lemma count_two_le:
  "count_status [''sent''] rs + count_status [''canceled''] rs \<le> length rs"
  by (induction rs) (auto simp: count_status_def)

lemma summary_rate: "0 \<le> sm_success_rate (summary_of rs) \<and> sm_success_rate (summary_of rs) \<le> 100"
proof -
  define a b where "a = count_status [''sent''] rs" and "b = int (length rs) - int (count_status [''canceled''] rs)"
  have "a \<le> nat b" using count_two_le[of rs] by (simp add: a_def b_def)
  then show ?thesis
    using percentage_bounds[of a "nat b"] by (simp add: summary_of_def Let_def a_def b_def)
qed

section \<open>The month of a timestamp\<close>

text \<open>The number of the first day of a month; \<open>m = 13\<close> is the January after.\<close>

definition month_day :: "int \<Rightarrow> int \<Rightarrow> int" where
  "month_day y m = days_before_year y + days_before_month (is_leap y) m"

lemma month_day_iff:
  assumes "m \<in> {1..12}"
  shows "month_day y m \<le> abs_day t \<and> abs_day t < month_day y (m + 1) \<longleftrightarrow>
    c_year (civil_of t) = y \<and> c_month (civil_of t) = m"
proof
  assume d: "month_day y m \<le> abs_day t \<and> abs_day t < month_day y (m + 1)"
  have lo: "0 \<le> days_before_month (is_leap y) m"
    using days_before_month_mono[of 1 m "is_leap y"] assms by (simp add: days_before_month_def)
  have hi: "days_before_month (is_leap y) (m + 1) \<le> (if is_leap y then 366 else 365)"
    using assms unfolding month_12 by (elim disjE) (simp_all add: days_before_month_def)
  have y: "year_of (abs_day t) = y"
    using d lo hi days_before_year_Suc[of y] by (intro year_of_unique) (auto simp: month_day_def)
  have "month_of (is_leap y) (day_of_year t) = m"
    using d hi y by (intro month_of_unique[OF assms]) (auto simp: month_day_def day_of_year_def split: if_splits)
  then show "c_year (civil_of t) = y \<and> c_month (civil_of t) = m" using y by (simp add: civil_of_simps)
next
  assume "c_year (civil_of t) = y \<and> c_month (civil_of t) = m"
  then have c: "year_of (abs_day t) = y" "month_of (is_leap y) (day_of_year t) = m"
    by (auto simp: civil_of_simps)
  have "day_of_year t < (if is_leap y then 366 else 365)" using day_of_year_bounds(2)[of t] c(1) by simp
  from month_of_bounds[OF day_of_year_bounds(1) this] c
  show "month_day y m \<le> abs_day t \<and> abs_day t < month_day y (m + 1)"
    by (auto simp: month_day_def day_of_year_def)
qed

definition midnight :: "int \<Rightarrow> time" where
  "midnight n = (n - unix_to_absolute) * 86400 * second"

lemma midnight_div: "midnight n div second = (n - unix_to_absolute) * 86400" "midnight n mod second = 0"
  by (simp_all add: midnight_def)

lemma Date_day:
  assumes "m \<in> {1..12}"
  shows "Date y m d 0 0 0 0 = midnight (month_day y m + (d - 1))"
proof -
  have "(m - 1) div 12 = 0" "(m - 1) mod 12 = m - 1" using assms by auto
  then show ?thesis by (simp add: Date_def month_day_def midnight_def Let_def algebra_simps)
qed

lemma Date_next_month:
  assumes "m \<in> {1..12}"
  shows "Date y (m + 1) 1 0 0 0 0 = midnight (month_day y (m + 1))"
proof (cases "m = 12")
  case True
  then have "Date y (m + 1) 1 0 0 0 0 = Date (y + 1) 1 1 0 0 0 0" by (simp add: Date_def)
  also have "\<dots> = midnight (month_day (y + 1) 1)" by (simp add: Date_day)
  also have "month_day (y + 1) 1 = month_day y (m + 1)"
    using True by (simp add: month_day_def days_before_month_def days_before_year_Suc)
  finally show ?thesis .
next
  case False
  with assms have "m + 1 \<in> {1..12}" by auto
  from Date_day[OF this, of y 1] show ?thesis by simp
qed

lemma mult_le_iff_le_div: "0 < k \<Longrightarrow> n * k \<le> t \<longleftrightarrow> n \<le> t div k" for n k t :: int
proof
  assume k: "0 < k" and "n * k \<le> t"
  from zdiv_mono1[OF this(2,1)] k show "n \<le> t div k" by simp
next
  assume k: "0 < k" and "n \<le> t div k"
  then have "n * k \<le> t div k * k" by (simp add: mult_right_mono)
  also have "\<dots> \<le> t" using k by (simp add: minus_mod_eq_div_mult[symmetric])
  finally show "n * k \<le> t" .
qed

lemma midnight_le: "midnight n div second \<le> t div second \<longleftrightarrow> n \<le> abs_day t"
proof -
  have "midnight n div second \<le> t div second \<longleftrightarrow> n - unix_to_absolute \<le> t div second div 86400"
    unfolding midnight_div by (rule mult_le_iff_le_div) simp
  then show ?thesis by (auto simp: abs_day_def)
qed

lemma abs_day_midnight: "abs_day (midnight n) = n"
  by (simp add: abs_day_def midnight_div)

lemma civil_Date:
  assumes "m \<in> {1..12}"
  shows "civil_of (Date y m 1 0 0 0 0) = \<lparr>c_year = y, c_month = m, c_day = 1, c_hour = 0, c_min = 0, c_sec = 0\<rparr>"
proof -
  let ?t = "Date y m 1 0 0 0 0"
  have t: "?t = midnight (month_day y m)" using Date_day[OF assms, of y 1] by simp
  then have day: "abs_day ?t = month_day y m" by (simp only: abs_day_midnight)
  have "month_day y m < month_day y (m + 1)"
    using days_before_month_step[OF assms, of "is_leap y"] by (simp add: month_day_def)
  with month_day_iff[OF assms, of y ?t] day have ym: "c_year (civil_of ?t) = y" "c_month (civil_of ?t) = m" by auto
  have "sec_of_day ?t = 0" unfolding t sec_of_day_def midnight_div by simp
  moreover have "c_day (civil_of ?t) = 1"
    using day ym by (simp add: civil_of_simps day_of_year_def month_day_def)
  ultimately show ?thesis using ym by (simp add: civil_of_simps civil.equality)
qed

section \<open>The range of a month\<close>

lemma digit_value_Some: "digit_value c = Some d \<Longrightarrow> d < 10 \<and> digit d = c"
  by (auto simp: digit_value_def Let_def digit_def split: if_splits)

lemma parse_digits_append:
  "parse_digits a (xs @ ys) = (case parse_digits a xs of None \<Rightarrow> None | Some b \<Rightarrow> parse_digits b ys)"
  by (induction xs arbitrary: a) (auto split: option.split)

lemma parse_digits_fixed:
  "parse_digits 0 ds = Some n \<Longrightarrow> n < 10 ^ length ds \<and> fixed_digits (length ds) n = ds"
proof (induction ds arbitrary: n rule: rev_induct)
  case (snoc c ds)
  then obtain a d where "parse_digits 0 ds = Some a" "digit_value c = Some d" "n = a * 10 + d"
    by (auto simp: parse_digits_append split: option.splits)
  with snoc.IH[of a] digit_value_Some[of c d] show ?case by auto
qed simp

lemma parse_month_Some:
  assumes "parse_month m = Some u"
  obtains y mo where "0 \<le> y" "y \<le> 9999" "mo \<in> {1..12}" "u = Date y mo 1 0 0 0 0"
    "m = fixed_digits 4 (nat y) @ ''-'' @ fixed_digits 2 (nat mo)"
proof -
  have m: "length m = 7" "m ! 4 = CHR ''-''" using assms by (auto simp: parse_month_def split: if_splits)
  obtain y mo where p: "parse_digits 0 (take 4 m) = Some y" "parse_digits 0 (drop 5 m) = Some mo"
      "1 \<le> mo" "mo \<le> 12" "u = Date (int y) (int mo) 1 0 0 0 0"
    using assms m by (cases "parse_digits 0 (take 4 m)"; cases "parse_digits 0 (drop 5 m)")
      (simp_all add: parse_month_def split: if_splits)
  have "m = take 4 m @ m ! 4 # drop 5 m" using id_take_nth_drop[of 4 m] m(1) by simp
  moreover have f: "fixed_digits 4 y = take 4 m" "y < 10 ^ 4" "fixed_digits 2 mo = drop 5 m"
    using parse_digits_fixed[OF p(1)] parse_digits_fixed[OF p(2)] m(1) by (simp_all only: length_take length_drop) simp_all
  ultimately have "m = fixed_digits 4 y @ ''-'' @ fixed_digits 2 mo" using m(2) by (simp only: f append_Cons append_Nil)
  with p f(2) show thesis by (intro that[of "int y" "int mo"]) simp_all
qed

lemma take_FmtTime_month:
  assumes "stampable t"
  shows "take 7 (FmtTime t) = fmt_month t"
proof -
  have "length (fmt_month t) = 7" by (simp add: fmt_fixed(1)[OF assms])
  then show ?thesis by (simp add: FmtTime_def fmt_fixed(2)[OF assms])
qed

lemma FmtTime_le_midnight:
  "stampable t \<Longrightarrow> stampable (midnight n) \<Longrightarrow> FmtTime (midnight n) \<le> FmtTime t \<longleftrightarrow> n \<le> abs_day t"
  by (simp only: fmt.stamp_le midnight_le)

lemma AddDate_month:
  assumes "mo \<in> {1..12}"
  shows "AddDate (Date y mo 1 0 0 0 0) 0 1 0 = midnight (month_day y (mo + 1))"
proof -
  have "Date y mo 1 0 0 0 0 mod second = 0" using Date_day[OF assms, of y 1] midnight_div(2) by simp
  then show ?thesis
    unfolding AddDate_def Let_def civil_Date[OF assms] using Date_next_month[OF assms, of y] by simp
qed

lemma fixed_digits_numeral:
  "fixed_digits (numeral k) n = fixed_digits (pred_numeral k) (n div 10) @ [digit (n mod 10)]"
proof -
  have "(numeral k :: nat) = Suc (pred_numeral k)" by (rule numeral_eq_Suc)
  then show ?thesis by (simp only: fixed_digits.simps)
qed

lemma monthRange_month:
  assumes "parse_month m = Some u" "m \<noteq> ''9999-12''" "stampable t"
  shows "fst (monthRange m) \<le> FmtTime t \<and> FmtTime t < snd (monthRange m) \<longleftrightarrow> take 7 (FmtTime t) = m"
proof -
  obtain y mo where y: "0 \<le> y" "y \<le> 9999" and mo: "mo \<in> {1..12}" and u: "u = Date y mo 1 0 0 0 0"
    and m: "m = fixed_digits 4 (nat y) @ ''-'' @ fixed_digits 2 (nat mo)"
    using parse_month_Some[OF assms(1)] .
  have lo: "u = midnight (month_day y mo)" using Date_day[OF mo, of y 1] u by simp
  have hi: "AddDate u 0 1 0 = midnight (month_day y (mo + 1))" using AddDate_month[OF mo] u by simp
  have last: "y < 9999 \<or> mo < 12"
  proof (rule ccontr)
    assume "\<not> (y < 9999 \<or> mo < 12)"
    then have ym: "y = 9999" "mo = 12" using y mo by auto
    have e: "fixed_digits 4 (nat 9999) @ ''-'' @ fixed_digits 2 (nat 12) = ''9999-12''"
      by (simp add: fixed_digits_numeral digit_def char_of_eq_iff)
    have "m = ''9999-12''" unfolding m ym by (rule e)
    with assms(2) show False by simp
  qed
  have ok: "stampable (midnight (month_day y mo))"
    using y civil_Date[OF mo, of y] lo u by (simp add: stampable_def)
  have ok': "stampable (midnight (month_day y (mo + 1)))"
  proof (cases "mo = 12")
    case True
    have "civil_of (Date (y + 1) 1 1 0 0 0 0) = \<lparr>c_year = y + 1, c_month = 1, c_day = 1, c_hour = 0, c_min = 0, c_sec = 0\<rparr>"
      by (rule civil_Date) simp
    moreover have "midnight (month_day y (mo + 1)) = Date (y + 1) 1 1 0 0 0 0"
      using Date_next_month[OF mo, of y] True by (simp add: Date_def)
    ultimately show ?thesis using y last True by (simp add: stampable_def)
  next
    case False
    then have "mo + 1 \<in> {1..12}" using mo by auto
    from civil_Date[OF this, of y] Date_day[OF this, of y 1] y show ?thesis by (simp add: stampable_def)
  qed
  have "fst (monthRange m) \<le> FmtTime t \<and> FmtTime t < snd (monthRange m) \<longleftrightarrow>
      month_day y mo \<le> abs_day t \<and> abs_day t < month_day y (mo + 1)"
    using FmtTime_le_midnight[OF assms(3) ok] FmtTime_le_midnight[OF assms(3) ok']
    by (simp add: monthRange_def assms(1) lo[symmetric] hi not_le[symmetric])
  also have "\<dots> \<longleftrightarrow> c_year (civil_of t) = y \<and> c_month (civil_of t) = mo" by (rule month_day_iff[OF mo])
  also have "\<dots> \<longleftrightarrow> fmt_month t = m"
  proof -
    have r: "0 \<le> c_year (civil_of t)" "c_year (civil_of t) < 10000" "0 \<le> c_month (civil_of t)" "c_month (civil_of t) < 100"
      "0 \<le> y" "y < 10000" "0 \<le> mo" "mo < 100"
      using assms(3) civil_ranges(1)[of t] y mo by (simp_all add: stampable_def)
    have "fixed_digits 4 (nat (c_year (civil_of t))) = fixed_digits 4 (nat y) \<longleftrightarrow> c_year (civil_of t) = y"
      using r by (subst fixed_digits_eq_iff) (simp_all add: nat_less_iff eq_nat_nat_iff)
    moreover have "fixed_digits 2 (nat (c_month (civil_of t))) = fixed_digits 2 (nat mo) \<longleftrightarrow> c_month (civil_of t) = mo"
      using r by (subst fixed_digits_eq_iff) (simp_all add: nat_less_iff eq_nat_nat_iff)
    ultimately show ?thesis unfolding fmt_fixed(1)[OF assms(3)] m by simp
  qed
  finally show ?thesis unfolding take_FmtTime_month[OF assms(3)] .
qed

end
