(* ===== verification/Samples.thy ===== *)
theory Samples
  imports Api Delivery Reports
begin

text \<open>
  Small concrete inputs on which the theorems are applied: a library of services, a database
  with one verified and one unverified domain, their keys, and emails in several states.
\<close>

definition sample_libs :: libs where
  "sample_libs = \<lparr>lib_parse_address = (\<lambda>s. if s = [] then None else Some ([], s)),
     lib_address_string = (\<lambda>n a. n @ '' <'' @ a @ ''>''),
     lib_sha256_hex = (\<lambda>s. ''h'' @ s),
     lib_json_marshal = (\<lambda>hs. if hs = [(''X-Tag'', ''a'')] then ''{tag}'' else ''{}''),
     lib_json_unmarshal = (\<lambda>s. if s = ''{}'' then Inr []
        else if s = ''{tag}'' then Inr [(''X-Tag'', ''a'')]
        else if s = ''{bcc}'' then Inr [(''Bcc: eve@x'', ''a'')]
        else Inl (Plain ''invalid character'')),
     lib_qencode = (\<lambda>s. s), lib_rfc1123z = (\<lambda>t. ''Thu, 01 Jan 1970 00:00:00 +0000''),
     lib_quote = (\<lambda>s. s), lib_unicode_lower = (\<lambda>s. s), lib_unicode_fold = (=), lib_strip_unicode_space = (\<lambda>s. s),
     lib_trim_unicode_space = (\<lambda>s. s)\<rparr>"

definition stamp0 :: string where "stamp0 = ''2026-01-01T00:00:00Z''"
definition stamp1 :: string where "stamp1 = ''2026-01-01T00:01:00Z''"
definition stamp2 :: string where "stamp2 = ''2026-01-02T00:00:00Z''"

definition sample_domain :: "int \<Rightarrow> string \<Rightarrow> bool \<Rightarrow> domain" where
  "sample_domain i name ok = \<lparr>d_id = i, d_name = name, d_selector = ''s1'', d_private_key = ''pem'',
     d_spf = ok, d_dkim = ok, d_dmarc = ok, d_last_checked = stamp0, d_created = stamp0\<rparr>"

definition sample_key :: "int \<Rightarrow> string \<Rightarrow> int \<Rightarrow> bool \<Rightarrow> api_key" where
  "sample_key i token d gone = \<lparr>k_id = i, k_name = ''app'', k_hash = ''h'' @ token, k_domain_id = d,
     k_revoked = gone, k_last_used = [], k_created = stamp0\<rparr>"

definition sample_email :: "int \<Rightarrow> string \<Rightarrow> string option \<Rightarrow> email_row" where
  "sample_email i st idem = \<lparr>er_id = i, er_api_key_id = Some 1, er_domain_id = 1, er_from = ''a@ok.nl'',
     er_to = ''b@x.nl'', er_from_name = [], er_to_name = [], er_original_to = [], er_reply_to = [],
     er_subject = ''Hi'', er_html = [], er_text = ''hello'', er_headers = ''{}'', er_status = st,
     er_attempts = 0, er_next = stamp0, er_error = [], er_idem = idem, er_system = False,
     er_created = stamp0, er_sent = []\<rparr>"

definition sample_store :: store where
  "sample_store = \<lparr>t_domains = [sample_domain 1 ''ok.nl'' True, sample_domain 2 ''new.nl'' False],
     t_keys = [sample_key 1 ''t1'' 1 False, sample_key 2 ''t2'' 2 False, sample_key 3 ''t3'' 1 True],
     t_emails = [sample_email 1 ''queued'' (Some ''k1''), sample_email 2 ''sending'' None,
                 sample_email 3 ''sent'' None, sample_email 4 ''failed'' (Some ''k4''), sample_email 5 ''queued'' None],
     t_attempts = [], t_state = [], t_pending = [], db_script = [],
     db_clock = Date 2026 1 2 0 0 0 0\<rparr>"

lemmas sample_defs = sample_libs_def sample_domain_def sample_key_def sample_email_def sample_store_def
  stamp0_def stamp1_def stamp2_def

lemma sample_store_sel [simp]:
  "t_domains sample_store = [sample_domain 1 ''ok.nl'' True, sample_domain 2 ''new.nl'' False]"
  "t_keys sample_store = [sample_key 1 ''t1'' 1 False, sample_key 2 ''t2'' 2 False, sample_key 3 ''t3'' 1 True]"
  "t_emails sample_store = [sample_email 1 ''queued'' (Some ''k1''), sample_email 2 ''sending'' None,
                 sample_email 3 ''sent'' None, sample_email 4 ''failed'' (Some ''k4''), sample_email 5 ''queued'' None]"
  "t_attempts sample_store = []" "t_state sample_store = []" "t_pending sample_store = []"
  "db_script sample_store = []"
  by (simp_all add: sample_store_def)

lemma wf_sample_store: "wf_store sample_store"
  by (simp add: wf_store_def wf_defs keys_ok_def idem_unique_def idem_entry_def email_row_ok_def
      statuses_def sample_domain_def sample_key_def sample_email_def)

lemma healthy_sample_store: "healthy sample_store"
  by (simp add: healthy_def)

text \<open>A send request for the verified domain.\<close>

definition sample_request :: send_request where
  "sample_request = \<lparr>q_from = ''a@ok.nl'', q_to = ''b@x.nl'', q_subject = ''Hi'', q_html = [],
     q_text = ''hello'', q_reply_to = [], q_headers = [(''X-Tag'', ''a'')]\<rparr>"

definition sample_decode :: "nat \<Rightarrow> string \<Rightarrow> decoded" where
  "sample_decode n body = (if n < length body then TooLarge
     else if body = ''ok'' then Decoded sample_request else BadJSON ''EOF'')"

definition sample_http :: "string \<Rightarrow> string \<Rightarrow> http_request" where
  "sample_http token idem = \<lparr>h_authorization = ''Bearer '' @ token, h_idempotency_key = idem,
     h_body = ''ok'', h_path_id = ''1''\<rparr>"

text \<open>A time to run ticks at, and its timestamp.\<close>

definition sample_time :: time where
  "sample_time = Date 2026 2 1 0 0 0 0"

lemma civil_sample_time:
  "civil_of sample_time = \<lparr>c_year = 2026, c_month = 2, c_day = 1, c_hour = 0, c_min = 0, c_sec = 0\<rparr>"
  unfolding sample_time_def by (rule civil_Date) simp

lemma sample_time_stamp: "FmtTime sample_time = ''2026-02-01T00:00:00Z''"
proof -
  have "stampable sample_time" by (simp add: stampable_def civil_sample_time)
  note f = fmt_fixed[OF this]
  have "fixed_digits 4 (nat 2026) = ''2026''" "fixed_digits 2 (nat 2) = ''02''" "fixed_digits 2 (nat 1) = ''01''"
    "fixed_digits 2 (nat 0) = ''00''"
    by (simp_all add: fixed_digits_numeral digit_def char_of_eq_iff)
  then show ?thesis
    unfolding FmtTime_def f civil_sample_time by (simp only: civil.select_convs) simp
qed

end
