(* ===== verification/StoreProps.thy ===== *)
theory StoreProps
  imports Samples QueueLemmas
begin

text \<open>
  Properties of the store and of the queue, each applied to the database of \<open>Samples\<close>.
\<close>

section \<open>Every reachable database\<close>

text \<open>Whatever operations run, in whatever order and with whatever outcomes of their
  statements, the database keeps its keys, unique constraints and references, no email has
  another status than the five, and no attempt count is negative.\<close>

theorem store_wf_always:
  "wf_store (run_ops ops ((empty_store t)\<lparr>db_script := scr\<rparr>))"
proof -
  have "wf_store ((empty_store t)\<lparr>db_script := scr\<rparr>)"
    using wf_empty_store[of t] by (simp add: wf_store_def)
  then show ?thesis using wf.keeps_run_ops by (simp add: R_wf_def)
qed

text \<open>No operation deletes or reorders an email, a key, a domain or an attempt, changes what
  an email says or a key or domain is, rewrites an attempt, or gives a revoked key back.\<close>

theorem store_append_only:
  "prefix (map letter (t_emails s)) (map letter (t_emails (run_ops ops s))) \<and>
   prefix (map key_identity (t_keys s)) (map key_identity (t_keys (run_ops ops s))) \<and>
   prefix (map domain_identity (t_domains s)) (map domain_identity (t_domains (run_ops ops s))) \<and>
   prefix (t_attempts s) (t_attempts (run_ops ops s)) \<and>
   revoked_ids s \<subseteq> revoked_ids (run_ops ops s)"
  using history.keeps_run_ops[of s ops] by (simp add: R_history_def)

section \<open>Claiming\<close>

text \<open>C26. A claim takes only due emails, as many as the limit allows, those due earliest first;
  it marks exactly these as sending, from now, and returns them as they are after that.\<close>

theorem ClaimDue_spec:
  assumes "healthy s" "wf_store s" "0 \<le> limit"
  shows "\<exists>es t. ClaimDue limit now s = (Inr es, t) \<and>
    length es = min (nat limit) (length (filter (due now) (t_emails s))) \<and>
    (\<forall>e \<in> set es. \<exists>r \<in> set (t_emails s). due now r \<and> e = scanEmail (claim_row now r)) \<and>
    (\<forall>r \<in> set (t_emails s). \<forall>q \<in> set (t_emails s).
       er_id r \<in> e_id ` set es \<and> due now q \<and> er_id q \<notin> e_id ` set es \<longrightarrow> er_next r \<le> er_next q) \<and>
    t_emails t = update_where (\<lambda>r. er_id r \<in> e_id ` set es) (claim_row now) (t_emails s)"
proof -
  note dist = wf_ids_distinct(3)[OF assms(2)]
  obtain s1 where s1: "env_step s s1" "ClaimDue limit now s = claim_due limit now s1"
    unfolding ClaimDue_def using stmt_healthy[OF assms(1)] by blast
  let ?es = "claimed limit now (t_emails s)"
  let ?t = "s1\<lparr>t_emails := claimed_rows limit now (t_emails s)\<rparr>"
  have "ClaimDue limit now s = (Inr ?es, ?t)"
    using s1 by (simp add: claim_due_eq)
  moreover have "length ?es = min (nat limit) (length (filter (due now) (t_emails s)))"
    using length_claimed[OF dist] length_due_ids[OF assms(3)] by metis
  moreover have "\<forall>e \<in> set ?es. \<exists>r \<in> set (t_emails s). due now r \<and> e = scanEmail (claim_row now r)"
    by (meson claimed_in_rows[OF dist])
  moreover have "\<forall>r \<in> set (t_emails s). \<forall>q \<in> set (t_emails s).
       er_id r \<in> e_id ` set ?es \<and> due now q \<and> er_id q \<notin> e_id ` set ?es \<longrightarrow> er_next r \<le> er_next q"
    unfolding set_ids_claimed using due_ids_earliest[OF dist] by blast
  moreover have "t_emails ?t = update_where (\<lambda>r. er_id r \<in> e_id ` set ?es) (claim_row now) (t_emails s)"
    unfolding set_ids_claimed by (simp add: claimed_rows_def)
  ultimately show ?thesis by (intro exI conjI)
qed

theorem ClaimDue_spec_witness:
  "\<exists>es t. ClaimDue 5 stamp2 sample_store = (Inr es, t) \<and> length es = 2 \<and>
     t_emails t = update_where (\<lambda>r. er_id r \<in> e_id ` set es) (claim_row stamp2) (t_emails sample_store)"
proof -
  have two: "length (filter (due stamp2) (t_emails sample_store)) = 2"
    by (simp add: due_def sample_email_def stamp0_def stamp2_def)
  have "(0::int) \<le> 5" by simp
  then obtain es t where "ClaimDue 5 stamp2 sample_store = (Inr es, t)"
      "length es = min (nat 5) (length (filter (due stamp2) (t_emails sample_store)))"
      "t_emails t = update_where (\<lambda>r. er_id r \<in> e_id ` set es) (claim_row stamp2) (t_emails sample_store)"
    using ClaimDue_spec[OF healthy_sample_store wf_sample_store] by blast
  with two show ?thesis by (intro exI[of _ es] exI[of _ t]) simp
qed

text \<open>C7. Two claims never return the same email, whatever requests, operator actions, further
  claims and recorded attempts come between them, as long as nobody finishes a delivery or
  requeues stale ones.\<close>

theorem claimed_once:
  assumes "wf_store s" "ClaimDue n1 now1 s = (Inr es1, s1)" "list_all leaves_claims ops"
    and "ClaimDue n2 now2 (run_ops ops s1) = (Inr es2, s2)"
  shows "e_id ` set es1 \<inter> e_id ` set es2 = {}"
proof -
  have c1: "es1 = claimed n1 now1 (t_emails s) \<and> t_emails s1 = claimed_rows n1 now1 (t_emails s)"
    using assms(2) unfolding ClaimDue_def by (cases rule: stmt_cases) (auto simp: claim_due_eq)
  have w1: "wf_store s1" using wf.keeps_delivery(2)[of s n1 now1] assms(1,2) by (simp add: R_wf_def)
  let ?s2 = "run_ops ops s1"
  have w2: "wf_store ?s2" using wf.keeps_run_ops[of s1 ops] w1 by (simp add: R_wf_def)
  have c2: "es2 = claimed n2 now2 (t_emails ?s2)"
    using assms(4) unfolding ClaimDue_def by (cases rule: stmt_cases) (auto simp: claim_due_eq)
  have False if e: "e \<in> set es1" "e' \<in> set es2" "e_id e = e_id e'" for e e'
  proof -
    obtain r where "claim_row now1 r \<in> set (t_emails s1)" "e = scanEmail (claim_row now1 r)"
      using claimed_in_rows[OF wf_ids_distinct(3)[OF assms(1)], of e n1 now1] e(1) c1 by metis
    then have in2: "claim_row now1 r \<in> set (t_emails ?s2)" "er_id r = e_id e"
      using R_sending_run_ops[OF assms(3) w1] by (auto simp: R_sending_def)
    obtain q where q: "q \<in> set (t_emails ?s2)" "due now2 q" "e' = scanEmail (claim_row now2 q)"
      using claimed_in_rows[OF wf_ids_distinct(3)[OF w2], of e' n2 now2] e(2) c2 by metis
    have "q = claim_row now1 r"
      using distinct_key_eq[OF wf_ids_distinct(3)[OF w2] q(1) in2(1)] q(3) in2(2) e(3) by simp
    then show False using q(2) by (simp add: due_def)
  qed
  then show ?thesis by fastforce
qed

theorem claimed_once_witness:
  "\<exists>es1 s1 es2 s2. ClaimDue 1 stamp2 sample_store = (Inr es1, s1) \<and>
     ClaimDue 1 stamp2 (run_ops [OpCancel 4] s1) = (Inr es2, s2) \<and>
     map e_id es1 = [1] \<and> map e_id es2 = [5] \<and> e_id ` set es1 \<inter> e_id ` set es2 = {}"
proof -
  define s1 where "s1 = snd (ClaimDue 1 stamp2 sample_store)"
  define es1 where "es1 = claimed 1 stamp2 (t_emails sample_store)"
  have 1: "ClaimDue 1 stamp2 sample_store = (Inr es1, s1)" "db_script s1 = []"
    by (simp_all add: s1_def es1_def ClaimDue_def stmt_def claim_due_eq)
  define s2 where "s2 = snd (ClaimDue 1 stamp2 (run_ops [OpCancel 4] s1))"
  define es2 where "es2 = claimed 1 stamp2 (t_emails (run_ops [OpCancel 4] s1))"
  have 2: "ClaimDue 1 stamp2 (run_ops [OpCancel 4] s1) = (Inr es2, s2)"
    using 1(2) by (simp add: s2_def es2_def ClaimDue_def stmt_def claim_due_eq run_ops_def CancelEmail_def
        guarded_update_def Let_def)
  have s1: "t_emails s1 = [claim_row stamp2 (sample_email 1 ''queued'' (Some ''k1'')), sample_email 2 ''sending'' None,
      sample_email 3 ''sent'' None, sample_email 4 ''failed'' (Some ''k4''), sample_email 5 ''queued'' None]"
    by (simp add: s1_def ClaimDue_def stmt_def claim_due_eq claimed_rows_def due_ids_def due_def
        sql_limit_def update_where_def sample_email_def stamp0_def stamp2_def)
  then have s2: "t_emails (run_ops [OpCancel 4] s1) = t_emails s1"
    using 1(2) by (simp add: run_ops_def CancelEmail_def guarded_update_def stmt_def Let_def
        update_where_def sample_email_def claim_row_def)
  have "map e_id es1 = [1]" "map e_id es2 = [5]"
    unfolding es1_def es2_def ids_claimed s2 s1
    by (simp_all add: due_ids_def due_def sql_limit_def sample_email_def claim_row_def stamp0_def stamp2_def)
  then show ?thesis
    using 1(1) 2 claimed_once[OF wf_sample_store 1(1) _ 2] by (intro exI conjI) simp_all
qed

section \<open>The operator's actions\<close>

text \<open>Cancelling takes an email off the queue exactly when it is queued; otherwise the
  operator is told so and the email stays as it is. No other email changes.\<close>

theorem CancelEmail_spec:
  assumes "healthy s" "wf_store s" "row_of i s = Some r"
  shows "fst (CancelEmail i s) = (if er_status r = ''queued'' then Inr () else Inl ErrNotCancelable) \<and>
    row_of i (snd (CancelEmail i s)) =
      Some (if er_status r = ''queued'' then r\<lparr>er_status := ''canceled''\<rparr> else r) \<and>
    (j \<noteq> i \<longrightarrow> row_of j (snd (CancelEmail i s)) = row_of j s)"
  unfolding CancelEmail_def by (rule guarded_update_row[OF assms]) simp

theorem CancelEmail_spec_witness:
  "fst (CancelEmail 1 sample_store) = Inr () \<and> fst (CancelEmail 2 sample_store) = Inl ErrNotCancelable"
proof -
  have "row_of 1 sample_store = Some (sample_email 1 ''queued'' (Some ''k1''))"
    "row_of 2 sample_store = Some (sample_email 2 ''sending'' None)"
    by (simp_all add: row_of_def sample_email_def)
  from this[THEN CancelEmail_spec[OF healthy_sample_store wf_sample_store]] show ?thesis
    by (simp add: sample_email_def)
qed

text \<open>A requeue is refused exactly for an email that is being sent or has been sent; an
  accepted one is queued again, due now, with its attempts reset.\<close>

theorem RequeueEmail_spec:
  assumes "healthy s" "wf_store s" "row_of i s = Some r"
  shows "fst (RequeueEmail i to nm s) = (if requeueGuard r then Inr () else Inl ErrNotRequeueable) \<and>
    row_of i (snd (RequeueEmail i to nm s)) = Some (if \<not> requeueGuard r then r
       else if to = [] then requeue_row (Now s) r else readdress_row to nm (Now s) r) \<and>
    (j \<noteq> i \<longrightarrow> row_of j (snd (RequeueEmail i to nm s)) = row_of j s)"
  using guarded_update_row[OF assms, of "requeue_row (Now s)" requeueGuard ErrNotRequeueable j]
    guarded_update_row[OF assms, of "readdress_row to nm (Now s)" requeueGuard ErrNotRequeueable j]
  by (simp add: RequeueEmail_def)

theorem RequeueEmail_spec_witness:
  "fst (RequeueEmail 4 [] [] sample_store) = Inr () \<and> fst (RequeueEmail 3 [] [] sample_store) = Inl ErrNotRequeueable"
proof -
  have "row_of 4 sample_store = Some (sample_email 4 ''failed'' (Some ''k4''))"
    "row_of 3 sample_store = Some (sample_email 3 ''sent'' None)"
    by (simp_all add: row_of_def sample_email_def)
  from this[THEN RequeueEmail_spec[OF healthy_sample_store wf_sample_store]] show ?thesis
    by (simp add: sample_email_def requeueGuard_def)
qed

text \<open>Several readdressings of one email in a row.\<close>

definition readdress_all :: "int \<Rightarrow> (string \<times> string) list \<Rightarrow> store \<Rightarrow> store" where
  "readdress_all i ps s = fold (\<lambda>p s. snd (RequeueEmail i (fst p) (snd p) s)) ps s"

lemma readdress_all_row:
  assumes "healthy s" "wf_store s" "row_of i s = Some r" "requeueGuard r" "er_to r \<noteq> []"
    and "\<forall>p \<in> set ps. fst p \<noteq> []"
  shows "\<exists>r'. row_of i (readdress_all i ps s) = Some r' \<and> er_original_to r' =
    (if er_original_to r \<noteq> [] then er_original_to r
     else if \<exists>p \<in> set ps. fst p \<noteq> er_to r then er_to r else [])"
  using assms
proof (induction ps arbitrary: s r)
  case Nil
  then show ?case by (simp add: readdress_all_def)
next
  case (Cons p ps)
  let ?s = "snd (RequeueEmail i (fst p) (snd p) s)"
  let ?r = "readdress_row (fst p) (snd p) (Now s) r"
  have s: "healthy ?s" "wf_store ?s" "row_of i ?s = Some ?r"
    using RequeueEmail_row[OF Cons.prems(1-4), of "fst p" "snd p"] Cons.prems(6) by simp_all
  have "requeueGuard ?r" "er_to ?r \<noteq> []" "\<forall>p \<in> set ps. fst p \<noteq> []"
    using Cons.prems(6) by (simp_all add: requeueGuard_def)
  from Cons.IH[OF s this] obtain r' where
    r': "row_of i (readdress_all i ps ?s) = Some r'" "er_original_to r' =
      (if er_original_to ?r \<noteq> [] then er_original_to ?r
       else if \<exists>q \<in> set ps. fst q \<noteq> er_to ?r then er_to ?r else [])"
    by blast
  have "readdress_all i (p # ps) s = readdress_all i ps ?s" by (simp add: readdress_all_def)
  with r' Cons.prems(5) show ?case by (simp split: if_splits)
qed

text \<open>However often the operator readdresses an email, the row remembers the recipient it was
  first meant for, once and for all, unless the address never changed.\<close>

theorem requeue_keeps_first_recipient:
  assumes "healthy s" "wf_store s" "row_of i s = Some r" "requeueGuard r"
    and "er_original_to r = []" "er_to r \<noteq> []" "\<forall>p \<in> set ps. fst p \<noteq> []" "\<exists>p \<in> set ps. fst p \<noteq> er_to r"
  shows "\<exists>r'. row_of i (readdress_all i ps s) = Some r' \<and> er_original_to r' = er_to r"
  using readdress_all_row[OF assms(1-4,6,7)] assms(5,8) by simp

theorem requeue_keeps_first_recipient_witness:
  "\<exists>r'. row_of 4 (readdress_all 4 [(''c@x.nl'', ''C''), (''d@x.nl'', [])] sample_store) = Some r' \<and>
     er_original_to r' = ''b@x.nl''"
proof -
  have "row_of 4 sample_store = Some (sample_email 4 ''failed'' (Some ''k4''))"
    by (simp add: row_of_def sample_email_def)
  from requeue_keeps_first_recipient[OF healthy_sample_store wf_sample_store this,
      of "[(''c@x.nl'', ''C''), (''d@x.nl'', [])]"] show ?thesis
    by (simp add: sample_email_def requeueGuard_def)
qed

end
