(* ===== verification/Schema.thy ===== *)
theory Schema
  imports Prelude
begin

text \<open>
  The start-up migration of \<^verbatim>\<open>internal/store/store.go\<close>: what \<^verbatim>\<open>migrate\<close> does to the columns
  of the \<open>emails\<close> table of an old, a fresh or a half-migrated database.
\<close>

section \<open>Schema migration\<close>

text \<open>
  \<^verbatim>\<open>migrate\<close> runs \<^verbatim>\<open>ALTER TABLE emails ADD COLUMN\<close> statements on a table that may already
  have the column. The state is the list of the columns of \<open>emails\<close> and the outcomes of
  the statements to come; SQLite answers "duplicate column name: c" when the column exists.
\<close>

type_synonym schema_state = "string list \<times> string option list"

definition alter_add :: "string \<Rightarrow> schema_state \<Rightarrow> string option \<times> schema_state" where
  "alter_add c st = (case st of (cols, script) \<Rightarrow>
     (case script of Some msg # rest \<Rightarrow> (Some msg, (cols, rest))
      | _ \<Rightarrow> if c \<in> set cols then (Some (''duplicate column name: '' @ c), (cols, tl script))
             else (None, (cols @ [c], tl script))))"

definition migration_stmts :: "string list" where
  "migration_stmts = [''from_name'', ''to_name'']"

fun run_migrations :: "string list \<Rightarrow> schema_state \<Rightarrow> string option \<times> schema_state" where
  "run_migrations [] st = (None, st)"
| "run_migrations (c # cs) st =
     (case alter_add c st of (res, st') \<Rightarrow>
        (case res of
           Some msg \<Rightarrow> if \<not> Contains msg ''duplicate column name'' then (Some msg, st')
                       else run_migrations cs st'
         | None \<Rightarrow> run_migrations cs st'))"

definition migrate :: "schema_state \<Rightarrow> string option \<times> schema_state" where
  "migrate = run_migrations migration_stmts"

lemma duplicate_text: "Contains (''duplicate column name: '' @ c) ''duplicate column name''"
  unfolding Contains_iff by (rule exI[of _ "[]"], rule exI[of _ "'': '' @ c"]) simp

text \<open>
  When no statement fails for another reason, the run adds exactly the missing columns, in
  order, at the end.
\<close>

lemma run_migrations_adds:
  "distinct cs \<Longrightarrow>
   run_migrations cs (cols, []) = (None, (cols @ filter (\<lambda>c. c \<notin> set cols) cs, []))"
proof (induction cs arbitrary: cols)
  case Nil
  then show ?case by simp
next
  case (Cons c cs)
  from Cons.prems have "filter (\<lambda>x. x \<noteq> c \<and> x \<notin> set cols) cs = filter (\<lambda>x. x \<notin> set cols) cs"
    by (intro filter_cong) auto
  with Cons show ?case
    using duplicate_text[of c] by (simp add: alter_add_def)
qed

text \<open>A failure that is not about a duplicate column is passed on, and what follows is not run.\<close>

lemma run_migrations_error:
  "\<not> Contains msg ''duplicate column name'' \<Longrightarrow>
   run_migrations (c # cs) (cols, Some msg # rest) = (Some msg, (cols, rest))"
  by (simp add: alter_add_def)

text \<open>Columns are only ever added.\<close>

lemma run_migrations_keeps: "\<exists>new. fst (snd (run_migrations cs st)) = fst st @ new"
proof (induction cs arbitrary: st)
  case Nil
  then show ?case by simp
next
  case (Cons c cs)
  obtain res st' where a: "alter_add c st = (res, st')" by (cases "alter_add c st")
  then have "\<exists>new. fst st' = fst st @ new"
    by (auto simp: alter_add_def split: prod.splits list.splits option.splits if_splits)
  with a Cons[of st'] show ?case by (auto split: option.splits)
qed

section \<open>Opening the database\<close>

text \<open>
  \<^verbatim>\<open>Open\<close> on the columns of \<open>emails\<close>: \<open>None\<close> for a file without the table. The schema is
  one \<^verbatim>\<open>Exec\<close>, with one outcome of the script; its \<^verbatim>\<open>CREATE TABLE IF NOT EXISTS\<close> leaves a
  table that is there as it is.
\<close>

definition email_columns :: "string list" where
  "email_columns = [''id'', ''api_key_id'', ''domain_id'', ''from_addr'', ''to_addr'', ''from_name'',
     ''to_name'', ''original_to'', ''reply_to'', ''subject'', ''body_html'', ''body_text'', ''headers_json'',
     ''status'', ''attempts'', ''next_attempt_at'', ''last_error'', ''idempotency_key'', ''is_system'',
     ''created_at'', ''sent_at'']"

definition exec_schema :: "string list option \<Rightarrow> string option list \<Rightarrow> string option \<times> schema_state" where
  "exec_schema tab script = (case script of
       Some msg # rest \<Rightarrow> (Some msg, (case tab of None \<Rightarrow> [] | Some cols \<Rightarrow> cols, rest))
     | _ \<Rightarrow> (None, (case tab of None \<Rightarrow> email_columns | Some cols \<Rightarrow> cols, tl script)))"

text \<open>The result: the error, whether the handle is left open, and the columns.\<close>

definition Open :: "string option \<Rightarrow> string list option \<Rightarrow> string option list \<Rightarrow> string option \<times> bool \<times> string list" where
  "Open opened tab script =
     (case opened of
        Some msg \<Rightarrow> (Some msg, False, case tab of None \<Rightarrow> [] | Some cols \<Rightarrow> cols)
      | None \<Rightarrow> (case exec_schema tab script of
          (Some msg, st) \<Rightarrow> (Some msg, False, fst st)
        | (None, st) \<Rightarrow> (case migrate st of
            (Some msg, st') \<Rightarrow> (Some msg, False, fst st')
          | (None, st') \<Rightarrow> (None, True, fst st'))))"

lemma Open_handle: "fst (snd (Open opened tab script)) \<longleftrightarrow> fst (Open opened tab script) = None"
  by (auto simp: Open_def split: option.split prod.split)

lemma Open_table: "Open None (Some cols) [] = (None, True, cols @ filter (\<lambda>c. c \<notin> set cols) migration_stmts)"
  using run_migrations_adds[of migration_stmts cols]
  by (simp add: Open_def exec_schema_def migrate_def migration_stmts_def del: run_migrations.simps)

lemma Open_fresh: "Open None None [] = (None, True, email_columns)"
  using run_migrations_adds[of migration_stmts email_columns]
  by (simp add: Open_def exec_schema_def migrate_def migration_stmts_def email_columns_def del: run_migrations.simps)

end
