(* ===== verification/ReportProps.thy ===== *)
theory ReportProps
  imports Samples Reports Schema
begin

text \<open>
  Properties of the reports, of timestamps, of the migration and of the filtered list, each
  applied to a concrete input.
\<close>

section \<open>Figures that add up\<close>

lemma SummaryStats_Inr:
  assumes "SummaryStats lo hi s = (Inr m, t)"
  shows "m = summary_of (filter (in_range lo hi) (t_emails s)) \<and> t_emails t = t_emails s"
  using query_Inr[OF assms[unfolded SummaryStats_def]] by auto

lemma DailyVolume_Inr:
  assumes "DailyVolume lo hi s = (Inr ds, t)"
  shows "ds = map (\<lambda>(day, rs). \<lparr>dc_date = day, dc_sent = count_status [''sent''] rs,
                       dc_failed = count_status [''failed''] rs\<rparr>)
       (groups (\<lambda>r. take 10 (er_created r)) (filter (in_range lo hi) (t_emails s)))"
  using query_Inr[OF assms[unfolded DailyVolume_def]] by auto

lemma DomainVolume_Inr:
  assumes "DomainVolume lo hi s = (Inr ds, t)"
  shows "ds = map (\<lambda>(name, rs). \<lparr>ds_name = name, ds_sent = count_status [''sent''] rs,
                        ds_failed = count_status [''failed''] rs\<rparr>)
       (groups (\<lambda>r. the (domain_name s r))
          (filter (\<lambda>r. in_range lo hi r \<and> domain_name s r \<noteq> None) (t_emails s)))"
proof -
  have t: "env_step s t" using query_Inr[OF assms[unfolded DomainVolume_def]] by simp
  have "domain_name t r = domain_name s r" for r using t by (simp add: domain_name_def)
  with t query_Inr[OF assms[unfolded DomainVolume_def]] show ?thesis by auto
qed

lemma domain_name_wf:
  assumes "wf_store s" "r \<in> set (t_emails s)"
  shows "domain_name s r \<noteq> None"
proof -
  have "er_domain_id r \<in> d_id ` set (t_domains s)"
    using assms by (auto simp: wf_store_def wf_emails_def email_row_ok_def)
  with find_domain show ?thesis unfolding domain_name_def by fastforce
qed

text \<open>In a range of time the daily volumes and the volumes per domain each add up to the
  sent and failed emails of the summary; the four counts of the summary add up to its total,
  and its success rate is a percentage.\<close>

theorem volumes_add_up:
  assumes "wf_store s" "SummaryStats lo hi s = (Inr m, t)" "DailyVolume lo hi s = (Inr days, u)"
    and "DomainVolume lo hi s = (Inr doms, v)"
  shows "sum_list (map dc_sent days) = sm_sent m \<and> sum_list (map dc_failed days) = sm_failed m \<and>
    sum_list (map ds_sent doms) = sm_sent m \<and> sum_list (map ds_failed doms) = sm_failed m \<and>
    sm_sent m + sm_failed m + sm_queued m + sm_canceled m = sm_total m \<and>
    0 \<le> sm_success_rate m \<and> sm_success_rate m \<le> 100 \<and> sorted_wrt (<) (map dc_date days)"
proof -
  let ?rs = "filter (in_range lo hi) (t_emails s)"
  have m: "m = summary_of ?rs" using SummaryStats_Inr[OF assms(2)] by simp
  have ms: "sm_sent m = count_status [''sent''] ?rs" "sm_failed m = count_status [''failed''] ?rs"
    by (simp_all add: m summary_of_def Let_def)
  note days = DailyVolume_Inr[OF assms(3)]
  have day_sums: "sum_list (map dc_sent days) = sm_sent m" "sum_list (map dc_failed days) = sm_failed m"
    unfolding days ms using count_groups[of _ "\<lambda>r. take 10 (er_created r)" ?rs]
    by (simp_all add: comp_def case_prod_unfold)
  have "map dc_date days = map fst (groups (\<lambda>r. take 10 (er_created r)) ?rs)"
    unfolding days by (simp add: comp_def case_prod_unfold)
  then have sorted: "sorted_wrt (<) (map dc_date days)" by (simp only: groups_sorted)
  have "filter (\<lambda>r. in_range lo hi r \<and> domain_name s r \<noteq> None) (t_emails s) = ?rs"
    using domain_name_wf[OF assms(1)] by (intro filter_cong) auto
  then have doms: "doms = map (\<lambda>(name, rs). \<lparr>ds_name = name, ds_sent = count_status [''sent''] rs,
      ds_failed = count_status [''failed''] rs\<rparr>) (groups (\<lambda>r. the (domain_name s r)) ?rs)"
    using DomainVolume_Inr[OF assms(4)] by simp
  have dom_sums: "sum_list (map ds_sent doms) = sm_sent m" "sum_list (map ds_failed doms) = sm_failed m"
    unfolding doms ms using count_groups[of _ "\<lambda>r. the (domain_name s r)" ?rs]
    by (simp_all add: comp_def case_prod_unfold)
  have "\<forall>r \<in> set ?rs. er_status r \<in> statuses"
    using assms(1) by (auto simp: wf_store_def wf_emails_def email_row_ok_def)
  then have "sm_sent m + sm_failed m + sm_queued m + sm_canceled m = sm_total m"
    unfolding m by (rule summary_total)
  with day_sums dom_sums sorted summary_rate[of ?rs] show ?thesis unfolding m[symmetric] by blast
qed

theorem volumes_add_up_witness:
  "\<exists>m days doms. SummaryStats stamp0 stamp2 sample_store = (Inr m, sample_store) \<and>
     DailyVolume stamp0 stamp2 sample_store = (Inr days, sample_store) \<and>
     DomainVolume stamp0 stamp2 sample_store = (Inr doms, sample_store) \<and>
     sum_list (map dc_sent days) = sm_sent m \<and> sum_list (map ds_failed doms) = sm_failed m"
proof -
  have "\<exists>m. SummaryStats stamp0 stamp2 sample_store = (Inr m, sample_store)"
    "\<exists>m. DailyVolume stamp0 stamp2 sample_store = (Inr m, sample_store)"
    "\<exists>m. DomainVolume stamp0 stamp2 sample_store = (Inr m, sample_store)"
    by (simp_all add: SummaryStats_def DailyVolume_def DomainVolume_def query_def stmt_def)
  with volumes_add_up[OF wf_sample_store] show ?thesis by meson
qed

section \<open>Months\<close>

text \<open>C35. The half-open range of timestamps of a month holds exactly the timestamps that start
  with the month, for every month but the last the format can write.\<close>

theorem month_range_exact:
  assumes "parse_month m = Some u" "m \<noteq> ''9999-12''" "stampable t" "er_created r = FmtTime t"
  shows "in_range (fst (monthRange m)) (snd (monthRange m)) r \<longleftrightarrow> take 7 (er_created r) = m"
  using monthRange_month[OF assms(1-3)] by (simp add: in_range_def assms(4))

lemma parse_1970: "parse_month ''1970-01'' = Some (Date 1970 1 1 0 0 0 0)"
  by (simp add: parse_month_def digit_value_def Let_def)

theorem month_range_exact_witness:
  "in_range (fst (monthRange ''1970-01'')) (snd (monthRange ''1970-01''))
     ((sample_email 1 ''sent'' None)\<lparr>er_created := FmtTime 0\<rparr>) \<longleftrightarrow> take 7 (FmtTime 0) = ''1970-01''"
proof -
  have "stampable 0" by (simp add: stampable_iff)
  then show ?thesis
    using month_range_exact[OF parse_1970 _ \<open>stampable 0\<close>,
        of "(sample_email 1 ''sent'' None)\<lparr>er_created := FmtTime 0\<rparr>"] by simp
qed

section \<open>Timestamps in the queue\<close>

lemma window_div: "(now - w * second) div second = now div second - w"
proof -
  have "now - w * second = now + (- w) * second" by simp
  then show ?thesis by (simp only: div_mult_self1)
qed

text \<open>A retry is due from the second it was scheduled for and not before, and an email in
  sending is taken for stale from the second its 45 minutes are over: comparing the texts of
  timestamps is comparing the times.\<close>

theorem queue_times:
  assumes "stampable now" "stampable t" "stampable (now - staleSendingWindow)"
  shows "(due (FmtTime now) (retry_row (FmtTime t) msg r) \<longleftrightarrow> t div second \<le> now div second) \<and>
    (stale (FmtTime (now - staleSendingWindow)) (claim_row (FmtTime t) r) \<longleftrightarrow>
       t div second + 45 * 60 \<le> now div second)"
proof -
  have w: "(now - staleSendingWindow) div second = now div second - 45 * 60"
    using window_div[of now "45 * 60"] by (simp add: staleSendingWindow_def)
  have "due (FmtTime now) (retry_row (FmtTime t) msg r) \<longleftrightarrow> FmtTime t \<le> FmtTime now"
    by (simp add: due_def retry_row_def)
  moreover have "stale (FmtTime (now - staleSendingWindow)) (claim_row (FmtTime t) r) \<longleftrightarrow>
      FmtTime t \<le> FmtTime (now - staleSendingWindow)"
    by (simp add: stale_def)
  ultimately show ?thesis
    using fmt.stamp_le[OF assms(2,1)] fmt.stamp_le[OF assms(2,3)] w by auto
qed

theorem queue_times_witness:
  "due (FmtTime (3600 * second)) (retry_row (FmtTime (60 * second)) [] (sample_email 1 ''sending'' None)) \<and>
   stale (FmtTime (3600 * second - staleSendingWindow)) (claim_row (FmtTime 0) (sample_email 1 ''queued'' None)) \<and>
   \<not> stale (FmtTime (3600 * second - staleSendingWindow)) (claim_row (FmtTime (901 * second)) (sample_email 1 ''queued'' None))"
proof -
  have ok: "stampable (3600 * second)" "stampable (60 * second)" "stampable 0" "stampable (901 * second)"
    "stampable (3600 * second - staleSendingWindow)"
    by (simp_all add: stampable_iff staleSendingWindow_def)
  note q = queue_times[OF ok(1) _ ok(5)]
  show ?thesis
    using q[OF ok(2), of "[]" "sample_email 1 ''sending'' None"] q[OF ok(3), of "[]" "sample_email 1 ''queued'' None"]
      q[OF ok(4), of "[]" "sample_email 1 ''queued'' None"] by simp
qed

section \<open>The migration\<close>

text \<open>Opening brings the table of emails up to date: a new file gets every column, a table from
  before the two names of sender and recipient gets the columns it misses, after its own; and
  opening again changes nothing. The handle is left open exactly when there is no error.\<close>

theorem Open_up_to_date:
  "Open None None [] = (None, True, email_columns) \<and>
   Open None (Some old) [] = (None, True, old @ filter (\<lambda>c. c \<notin> set old) migration_stmts) \<and>
   (let cols = snd (snd (Open None (Some old) [])) in Open None (Some cols) [] = (None, True, cols)) \<and>
   (fst (snd (Open opened tab script)) \<longleftrightarrow> fst (Open opened tab script) = None)"
proof -
  have "filter (\<lambda>c. c \<notin> set (old @ filter (\<lambda>c. c \<notin> set old) migration_stmts)) migration_stmts = []"
    by (auto simp: filter_empty_conv)
  then show ?thesis by (simp only: Open_fresh Open_table Open_handle Let_def snd_conv append_Nil2)
qed

text \<open>Starting up adds the columns an older database lacks, in their order, leaves the others
  as they are, and starting up again changes nothing.\<close>

theorem migrate_adds_missing:
  "migrate (cols, []) =
     (None, (cols @ filter (\<lambda>c. c \<notin> set cols) [''from_name'', ''to_name''], [])) \<and>
   migrate (snd (migrate (cols, []))) = (None, snd (migrate (cols, [])))"
  by (simp only: migrate_def migration_stmts_def) (simp add: run_migrations_adds del: run_migrations.simps)

section \<open>The filtered list\<close>

text \<open>The pages of the list, one after the other, are the matching emails, newest first:
  paging shows none twice and misses none.\<close>

theorem ListEmails_pages:
  assumes "db_script s = []" "0 < n"
  shows "\<exists>pages. (\<forall>k. ListEmails (f\<lparr>f_limit := int n, f_offset := int (k * n)\<rparr>) s = (Inr (pages k), s)) \<and>
    (\<forall>m. concat (map pages [0..<m]) =
       take (m * n) (map scanEmail (newest_first (filter (matches f) (t_emails s))))) \<and>
    sorted_wrt (\<lambda>a b. (er_created b, er_id b) \<le> (er_created a, er_id a))
      (newest_first (filter (matches f) (t_emails s)))"
proof -
  define all where "all = map scanEmail (newest_first (filter (matches f) (t_emails s)))"
  define pages where "pages k = take n (drop (k * n) all)" for k
  have m: "matches (f\<lparr>f_limit := a, f_offset := b\<rparr>) = matches f" for a b
    by (simp add: matches_def fun_eq_iff)
  have "ListEmails (f\<lparr>f_limit := int n, f_offset := int (k * n)\<rparr>) s = (Inr (pages k), s)" for k
    using assms
    by (simp add: ListEmails_def query_def stmt_def m pages_def all_def sql_limit_def sql_offset_def
        take_map drop_map nat_mult_distrib)
  moreover have "concat (map pages [0..<m]) = take (m * n) all" for m
    by (induction m) (simp_all add: pages_def take_add[symmetric] add.commute)
  moreover have "sorted_wrt (\<lambda>a b. (er_created b, er_id b) \<le> (er_created a, er_id a))
      (newest_first (filter (matches f) (t_emails s)))"
    unfolding newest_first_def by (rule sorted_sort_desc)
  ultimately show ?thesis unfolding all_def by (intro exI[of _ pages] conjI allI)
qed

definition queued_filter :: email_filter where
  "queued_filter = \<lparr>f_status = ''queued'', f_domain_id = 0, f_search = [], f_created_from = [],
     f_created_to = [], f_limit = 0, f_offset = 0\<rparr>"

theorem ListEmails_pages_witness:
  "\<exists>pages. (\<forall>k. ListEmails (queued_filter\<lparr>f_limit := int 2, f_offset := int (k * 2)\<rparr>) sample_store
      = (Inr (pages k), sample_store)) \<and> (\<forall>m. concat (map pages [0..<m]) =
     take (m * 2) (map scanEmail (newest_first (filter (matches queued_filter) (t_emails sample_store)))))"
proof -
  have "db_script sample_store = []" "(0::nat) < 2" by simp_all
  from ListEmails_pages[OF this, of queued_filter] show ?thesis by blast
qed

section \<open>Tokens and the key/value state\<close>

text \<open>Two API keys have the same token only if their random bytes are the same; a token is
  twice as long as its bytes and its prefix, and what is stored of it is its hash.\<close>

theorem token_spec:
  assumes "GenerateAPIKey L (Inr b1) = Inr (t1, h1)" "GenerateAPIKey L (Inr b2) = Inr (t2, h2)"
  shows "(t1 = t2 \<longleftrightarrow> b1 = b2) \<and> length t1 = 3 + 2 * length b1 \<and> HasPrefix t1 ''dv_'' \<and>
    h1 = HashAPIKey L t1"
  using assms hex_encode_inj[of b1 b2] by (auto simp: GenerateAPIKey_def Let_def HasPrefix_def)

theorem token_spec_witness:
  "\<exists>t h. GenerateAPIKey sample_libs (Inr ''abcdefghijklmnop'') = Inr (t, h) \<and> length t = 35 \<and>
     h = HashAPIKey sample_libs t"
proof -
  obtain t h where g: "GenerateAPIKey sample_libs (Inr ''abcdefghijklmnop'') = Inr (t, h)"
    by (simp add: GenerateAPIKey_def Let_def)
  with token_spec[OF g g] show ?thesis by simp
qed

text \<open>The notifier's state is a map: a key reads as what was last written under it, any other
  key as before, and a key never written as empty.\<close>

theorem state_law:
  assumes "healthy s" "SetState key val s = (r, t)"
  shows "r = Inr () \<and> fst (GetState k t) =
    Inr (if k = key then val else case map_of (t_state s) k of None \<Rightarrow> [] | Some v \<Rightarrow> v)"
proof -
  obtain s1 where s1: "env_step s s1" "healthy s1" "SetState key val s = (Inr (), upsert_state key val s1)"
    unfolding SetState_def using exec_upd_healthy[OF assms(1)] .
  have t: "t = upsert_state key val s1" "r = Inr ()" using s1(3) assms(2) by simp_all
  have "healthy t" using s1(2) by (simp add: t upsert_state_def)
  then obtain t1 where t1: "env_step t t1" "query_row (\<lambda>s. map_of (t_state s) k) t =
      (case map_of (t_state t1) k of None \<Rightarrow> Inl ErrNoRows | Some a \<Rightarrow> Inr a, t1)"
    using query_row_healthy by blast
  have "map_of (t_state t1) k = (if k = key then Some val else map_of (t_state s) k)"
    using t1(1) s1(1) by (simp add: t map_of_upsert)
  with t1(2) t(2) show ?thesis by (simp add: GetState_def split: option.split)
qed

theorem state_law_witness:
  "fst (GetState ''digest_last_sent'' (snd (SetState ''digest_last_sent'' stamp1 sample_store))) = Inr stamp1"
proof -
  have "SetState ''digest_last_sent'' stamp1 sample_store =
      (Inr (), snd (SetState ''digest_last_sent'' stamp1 sample_store))"
    by (simp add: SetState_def exec_upd_def stmt_def)
  from state_law[OF healthy_sample_store this, of "''digest_last_sent''"] show ?thesis by simp
qed

end
