(* ===== verification/DeliveryProps.thy ===== *)
theory DeliveryProps
  imports Samples
begin

text \<open>
  Properties of building, sending and settling an email, each applied to a concrete input.
\<close>

section \<open>Retries\<close>





section \<open>Messages\<close>

text \<open>C8. In a message that is built, the header a receiver reads holds exactly the fields the
  program writes and the caller's custom ones, one line each, and its body is exactly the
  content: nothing in the email adds, splits or ends a header line.\<close>

theorem header_integrity:
  assumes "BuildMessage L e hostname now mid bnd = Inr msg" "clean_encoders L" "clean hostname"
    and "lib_json_unmarshal L (e_headers e) = Inr custom"
  shows "read_header msg =
    (map (\<lambda>h. header_line (fst h) (snd h)) (fixed_fields L e hostname now mid
       @ map (\<lambda>k. (k, the (map_of custom k))) (sort (map fst custom)) @ [fst (content L e bnd)]),
     snd (content L e bnd))"
  using read_header_built[OF assms] by (simp only: all_fields_def)

lemma sample_clean_encoders: "clean_encoders sample_libs"
  by (simp add: clean_encoders_def sample_libs_def)

definition sample_letter :: "string \<Rightarrow> email" where
  "sample_letter headers = (scanEmail (sample_email 1 ''sending'' None))\<lparr>e_headers := headers\<rparr>"

lemma sample_letter_sel [simp]:
  "e_from_name (sample_letter h) = []" "e_to_name (sample_letter h) = []" "e_from (sample_letter h) = ''a@ok.nl''"
  "e_to (sample_letter h) = ''b@x.nl''" "e_reply_to (sample_letter h) = []" "e_subject (sample_letter h) = ''Hi''"
  "e_headers (sample_letter h) = h" "e_text (sample_letter h) = ''hello''" "e_html (sample_letter h) = []"
  by (simp_all add: sample_letter_def sample_email_def)

lemma sample_json:
  "lib_json_unmarshal sample_libs ''{tag}'' = Inr [(''X-Tag'', ''a'')]"
  "lib_json_unmarshal sample_libs ''{bcc}'' = Inr [(''Bcc: eve@x'', ''a'')]"
  "lib_json_unmarshal sample_libs ''{}'' = Inr []"
  by (simp_all add: sample_libs_def)

lemma ValidateHeader_samples:
  "ValidateHeader sample_libs ''X-Tag'' ''a'' = None" "ValidateHeader sample_libs ''Bcc: eve@x'' ''a'' = None"
  by (simp_all add: ValidateHeader_None ToLower_def is_ascii_def ascii_lower_def reservedHeaders_def
      char_of_eq_iff)

lemma sample_buildable:
  "buildable sample_libs (sample_letter h) [(''X-Tag'', ''a'')]"
  "buildable sample_libs (sample_letter h) [(''Bcc: eve@x'', ''a'')]"
  by (simp_all add: buildable_def FormatAddress_def ValidateHeader_samples)

theorem header_integrity_witness:
  "\<exists>msg. BuildMessage sample_libs (sample_letter ''{tag}'') ''mx.ok.nl'' 0 ''m'' ''b'' = Inr msg \<and>
     snd (read_header msg) = ''hello'' @ [CR, LF] \<and> length (fst (read_header msg)) = 8"
proof -
  obtain msg where b: "BuildMessage sample_libs (sample_letter ''{tag}'') ''mx.ok.nl'' 0 ''m'' ''b'' = Inr msg"
    using BuildMessage_eq(1)[OF _ sample_buildable(1)] sample_json(1) by fastforce
  have "lib_json_unmarshal sample_libs (e_headers (sample_letter ''{tag}'')) = Inr [(''X-Tag'', ''a'')]"
    by (simp add: sample_json)
  from header_integrity[OF b sample_clean_encoders _ this] b show ?thesis
    by (simp add: content_def fixed_fields_def crlf_def)
qed

text \<open>If no custom header has a colon in its name, a receiver sees each header the program
  reserves at most once.\<close>

theorem reserved_headers_once:
  assumes "BuildMessage L e hostname now mid bnd = Inr msg" "clean_encoders L" "clean hostname"
    and "lib_json_unmarshal L (e_headers e) = Inr custom"
    and "n \<in> set reservedHeaders" "\<forall>h \<in> set custom. CHR '':'' \<notin> set (fst h)"
  shows "fields_named L n (fst (read_header msg)) \<le> 1"
proof -
  have "buildable L e custom"
    using BuildMessage_eq(2)[OF assms(4), of hostname now mid bnd] assms(1) by auto
  from reserved_once[OF this assms(5,6)] show ?thesis
    using read_header_built[OF assms(1-4)] by simp
qed

theorem reserved_headers_once_witness:
  "\<exists>msg. BuildMessage sample_libs (sample_letter ''{tag}'') ''mx.ok.nl'' 0 ''m'' ''b'' = Inr msg \<and>
     fields_named sample_libs ''bcc'' (fst (read_header msg)) \<le> 1"
proof -
  obtain msg where b: "BuildMessage sample_libs (sample_letter ''{tag}'') ''mx.ok.nl'' 0 ''m'' ''b'' = Inr msg"
    using BuildMessage_eq(1)[OF _ sample_buildable(1)] sample_json(1) by fastforce
  have "lib_json_unmarshal sample_libs (e_headers (sample_letter ''{tag}'')) = Inr [(''X-Tag'', ''a'')]"
    by (simp add: sample_json)
  from reserved_headers_once[OF b sample_clean_encoders _ this, of "''bcc''"] b show ?thesis
    by (simp add: reservedHeaders_def)
qed

text \<open>With a colon in its name a custom header gets past the check for reserved names: a header
  named "Bcc: eve@x" is accepted, and the receiver reads a Bcc field.\<close>

theorem reserved_header_bypass:
  "ValidateHeader sample_libs ''Bcc: eve@x'' ''a'' = None \<and>
   (\<exists>msg. BuildMessage sample_libs (sample_letter ''{bcc}'') ''mx.ok.nl'' 0 ''m'' ''b'' = Inr msg \<and>
     fields_named sample_libs ''bcc'' (fst (read_header msg)) = 1)"
proof -
  have j: "lib_json_unmarshal sample_libs (e_headers (sample_letter ''{bcc}'')) = Inr [(''Bcc: eve@x'', ''a'')]"
    by (simp add: sample_json)
  obtain msg where b: "BuildMessage sample_libs (sample_letter ''{bcc}'') ''mx.ok.nl'' 0 ''m'' ''b'' = Inr msg"
    using BuildMessage_eq(1)[OF j sample_buildable(2)] by blast
  have "fields_named sample_libs ''bcc'' (fst (read_header msg)) = 1"
    using read_header_built[OF b sample_clean_encoders _ j]
    by (simp add: all_fields_def content_def fixed_fields_def fields_named_def field_name_def header_line_def
        ToLower_def is_ascii_def ascii_lower_def char_of_eq_iff)
  with b ValidateHeader_samples(2) show ?thesis by blast
qed

text \<open>The body sent has no line feed without a carriage return before it, says the same as the
  email with its line endings normalised, and normalising it again changes nothing.\<close>

theorem crlf_normal_form:
  "no_bare_lf p (crlf s) \<and> crlf_to_lf (crlf s) = crlf_to_lf s \<and> crlf (crlf s) = crlf s"
  by (simp add: crlf_def lf_to_crlf_no_bare crlf_to_lf_roundtrip)

section \<open>Sending\<close>

definition ok_session :: session where
  "ok_session = \<lparr>x_dial = None, x_starttls = None, x_hello_tls = None, x_redial = None, x_hello = None,
     x_mail = None, x_rcpt = None, x_data = None, x_write = None, x_close = None, x_quit = None\<rparr>"

definition sample_signing :: signing where
  "sample_signing = \<lparr>sg_rsa = sample_rsa, sg_sign = (\<lambda>d sel key hs msg. Inr (''DKIM'' @ msg))\<rparr>"

text \<open>A sender that finds two exchangers; \<open>net n\<close> is the session of its n-th visit.\<close>

definition sample_sender :: "(nat \<Rightarrow> session) \<Rightarrow> sender" where
  "sample_sender net = NewSender ''mx.ok.nl'' 25
     (\<lambda>d. Inr [\<lparr>mx_host = ''b.x.nl.'', mx_pref = 20\<rparr>, \<lparr>mx_host = ''a.x.nl.'', mx_pref = 10\<rparr>])
     (sort_key mx_pref) (\<lambda>n h f r m. net n)"

definition sample_send :: "(nat \<Rightarrow> session) \<Rightarrow> result \<times> visit list" where
  "sample_send net = Send sample_libs sample_signing (sample_sender net) 0 1000000 ''m'' ''b''
     (sample_letter ''{}'') (sample_domain 1 ''ok.nl'' True)"

lemma sample_sorts: "sorts_by_pref (sd_sort_mx (sample_sender net))"
  by (simp add: sample_sender_def NewSender_def sorts_by_pref_sort_key)

lemma sample_sender_sel [simp]:
  "sd_hostname (sample_sender net) = ''mx.ok.nl''" "sd_tls (sample_sender net)"
  "sd_sort_mx (sample_sender net) = sort_key mx_pref" "sd_session (sample_sender net) n h f r m = net n"
  "sd_lookup_mx (sample_sender net) d = Inr [\<lparr>mx_host = ''b.x.nl.'', mx_pref = 20\<rparr>,
     \<lparr>mx_host = ''a.x.nl.'', mx_pref = 10\<rparr>]"
  by (simp_all add: sample_sender_def NewSender_def)

lemma sample_send_walk:
  obtains wire where "sample_send net = walk (sample_sender net) 1000000 ''a@ok.nl'' ''b@x.nl'' wire 0
     [\<lparr>mx_host = ''a.x.nl.'', mx_pref = 10\<rparr>, \<lparr>mx_host = ''b.x.nl.'', mx_pref = 20\<rparr>] [] None"
proof -
  have b: "buildable sample_libs (sample_letter ''{}'') []" by (simp add: buildable_def FormatAddress_def)
  have j: "lib_json_unmarshal sample_libs (e_headers (sample_letter ''{}'')) = Inr []" by (simp add: sample_json)
  obtain msg where m: "BuildMessage sample_libs (sample_letter ''{}'') ''mx.ok.nl'' 0 ''m'' ''b'' = Inr msg"
    using BuildMessage_eq(1)[OF j b] by blast
  have "sample_send net = walk (sample_sender net) 1000000 ''a@ok.nl'' ''b@x.nl'' (''DKIM'' @ msg) 0
     [\<lparr>mx_host = ''a.x.nl.'', mx_pref = 10\<rparr>, \<lparr>mx_host = ''b.x.nl.'', mx_pref = 20\<rparr>] [] None"
    by (simp add: sample_send_def Send_def m SignMessage_def sample_signing_def maxMXAttempts_def
        del: walk.simps)
  then show thesis by (rule that)
qed

text \<open>C18. If the program counts an email as sent, then the last exchanger it visited took over
  exactly the signed message built from it, for exactly its sender and recipient, and that
  exchanger is the one it names.\<close>

theorem sent_means_taken:
  assumes "Send L sg sd now dur mid bnd e d = (res, vis)" "r_err res = None"
    and "sorts_by_pref (sd_sort_mx sd)"
  shows "\<exists>msg wire vs v. BuildMessage L e (sd_hostname sd) now mid bnd = Inr msg \<and>
    SignMessage sg msg d = Inr wire \<and> vis = vs @ [v] \<and> v_taken v \<and> v_msg v = wire \<and>
    v_from v = e_from e \<and> v_to v = e_to e \<and> v_host v = r_mx_host res"
  using assms(1)
proof (cases rule: Send_cases)
  case (unsent er)
  with assms(2) show ?thesis by simp
next
  case (walked msg wire mxs0)
  have "\<exists>vs v. vis = vs @ [v] \<and> v_taken v \<and> v_host v = r_mx_host res"
    using walk_success[of sd dur "e_from e" "e_to e" wire 0 "candidates sd e mxs0" "[]" None]
      walked(4) assms(2) candidates_nonempty[OF assms(3)] by simp
  then obtain vs v where v: "vis = vs @ [v]" "v_taken v" "v_host v = r_mx_host res" by blast
  then have "v_msg v = wire \<and> v_from v = e_from e \<and> v_to v = e_to e"
    using walk_visits[of v sd dur "e_from e" "e_to e" wire 0 "candidates sd e mxs0" "[]" None] walked(4)
    by simp
  with v walked(1,2) show ?thesis by blast
qed

theorem sent_means_taken_witness:
  "r_err (fst (sample_send (\<lambda>n. ok_session))) = None \<and>
   (\<exists>vs v. snd (sample_send (\<lambda>n. ok_session)) = vs @ [v] \<and> v_taken v \<and> v_host v = ''a.x.nl'')"
proof -
  obtain wire where w: "sample_send (\<lambda>n. ok_session) = walk (sample_sender (\<lambda>n. ok_session)) 1000000
      ''a@ok.nl'' ''b@x.nl'' wire 0 [\<lparr>mx_host = ''a.x.nl.'', mx_pref = 10\<rparr>, \<lparr>mx_host = ''b.x.nl.'', mx_pref = 20\<rparr>] [] None"
    using sample_send_walk .
  have host: "TrimSuffix ''a.x.nl.'' ''.'' = ''a.x.nl''" by (simp add: str_simps)
  have r: "r_err (fst (sample_send (\<lambda>n. ok_session))) = None"
    "r_mx_host (fst (sample_send (\<lambda>n. ok_session))) = ''a.x.nl''"
    unfolding w by (simp_all add: Let_def deliverTo_def connect_def ok_session_def host)
  obtain res vis where s: "sample_send (\<lambda>n. ok_session) = (res, vis)" by fastforce
  from sent_means_taken[OF s[unfolded sample_send_def] _ sample_sorts] r s show ?thesis by fastforce
qed

text \<open>C17. A send visits at most three exchangers; and if no server that took the message over
  fails the closing QUIT, then one server has the message when the send succeeds and none has
  it when the send fails.\<close>

theorem taken_at_most_once:
  assumes "quits_cleanly sd" "sorts_by_pref (sd_sort_mx sd)"
  shows "length (snd (Send L sg sd now dur mid bnd e d)) \<le> 3 \<and>
    length (filter v_taken (snd (Send L sg sd now dur mid bnd e d))) =
      (if r_err (fst (Send L sg sd now dur mid bnd e d)) = None then 1 else 0)"
  using Send_bound[of L sg sd now dur mid bnd e d] Send_taken[OF assms, of L sg now dur mid bnd e d]
  by (simp add: maxMXAttempts_def)

theorem taken_at_most_once_witness:
  "length (filter v_taken (snd (sample_send (\<lambda>n. ok_session)))) =
     (if r_err (fst (sample_send (\<lambda>n. ok_session))) = None then 1 else 0)"
proof -
  have "quits_cleanly (sample_sender (\<lambda>n. ok_session))"
    by (simp add: quits_cleanly_def ok_session_def)
  from taken_at_most_once[OF this sample_sorts] show ?thesis
    unfolding sample_send_def by blast
qed


section \<open>Settling\<close>


definition sample_worker :: worker where
  "sample_worker = \<lparr>w_batch_size = 0, w_per_domain_limit = 0, w_on_failure = None\<rparr>"

definition greylisted :: "email \<Rightarrow> domain \<Rightarrow> send_outcome" where
  "greylisted e d = SendDone \<lparr>r_mx_host = ''a.x.nl'', r_code = 451, r_response = ''later'',
     r_duration = 1000000, r_err = Some (SMTPError 451 ''later'' ''451 later''), r_tls = True\<rparr>"

lemma sample_benign: "benign_callback sample_worker"
  by (simp add: benign_callback_def sample_worker_def)



text \<open>C1. On a healthy database a tick settles every email it claims, whatever the sends return
  and in whatever order they end: none of them is left in sending, each has one more attempt in
  the log with the number that follows, and the other emails are as the requeue of stale ones
  left them.\<close>

theorem tick_settles:
  fixes now :: time
  assumes "healthy s" "wf_store s" "benign_callback w" "\<And>es. mset (order es) = mset es"
  defines "es \<equiv> tick_emails w now (t_emails s)"
  shows "fst (Tick w send order now s) = None \<and>
    (\<forall>r \<in> set (t_emails (snd (Tick w send order now s))).
       (er_id r \<in> e_id ` set es \<longrightarrow> er_status r \<noteq> ''sending'') \<and>
       (er_id r \<notin> e_id ` set es \<longrightarrow> r \<in> set (unstuck now (t_emails s)))) \<and>
    (\<exists>as. t_attempts (snd (Tick w send order now s)) = t_attempts s @ as \<and>
       map (\<lambda>a. (a_email_id a, a_no a)) as = map (\<lambda>e. (e_id e, e_attempts e + 1)) (order es))"
proof -
  let ?rs = "claimed_rows (batch_size w) (FmtTime now) (unstuck now (t_emails s))"
  let ?t = "snd (Tick w send order now s)"
  obtain tm as where t: "fst (Tick w send order now s) = None"
      "t_emails ?t = settle_rows (verdict_in (t_domains s) send now) tm (order es) ?rs"
      "t_attempts ?t = t_attempts s @ as"
      "map (\<lambda>a. (a_email_id a, a_no a)) as = map (\<lambda>e. (e_id e, e_attempts e + 1)) (order es)"
    using Tick_healthy[OF assms(1-4), of send now] by (auto simp: delivery_tables_def es_def)
  have ids: "e_id ` set (order es) = e_id ` set es" using assms(4)[of es] by (metis set_mset_mset)
  have set_es: "e_id ` set es = set (due_ids (batch_size w) (FmtTime now) (unstuck now (t_emails s)))"
    unfolding es_def tick_emails_def by (rule set_ids_claimed)
  have "(er_id r \<in> e_id ` set es \<longrightarrow> er_status r \<noteq> ''sending'') \<and>
      (er_id r \<notin> e_id ` set es \<longrightarrow> r \<in> set (unstuck now (t_emails s)))" if r: "r \<in> set (t_emails ?t)" for r
  proof -
    obtain q where q: "q \<in> set ?rs" "r = (case find (\<lambda>e. e_id e = er_id q) (order es) of
        None \<Rightarrow> q | Some e \<Rightarrow> apply_verdict (verdict_in (t_domains s) send now e) (tm (er_id q)) q)"
      using r unfolding t(2) settle_rows_def by auto
    show ?thesis
    proof (cases "find (\<lambda>e. e_id e = er_id q) (order es)")
      case None
      then have "er_id q \<notin> e_id ` set (order es)" by (auto simp: find_None_notin)
      moreover from this have "q \<in> set (unstuck now (t_emails s))"
        using q(1) unfolding ids set_es by (auto simp: claimed_rows_def set_update_where)
      ultimately show ?thesis using q(2) None ids by simp
    next
      case (Some e)
      then have "er_id q \<in> e_id ` set (order es)" using find_Some_in[OF Some] by (metis image_eqI)
      then show ?thesis
        using q(2) Some ids
        by (cases "verdict_in (t_domains s) send now e")
          (auto simp: sent_row_def retry_row_def failed_row_def)
    qed
  qed
  with t(1,3,4) show ?thesis by blast
qed

lemma tick_claims_queued:
  "1 \<in> e_id ` set (tick_emails sample_worker sample_time (t_emails sample_store))"
proof -
  let ?rs = "unstuck sample_time (t_emails sample_store)"
  have "sample_email 1 ''queued'' (Some ''k1'') \<in> set ?rs"
    by (simp add: unstuck_def set_update_where stale_def sample_email_def)
  moreover have "due (FmtTime sample_time) (sample_email 1 ''queued'' (Some ''k1''))"
    unfolding sample_time_stamp by (simp add: due_def sample_email_def stamp0_def)
  moreover have "length ?rs = 5" unfolding unstuck_def by (simp add: length_update_where)
  then have "sql_limit 10 (sort_key er_next (filter (due (FmtTime sample_time)) ?rs)) =
      sort_key er_next (filter (due (FmtTime sample_time)) ?rs)"
    using length_filter_le[of "due (FmtTime sample_time)" ?rs] by (simp add: sql_limit_def)
  ultimately have "er_id (sample_email 1 ''queued'' (Some ''k1'')) \<in> set (due_ids 10 (FmtTime sample_time) ?rs)"
    unfolding due_ids_def by (simp only: set_map set_sort set_filter) (rule imageI, simp)
  then show ?thesis
    by (simp add: tick_emails_def set_ids_claimed batch_size_def sample_worker_def sample_email_def)
qed

theorem tick_settles_witness:
  "fst (Tick sample_worker greylisted rev sample_time sample_store) = None \<and>
   1 \<in> e_id ` set (tick_emails sample_worker sample_time (t_emails sample_store)) \<and>
   filter (\<lambda>r. er_id r \<in> e_id ` set (tick_emails sample_worker sample_time (t_emails sample_store)) \<and>
      er_status r = ''sending'') (t_emails (snd (Tick sample_worker greylisted rev sample_time sample_store))) = []"
  using tick_settles[OF healthy_sample_store wf_sample_store sample_benign,
      where order = rev and now = sample_time and send = greylisted] tick_claims_queued
  by (simp add: filter_empty_conv del: sample_store_sel)


end
