(* ===== verification/ApiProps.thy ===== *)
theory ApiProps
  imports Samples
begin

text \<open>
  Properties of the HTTP API: what it lets into the queue, for whom, how often, and what it
  lets a key see, each applied to a concrete request.
\<close>

section \<open>What gets in\<close>

text \<open>C3. The API adds an email to the queue only for a key that is known and not revoked, whose
  domain is verified in all three records and is the domain of the sender's address; it adds
  one row, with what was asked, and answers 202 with its id. In every other case the queue is
  unchanged and the answer is not 202.\<close>

theorem api_fails_closed:
  assumes "postEmail L decode (\<lambda>_. id) rq s = (resp, t)"
  shows "t_emails t = t_emails s \<and> rs_code resp \<noteq> 202 \<or>
    (\<exists>k q frm rcpt d i now. k \<in> set (t_keys s) \<and> \<not> k_revoked k \<and>
      k_hash k = HashAPIKey L (bearer_token (h_authorization rq)) \<and>
      decode maxRequestBodyBytes (h_body rq) = Decoded q \<and> validate_request L q = Inr (frm, rcpt) \<and>
      d \<in> set (t_domains s) \<and> d_id d = k_domain_id k \<and> Verified d \<and>
      EqualFold L (after_at (snd frm)) (d_name d) \<and>
      t_emails t = t_emails s @ [requested_row L rq k d frm rcpt q i now] \<and>
      resp = writeJSON 202 (QueuedBody i ''queued''))"
  by (rule postEmail_adds[OF assms])

lemma sample_bearer:
  "bearer_token (h_authorization (sample_http tok idem)) = tok"
  by (simp add: sample_http_def bearer_token_def str_simps)

theorem api_fails_closed_witness:
  "t_emails (snd (postEmail sample_libs sample_decode (\<lambda>_. id) (sample_http ''t2'' []) sample_store))
     = t_emails sample_store"
proof -
  obtain resp t where p: "postEmail sample_libs sample_decode (\<lambda>_. id) (sample_http ''t2'' []) sample_store = (resp, t)"
    by fastforce
  have "k = sample_key 2 ''t2'' 2 False" if "k \<in> set (t_keys sample_store)"
      "k_hash k = HashAPIKey sample_libs ''t2''" for k
    using that by (auto simp: sample_key_def HashAPIKey_def sample_libs_def)
  moreover have "\<not> Verified d" if "d \<in> set (t_domains sample_store)" "d_id d = 2" for d
    using that by (auto simp: sample_domain_def Verified_def)
  ultimately show ?thesis
    using api_fails_closed[OF p] p unfolding sample_bearer by (fastforce simp: sample_key_def)
qed


lemma sample_validates:
  "validate_request sample_libs sample_request = Inr (([], ''a@ok.nl''), ([], ''b@x.nl''))"
proof -
  have "ValidateHeader sample_libs ''X-Tag'' ''a'' = None"
    by (simp add: ValidateHeader_None ToLower_def is_ascii_def ascii_lower_def reservedHeaders_def char_of_eq_iff)
  then show ?thesis
    by (simp add: validate_request_def sample_request_def sample_libs_def[THEN arg_cong[of _ _ lib_parse_address]]
        FormatAddress_def ValidateHeaderValue_def validateHeaderValue_def ContainsAny_def)
qed


text \<open>Without the condition on the reply address it is not so: a reply address that the address
  parser takes and that has a line break in it passes the API, and the email can never be
  built.\<close>

theorem reply_to_unbuildable:
  "validate_request sample_libs (sample_request\<lparr>q_reply_to := ''c@ok.nl ('' @ [CR, LF] @ '' )''\<rparr>)
     = Inr (([], ''a@ok.nl''), ([], ''b@x.nl'')) \<and>
   (\<exists>er. BuildMessage sample_libs (scanEmail (requested_row sample_libs rq k d ([], ''a@ok.nl'') ([], ''b@x.nl'')
       (sample_request\<lparr>q_reply_to := ''c@ok.nl ('' @ [CR, LF] @ '' )''\<rparr>) i now)) hostname t mid bnd = Inl er)"
proof (rule conjI)
  let ?q = "sample_request\<lparr>q_reply_to := ''c@ok.nl ('' @ [CR, LF] @ '' )''\<rparr>"
  show "validate_request sample_libs ?q = Inr (([], ''a@ok.nl''), ([], ''b@x.nl''))"
    using sample_validates
    by (simp add: validate_request_def sample_request_def sample_libs_def split: option.splits if_splits)
  let ?e = "scanEmail (requested_row sample_libs rq k d ([], ''a@ok.nl'') ([], ''b@x.nl'') ?q i now)"
  have "validateHeaderValue ''Reply-To'' (e_reply_to ?e) \<noteq> None"
    unfolding validateHeaderValue_None by simp
  then have "first_error [validateHeaderValue ''From'' (FormatAddress sample_libs (e_from_name ?e) (e_from ?e)),
      validateHeaderValue ''To'' (FormatAddress sample_libs (e_to_name ?e) (e_to ?e)),
      (if e_reply_to ?e \<noteq> [] then validateHeaderValue ''Reply-To'' (e_reply_to ?e) else None),
      validateHeaderValue ''Subject'' (e_subject ?e)] \<noteq> None"
    unfolding first_error_None by simp
  then show "\<exists>er. BuildMessage sample_libs ?e hostname t mid bnd = Inl er"
    unfolding BuildMessage_def by (simp only: not_None_eq) (elim exE, simp only: option.case, blast)
qed

section \<open>Idempotency\<close>

lemma wf_postEmail:
  "wf_store s \<Longrightarrow> wf_store (snd (postEmail L decode (\<lambda>_. id) rq s))"
  using wf.keeps_postEmail[of "\<lambda>_. id" s L decode rq] by (simp add: R_wf_def)

lemma idem_unique_snoc: "idem_unique (rs @ [r]) \<Longrightarrow> q \<in> set rs \<Longrightarrow> idem_entry q \<noteq> None \<Longrightarrow> idem_entry q \<noteq> idem_entry r"
  by (auto simp: idem_unique_def)

text \<open>C14. A request with an idempotency key that the API key has used before never adds another
  email, whatever its body says and whichever statements fail.\<close>

theorem idempotent_post:
  assumes "wf_store s" "postEmail L decode (\<lambda>_. id) rq s = (resp, t)"
    and "\<And>k. k \<in> set (t_keys s) \<Longrightarrow> k_hash k = HashAPIKey L (bearer_token (h_authorization rq)) \<Longrightarrow>
      \<exists>r \<in> set (t_emails s). er_api_key_id r = Some (k_id k) \<and> er_idem r = Some (h_idempotency_key rq)"
    and "h_idempotency_key rq \<noteq> []"
  shows "t_emails t = t_emails s"
proof (rule ccontr)
  assume "t_emails t \<noteq> t_emails s"
  then obtain k q frm rcpt d i now where k: "k \<in> set (t_keys s)"
      "k_hash k = HashAPIKey L (bearer_token (h_authorization rq))"
      "t_emails t = t_emails s @ [requested_row L rq k d frm rcpt q i now]"
    using postEmail_adds[OF assms(2)] by blast
  obtain r where r: "r \<in> set (t_emails s)" "er_api_key_id r = Some (k_id k)" "er_idem r = Some (h_idempotency_key rq)"
    using assms(3)[OF k(1,2)] by blast
  have "k_id k \<noteq> 0"
    using assms(1) k(1) keys_ok_pos[of k_id "t_keys s" k] by (simp add: wf_store_def wf_keys_def)
  then have "idem_entry r = idem_entry (requested_row L rq k d frm rcpt q i now)" "idem_entry r \<noteq> None"
    using r(2,3) assms(4) by (simp_all add: idem_entry_requested_row) (simp_all add: idem_entry_def)
  moreover have "idem_unique (t_emails t)"
    using wf_postEmail[OF assms(1), of L decode rq] assms(2) by (simp add: wf_store_def wf_emails_def)
  ultimately show False using idem_unique_snoc r(1) unfolding k(3) by blast
qed

theorem idempotent_post_witness:
  "t_emails (snd (postEmail sample_libs sample_decode (\<lambda>_. id) (sample_http ''t1'' ''k1'') sample_store))
     = t_emails sample_store"
proof -
  obtain resp t where p: "postEmail sample_libs sample_decode (\<lambda>_. id) (sample_http ''t1'' ''k1'') sample_store = (resp, t)"
    by fastforce
  have "\<exists>r \<in> set (t_emails sample_store). er_api_key_id r = Some (k_id k) \<and>
      er_idem r = Some (h_idempotency_key (sample_http ''t1'' ''k1''))"
    if "k \<in> set (t_keys sample_store)" "k_hash k = HashAPIKey sample_libs (bearer_token (h_authorization (sample_http ''t1'' ''k1'')))" for k
    using that unfolding sample_bearer
    by (auto simp: sample_key_def HashAPIKey_def sample_libs_def sample_email_def sample_http_def)
  from idempotent_post[OF wf_sample_store p this] p show ?thesis by (simp add: sample_http_def)
qed

text \<open>When an insert loses the race against another request with the same key, or finds the key
  in use, the answer is the email that is already there, and nothing is added.\<close>

theorem enqueue_replays:
  assumes "healthy s" "r \<in> set (t_emails s)" "er_api_key_id r = Some (e_api_key_id e)" "er_idem r = Some (e_idem e)"
    and "e_idem e \<noteq> []" "e_api_key_id e \<noteq> 0" "idem_unique (t_emails s)"
  shows "\<exists>q. fst (enqueueOrReplay (\<lambda>_. id) e s) = Inr (er_id q, er_status q, True) \<and>
    q \<in> set (t_emails s) \<and> er_api_key_id q = Some (e_api_key_id e) \<and> er_idem q = Some (e_idem e) \<and>
    t_emails (snd (enqueueOrReplay (\<lambda>_. id) e s)) = t_emails s"
proof -
  obtain s1 where s1: "env_step s s1" "healthy s1" "EnqueueEmail e s = insert_email (with_defaults (Now s) e) s1"
    unfolding EnqueueEmail_def using stmt_healthy[OF assms(1)] by blast
  let ?new = "new_row (next_rowid (map er_id (t_emails s1))) (with_defaults (Now s) e)"
  have "idem_entry ?new = idem_entry r" "idem_entry r \<noteq> None"
    using assms(3-6) by (simp_all add: idem_entry_def)
  then have "\<exists>msg. EnqueueEmail e s = (Inl (Constraint msg), s1)"
    using assms(2) s1 by (auto simp: insert_email_def Let_def)
  then obtain msg where ins: "EnqueueEmail e s = (Inl (Constraint msg), s1)" by blast
  let ?P = "\<lambda>r. er_api_key_id r = Some (e_api_key_id e) \<and> er_idem r = Some (e_idem e)"
  have "find ?P (t_emails s) \<noteq> None" using assms(2-4) by (auto simp: find_None_notin)
  then obtain q where q: "find ?P (t_emails s) = Some q" by blast
  obtain s2 where s2: "env_step s1 s2" "FindByIdempotencyKey (e_api_key_id e) (e_idem e) s1 =
      (Inr (map_option scanEmail (find ?P (t_emails s2))), s2)"
    unfolding FindByIdempotencyKey_def using null_row_healthy[OF s1(2)] by blast
  have "enqueueOrReplay (\<lambda>_. id) e s = (Inr (er_id q, er_status q, True), s2)"
    using ins s2 s1(1) q assms(5) by (simp add: enqueueOrReplay_def)
  then show ?thesis using find_Some_in[OF q] s2(1) s1(1) by (intro exI[of _ q]) simp
qed

theorem enqueue_replays_witness:
  "\<exists>i. fst (enqueueOrReplay (\<lambda>_. id) (scanEmail (sample_email 9 ''queued'' (Some ''k4''))) sample_store)
     = Inr (i, ''failed'', True)"
proof -
  have u: "idem_unique (t_emails sample_store)" using wf_sample_store by (simp only: wf_store_def wf_emails_def)
  obtain q where q: "fst (enqueueOrReplay (\<lambda>_. id) (scanEmail (sample_email 9 ''queued'' (Some ''k4''))) sample_store)
      = Inr (er_id q, er_status q, True)" "q \<in> set (t_emails sample_store)" "er_idem q = Some ''k4''"
    using enqueue_replays[OF healthy_sample_store, of "sample_email 4 ''failed'' (Some ''k4'')"
        "scanEmail (sample_email 9 ''queued'' (Some ''k4''))"] u
    by (auto simp: scanEmail_def sample_email_def)
  then have "q = sample_email 4 ''failed'' (Some ''k4'')" by (auto simp: sample_email_def)
  with q(1) show ?thesis by (simp add: sample_email_def)
qed

section \<open>What a key may see and for how long\<close>



text \<open>C12. A revoked key never authenticates again, whatever the program does afterwards.\<close>

theorem revoked_stays_out:
  assumes "wf_store s" "i \<in> revoked_ids s" "auth L (\<lambda>_. id) rq (run_ops ops s) = (Inr k, t)"
  shows "k_id k \<noteq> i"
proof
  assume i: "k_id k = i"
  let ?t = "run_ops ops s"
  have "wf_store ?t" using wf.keeps_run_ops[of s ops] assms(1) by (simp add: R_wf_def)
  note dist = wf_ids_distinct(2)[OF this]
  have "i \<in> revoked_ids ?t" using history.keeps_run_ops[of s ops] assms(2) by (auto simp: R_history_def)
  then obtain k' where "k' \<in> set (t_keys ?t)" "k_id k' = i" "k_revoked k'" by (auto simp: revoked_ids_def)
  with distinct_key_eq[OF dist] auth_Inr[OF assms(3)] i show False by metis
qed

theorem revoked_stays_out_witness:
  "\<exists>k t. auth sample_libs (\<lambda>_. id) (sample_http ''t1'' []) (run_ops [OpRevokeKey 2, OpSetState ''x'' []] sample_store)
     = (Inr k, t) \<and> k_id k \<noteq> 3"
proof -
  have "sample_key 3 ''t3'' 1 True \<in> {k \<in> set (t_keys sample_store). k_revoked k}" by (simp add: sample_key_def)
  then have "k_id (sample_key 3 ''t3'' 1 True) \<in> revoked_ids sample_store" unfolding revoked_ids_def by (rule imageI)
  then have gone: "3 \<in> revoked_ids sample_store" by (simp add: sample_key_def)
  have "\<exists>k t. auth sample_libs (\<lambda>_. id) (sample_http ''t1'' []) (run_ops [OpRevokeKey 2, OpSetState ''x'' []] sample_store) = (Inr k, t)"
    using sample_bearer[of "''t1''" "[]"]
    by (simp add: auth_def Let_def run_ops_def RevokeAPIKey_def SetState_def exec_upd_def stmt_def revoke_key_def
        upsert_state_def update_where_def GetAPIKeyByHash_def null_row_def query_row_def sample_key_def
        HashAPIKey_def sample_libs_def) (simp add: sample_http_def)
  then show ?thesis using revoked_stays_out[OF wf_sample_store gone] by blast
qed

section \<open>What the ingress leaves alone\<close>

text \<open>Neither the API nor the operator's cancel and requeue changes an email that is being sent or
  has been sent, nor the log of attempts, whichever statements fail.\<close>

theorem ingress_leaves_settled:
  "set (filter settled (t_emails s)) \<subseteq> set (t_emails (snd (postEmail L decode (\<lambda>_. id) rq s))) \<and>
   set (filter settled (t_emails s)) \<subseteq> set (t_emails (snd (getEmail L (\<lambda>_. id) rq s))) \<and>
   set (filter settled (t_emails s)) \<subseteq> set (t_emails (snd (CancelEmail i s))) \<and>
   set (filter settled (t_emails s)) \<subseteq> set (t_emails (snd (RequeueEmail i to nm s))) \<and>
   t_attempts (snd (postEmail L decode (\<lambda>_. id) rq s)) = t_attempts s"
  using settled.keeps_postEmail[of "\<lambda>_. id" s L decode rq] settled.keeps_getEmail[of "\<lambda>_. id" s L rq]
    settled.keeps_ingress(7)[of s i] settled.keeps_RequeueEmail[of s i to nm]
  by (auto simp: R_settled_def)

end
