(* ===== verification/Config.thy ===== *)
theory Config
  imports Float64
begin

text \<open>
  \<^verbatim>\<open>internal/config/config.go\<close>: the configuration read from the environment. \<open>env\<close> is
  \<^verbatim>\<open>os.Getenv\<close>, \<open>order\<close> the order in which Go ranges over the map of required settings, and
  \<open>float\<close> is \<^verbatim>\<open>strconv.ParseFloat(s, 64)\<close>, the exact value of the \<^verbatim>\<open>float64\<close> or an error.
\<close>

record config =
  cf_hostname :: string
  cf_listen :: string
  cf_data_dir :: string
  cf_admin_password :: string
  cf_admin_email :: string
  cf_system_from :: string
  cf_egress_ip :: string
  cf_public_url :: string
  cf_smtp_port :: int
  cf_min_volume :: int
  cf_threshold :: rat

definition getdef :: "(string \<Rightarrow> string) \<Rightarrow> string \<Rightarrow> string \<Rightarrow> string" where
  "getdef env k d = (if env k \<noteq> [] then env k else d)"

text \<open>
  \<^verbatim>\<open>strconv.Atoi\<close> accepts what \<^verbatim>\<open>ParseInt\<close> does on a 64-bit machine. Its error text is not
  modelled further than that it names the function and the text.
\<close>

definition Atoi :: "string \<Rightarrow> err + int" where
  "Atoi s = (case ParseInt s of None \<Rightarrow> Inl (Plain (''strconv.Atoi: parsing '' @ s)) | Some n \<Rightarrow> Inr n)"

definition intdef :: "(string \<Rightarrow> string) \<Rightarrow> string \<Rightarrow> int \<Rightarrow> err + int" where
  "intdef env k d = (if env k = [] then Inr d
     else case Atoi (env k) of Inl e \<Rightarrow> Inl (Wrapped k e) | Inr n \<Rightarrow> Inr n)"

definition required :: "string list" where
  "required = [''DOEVOE_HOSTNAME'', ''DOEVOE_ADMIN_PASSWORD'', ''DOEVOE_ADMIN_EMAIL'',
     ''DOEVOE_SYSTEM_FROM'', ''DOEVOE_EGRESS_IP'']"

fun missing :: "(string \<Rightarrow> string) \<Rightarrow> string list \<Rightarrow> err option" where
  "missing env [] = None"
| "missing env (k # ks) = (if env k = [] then Some (Plain (k @ '' is required'')) else missing env ks)"

definition Load :: "(string \<Rightarrow> string) \<Rightarrow> (string \<Rightarrow> err + rat) \<Rightarrow> string list \<Rightarrow> err + config" where
  "Load env float order =
     (case missing env order of Some e \<Rightarrow> Inl e
      | None \<Rightarrow>
     (case intdef env ''DOEVOE_SMTP_PORT'' 25 of Inl e \<Rightarrow> Inl e
      | Inr port \<Rightarrow>
     (case intdef env ''DOEVOE_FAILURE_RATE_MIN_VOLUME'' 10 of Inl e \<Rightarrow> Inl e
      | Inr volume \<Rightarrow>
     (let c = \<lparr>cf_hostname = env ''DOEVOE_HOSTNAME'', cf_listen = getdef env ''DOEVOE_LISTEN'' '':8080'',
            cf_data_dir = getdef env ''DOEVOE_DATA_DIR'' ''/data'',
            cf_admin_password = env ''DOEVOE_ADMIN_PASSWORD'', cf_admin_email = env ''DOEVOE_ADMIN_EMAIL'',
            cf_system_from = env ''DOEVOE_SYSTEM_FROM'', cf_egress_ip = env ''DOEVOE_EGRESS_IP'',
            cf_public_url = TrimRight (env ''DOEVOE_PUBLIC_URL'') ''/'', cf_smtp_port = port,
            cf_min_volume = volume, cf_threshold = default_threshold\<rparr>;
          s = env ''DOEVOE_FAILURE_RATE_THRESHOLD''
      in if s = [] then Inr c
         else case float s of Inl e \<Rightarrow> Inl (Wrapped ''DOEVOE_FAILURE_RATE_THRESHOLD'' e)
              | Inr x \<Rightarrow> Inr (c\<lparr>cf_threshold := x\<rparr>)))))"

text \<open>\<^verbatim>\<open>main\<close>'s base URL of links in notifications.\<close>

definition base_url :: "config \<Rightarrow> string" where
  "base_url c = (if cf_public_url c = [] then ''http://'' @ cf_hostname c else cf_public_url c)"

lemma missing_None: "missing env ks = None \<longleftrightarrow> (\<forall>k \<in> set ks. env k \<noteq> [])"
  by (induction ks) auto

lemma missing_Some: "missing env ks = Some e \<Longrightarrow> \<exists>k \<in> set ks. env k = [] \<and> e = Plain (k @ '' is required'')"
  by (induction ks) (auto split: if_splits)

end
