(* ===== verification/ConfigProps.thy ===== *)
theory ConfigProps
  imports Config
begin

text \<open>The properties of the configuration: when it loads, and what a loaded one has.\<close>

lemma ParseInt_range: "ParseInt s = Some i \<Longrightarrow> - (2 ^ 63) \<le> i \<and> i < 2 ^ 63"
  by (auto simp: ParseInt_def Let_def split: if_splits option.splits)

lemma intdef_Inr:
  assumes "intdef env k d = Inr n" "- (2 ^ 63) \<le> d \<and> d < 2 ^ 63"
  shows "- (2 ^ 63) \<le> n \<and> n < 2 ^ 63"
  using assms ParseInt_range[of "env k" n]
  by (auto simp: intdef_def Atoi_def split: if_splits option.splits)

lemma intdef_ok: "(\<exists>n. intdef env k d = Inr n) \<longleftrightarrow> env k = [] \<or> ParseInt (env k) \<noteq> None"
  by (auto simp: intdef_def Atoi_def split: option.split)

lemma TrimRight_suffix: "TrimRight s [c] = [] \<or> last (TrimRight s [c]) \<noteq> c"
  using hd_dropWhile[of "\<lambda>x. x \<in> set [c]" "rev s"]
  by (auto simp: TrimRight_def last_rev)

text \<open>C33. A configuration that loads is complete: every required setting has the value of its
  variable, which is not empty, the address to listen on and the data directory are not empty,
  the integers fit the machine, and the public URL does not end in a slash, so that the links
  in notifications have exactly one.\<close>

theorem Load_complete:
  assumes "Load env flt order = Inr c" "set order = set required"
  shows "cf_hostname c = env ''DOEVOE_HOSTNAME'' \<and> cf_admin_password c = env ''DOEVOE_ADMIN_PASSWORD'' \<and>
    cf_admin_email c = env ''DOEVOE_ADMIN_EMAIL'' \<and> cf_system_from c = env ''DOEVOE_SYSTEM_FROM'' \<and>
    cf_egress_ip c = env ''DOEVOE_EGRESS_IP'' \<and> list_all (\<lambda>v. v \<noteq> []) [cf_hostname c, cf_admin_password c,
      cf_admin_email c, cf_system_from c, cf_egress_ip c, cf_listen c, cf_data_dir c, base_url c] \<and>
    list_all (\<lambda>n. - (2 ^ 63) \<le> n \<and> n < 2 ^ 63) [cf_smtp_port c, cf_min_volume c] \<and>
    (cf_public_url c = [] \<or> last (cf_public_url c) \<noteq> CHR ''/'')"
proof -
  obtain port volume where l: "missing env order = None" "intdef env ''DOEVOE_SMTP_PORT'' 25 = Inr port"
      "intdef env ''DOEVOE_FAILURE_RATE_MIN_VOLUME'' 10 = Inr volume"
    using assms(1) by (auto simp: Load_def split: option.splits sum.splits)
  have req: "\<forall>k \<in> set required. env k \<noteq> []" using l(1) assms(2) missing_None by metis
  have "cf_hostname c = env ''DOEVOE_HOSTNAME'' \<and> cf_admin_password c = env ''DOEVOE_ADMIN_PASSWORD'' \<and>
    cf_admin_email c = env ''DOEVOE_ADMIN_EMAIL'' \<and> cf_system_from c = env ''DOEVOE_SYSTEM_FROM'' \<and>
    cf_egress_ip c = env ''DOEVOE_EGRESS_IP'' \<and> cf_listen c = getdef env ''DOEVOE_LISTEN'' '':8080'' \<and>
    cf_data_dir c = getdef env ''DOEVOE_DATA_DIR'' ''/data'' \<and> cf_smtp_port c = port \<and> cf_min_volume c = volume \<and>
    cf_public_url c = TrimRight (env ''DOEVOE_PUBLIC_URL'') ''/''"
    using assms(1) by (auto simp: Load_def l Let_def split: if_splits sum.splits)
  moreover have "getdef env k d \<noteq> []" if "d \<noteq> []" for k d using that by (simp add: getdef_def)
  moreover have "- (2 ^ 63) \<le> port \<and> port < 2 ^ 63" "- (2 ^ 63) \<le> volume \<and> volume < 2 ^ 63"
    using intdef_Inr[OF l(2)] intdef_Inr[OF l(3)] by simp_all
  moreover have "base_url c \<noteq> []" by (simp add: base_url_def)
  ultimately show ?thesis
    using req TrimRight_suffix[of "env ''DOEVOE_PUBLIC_URL''" "CHR ''/''"] by (simp add: required_def)
qed

text \<open>The configuration loads exactly when every required variable is set, the two integer
  variables are unset or integers, and the threshold is unset or a number. There is no other
  reason for an error.\<close>

theorem Load_refuses:
  assumes "set order = set required"
  shows "(\<exists>e. Load env flt order = Inl e) \<longleftrightarrow> \<not> (list_all (\<lambda>k. env k \<noteq> []) required \<and>
    list_all (\<lambda>k. env k = [] \<or> ParseInt (env k) \<noteq> None) [''DOEVOE_SMTP_PORT'', ''DOEVOE_FAILURE_RATE_MIN_VOLUME''] \<and>
    (env ''DOEVOE_FAILURE_RATE_THRESHOLD'' = [] \<or> (\<exists>x. flt (env ''DOEVOE_FAILURE_RATE_THRESHOLD'') = Inr x)))"
proof -
  have m: "missing env order = None \<longleftrightarrow> list_all (\<lambda>k. env k \<noteq> []) required"
    unfolding missing_None list_all_iff assms ..
  let ?port = "intdef env ''DOEVOE_SMTP_PORT'' 25" and ?vol = "intdef env ''DOEVOE_FAILURE_RATE_MIN_VOLUME'' 10"
  let ?s = "env ''DOEVOE_FAILURE_RATE_THRESHOLD''"
  have "(\<exists>e. Load env flt order = Inl e) \<longleftrightarrow> \<not> (missing env order = None \<and> (\<exists>n. ?port = Inr n) \<and>
      (\<exists>n. ?vol = Inr n) \<and> (?s = [] \<or> (\<exists>x. flt ?s = Inr x)))"
    by (cases "missing env order"; cases ?port; cases ?vol; cases "flt ?s"; cases "?s = []")
      (simp_all add: Load_def Let_def)
  then show ?thesis unfolding m intdef_ok by simp
qed

text \<open>The environment of an installation that sets only what it has to.\<close>

definition sample_env :: "string \<Rightarrow> string" where
  "sample_env k = (if k = ''DOEVOE_SMTP_PORT'' then ''2525'' else if k \<in> set required then k @ ''!'' else [])"

lemma sample_loads: "\<exists>c. Load sample_env (\<lambda>_. Inr 0) required = Inr c \<and> cf_smtp_port c = 2525"
proof -
  have p: "ParseInt ''2525'' = Some 2525" by (simp add: ParseInt_def HasPrefix_def digit_value_def Let_def)
  have "missing sample_env required = None"
    unfolding missing_None by (auto simp: sample_env_def required_def)
  then show ?thesis
    by (simp add: Load_def intdef_def Atoi_def p sample_env_def required_def Let_def)
qed

theorem Load_complete_witness:
  "\<exists>c. Load sample_env (\<lambda>_. Inr 0) required = Inr c \<and> cf_smtp_port c = 2525 \<and> cf_listen c \<noteq> []"
  using sample_loads Load_complete[of sample_env "\<lambda>_. Inr 0" required] by auto

theorem Load_refuses_witness:
  "\<exists>e. Load (sample_env(''DOEVOE_EGRESS_IP'' := [])) (\<lambda>_. Inr 0) (rev required) = Inl e"
proof -
  have "\<not> list_all (\<lambda>k. (sample_env(''DOEVOE_EGRESS_IP'' := [])) k \<noteq> []) required"
    by (simp add: required_def)
  then show ?thesis using Load_refuses[OF set_rev, of "sample_env(''DOEVOE_EGRESS_IP'' := [])"] by blast
qed

end
