(* ===== verification/Dns.thy ===== *)
theory Dns
  imports StoreHistory DkimKeys
begin

text \<open>
  \<^verbatim>\<open>internal/dnscheck\<close> and the loop of \<^verbatim>\<open>cmd/doevoe/main.go\<close> that checks the domains every
  hour. The resolver is the argument \<open>r\<close>, the answer to a TXT query for a name.
\<close>

section \<open>The check of a domain\<close>

record record_result =
  rr_ok :: bool
  rr_found :: string
  rr_expected :: string

record dns_result =
  dr_spf :: record_result
  dr_dkim :: record_result
  dr_dmarc :: record_result
  dr_indeterminate :: bool

definition AllOK :: "dns_result \<Rightarrow> bool" where
  "AllOK res \<longleftrightarrow> rr_ok (dr_spf res) \<and> rr_ok (dr_dkim res) \<and> rr_ok (dr_dmarc res)"

text \<open>A name without the record is an empty answer; any other error is passed on.\<close>

definition lookup_txt :: "(string \<Rightarrow> err + string list) \<Rightarrow> string \<Rightarrow> err + string list" where
  "lookup_txt r name = (case r name of
       Inl er \<Rightarrow> if as_DNSError er = Some True then Inr [] else Inl er
     | Inr txts \<Rightarrow> Inr txts)"

text \<open>The slice a loop ranges over: nil when the lookup failed.\<close>

definition answers :: "err + string list \<Rightarrow> string list" where
  "answers res = (case res of Inl er \<Rightarrow> [] | Inr txts \<Rightarrow> txts)"

definition failed_lookup :: "err + string list \<Rightarrow> bool" where
  "failed_lookup res = (case res of Inl er \<Rightarrow> True | Inr txts \<Rightarrow> False)"

text \<open>The SPF loop, with \<open>found\<close> the last SPF record seen; it stops at the first that fits.\<close>

fun spf_loop :: "string \<Rightarrow> string list \<Rightarrow> string \<Rightarrow> bool \<times> string" where
  "spf_loop ip [] found = (False, found)"
| "spf_loop ip (txt # txts) found =
     (if HasPrefix txt ''v=spf1''
      then if Contains txt (''ip4:'' @ ip) then (True, txt) else spf_loop ip txts txt
      else spf_loop ip txts found)"

fun dmarc_loop :: "string list \<Rightarrow> bool \<times> string \<Rightarrow> bool \<times> string" where
  "dmarc_loop [] acc = acc"
| "dmarc_loop (txt # txts) acc =
     dmarc_loop txts (if HasPrefix txt ''v=DMARC1'' then (True, txt) else acc)"

definition Check ::
    "'a libs_scheme \<Rightarrow> (string \<Rightarrow> err + string list) \<Rightarrow> string \<Rightarrow> string \<Rightarrow> string \<Rightarrow> string \<Rightarrow> dns_result" where
  "Check L r dmn selector pubBase64 egressIP =
     (let spf = lookup_txt r dmn;
          (spfOK, spfFound) = spf_loop egressIP (answers spf) [];
          dkim = lookup_txt r (selector @ ''._domainkey.'' @ dmn);
          dkimTxt = concat (answers dkim);
          dmarc = lookup_txt r (''_dmarc.'' @ dmn);
          (dmarcOK, dmarcFound) = dmarc_loop (answers dmarc) (False, [])
      in \<lparr>dr_spf = \<lparr>rr_ok = spfOK, rr_found = spfFound,
                    rr_expected = ''v=spf1 ip4:'' @ egressIP @ '' -all''\<rparr>,
          dr_dkim = \<lparr>rr_ok = Contains (strip_space L dkimTxt) (''p='' @ pubBase64), rr_found = dkimTxt,
                     rr_expected = ''p='' @ pubBase64\<rparr>,
          dr_dmarc = \<lparr>rr_ok = dmarcOK, rr_found = dmarcFound,
                      rr_expected = ''v=DMARC1; '' @ map char_of [226 :: nat, 128, 166]\<rparr>,
          dr_indeterminate = failed_lookup spf \<or> failed_lookup dkim \<or> failed_lookup dmarc\<rparr>)"

definition no_result :: dns_result where
  "no_result = (let none = \<lparr>rr_ok = False, rr_found = [], rr_expected = []\<rparr>
     in \<lparr>dr_spf = none, dr_dkim = none, dr_dmarc = none, dr_indeterminate = True\<rparr>)"

definition checkDomain ::
    "'a libs_scheme \<Rightarrow> rsa \<Rightarrow> (string \<Rightarrow> err + string list) \<Rightarrow> string \<Rightarrow> domain \<Rightarrow> dns_result" where
  "checkDomain L R r egressIP d = (case PublicB64FromPrivatePEM R (d_private_key d) of
       Inl er \<Rightarrow> no_result
     | Inr pub \<Rightarrow> Check L r (d_name d) (d_selector d) pub egressIP)"

section \<open>The hourly re-check\<close>

text \<open>One round over the listed domains; an error of the update is ignored.\<close>

fun recheck_domains :: "(domain \<Rightarrow> dns_result) \<Rightarrow> domain list \<Rightarrow> store \<Rightarrow> store" where
  "recheck_domains check [] s = s"
| "recheck_domains check (d # ds) s =
     (let res = check d
      in if dr_indeterminate res then recheck_domains check ds s
         else recheck_domains check ds
           (snd (SetDomainVerification (d_id d) (rr_ok (dr_spf res)) (rr_ok (dr_dkim res))
                   (rr_ok (dr_dmarc res)) (Now s) s)))"

definition recheck_round :: "(domain \<Rightarrow> dns_result) \<Rightarrow> store \<Rightarrow> store" where
  "recheck_round check s = (case ListDomains s of
       (Inl er, s1) \<Rightarrow> s1
     | (Inr ds, s1) \<Rightarrow> recheck_domains check ds s1)"

context ingress_guarantee
begin

lemma keeps_recheck_domains: "R s (recheck_domains check ds s)"
proof (induction ds arbitrary: s)
  case (Cons d ds)
  have "R s (recheck_domains check ds (snd (SetDomainVerification i a b c now s)))" for i a b c now
    by (rule R_trans[OF keeps_ingress(2) Cons.IH])
  with Cons.IH show ?case by (simp add: Let_def)
qed (simp add: R_refl)

lemma keeps_recheck_round: "R s (recheck_round check s)"
proof (cases "ListDomains s")
  case (Pair r s1)
  have "R s s1" using keeps_reads(3)[of s] Pair by simp
  with Pair show ?thesis
    using R_trans keeps_recheck_domains by (cases r) (auto simp: recheck_round_def)
qed

end

section \<open>What a check finds\<close>

lemma spf_loop_ok:
  "fst (spf_loop ip txts found) \<longleftrightarrow> (\<exists>txt \<in> set txts. HasPrefix txt ''v=spf1'' \<and> Contains txt (''ip4:'' @ ip))"
  by (induction ip txts found rule: spf_loop.induct) auto

lemma dmarc_loop_ok:
  "fst (dmarc_loop txts acc) \<longleftrightarrow> fst acc \<or> (\<exists>txt \<in> set txts. HasPrefix txt ''v=DMARC1'')"
  by (induction txts acc rule: dmarc_loop.induct) auto

lemma Check_sel:
  "rr_ok (dr_spf (Check L r dmn sel pub ip)) \<longleftrightarrow>
     (\<exists>txt \<in> set (answers (lookup_txt r dmn)). HasPrefix txt ''v=spf1'' \<and> Contains txt (''ip4:'' @ ip))"
  "rr_ok (dr_dkim (Check L r dmn sel pub ip)) \<longleftrightarrow>
     Contains (strip_space L (concat (answers (lookup_txt r (sel @ ''._domainkey.'' @ dmn))))) (''p='' @ pub)"
  "rr_ok (dr_dmarc (Check L r dmn sel pub ip)) \<longleftrightarrow>
     (\<exists>txt \<in> set (answers (lookup_txt r (''_dmarc.'' @ dmn))). HasPrefix txt ''v=DMARC1'')"
  "dr_indeterminate (Check L r dmn sel pub ip) \<longleftrightarrow> failed_lookup (lookup_txt r dmn) \<or>
     failed_lookup (lookup_txt r (sel @ ''._domainkey.'' @ dmn)) \<or> failed_lookup (lookup_txt r (''_dmarc.'' @ dmn))"
  using spf_loop_ok[of ip "answers (lookup_txt r dmn)" "[]"]
    dmarc_loop_ok[of "answers (lookup_txt r (''_dmarc.'' @ dmn))" "(False, [])"]
  by (simp_all add: Check_def Let_def split_beta)

end
