(* ===== verification/DnsProps.thy ===== *)
theory DnsProps
  imports Samples Dns
begin

text \<open>
  Properties of the DNS checks, each applied to a concrete input.
\<close>

section \<open>Publishing what is asked for\<close>

lemma strip_space_ascii:
  "is_ascii s \<Longrightarrow> is_ascii t \<Longrightarrow> strip_space L (s @ t) = strip_space L s @ strip_space L t"
  by (simp add: strip_space_def is_ascii_def)

lemma Contains_suffix: "Contains (a @ p) p"
  using Contains_append[of a p "[]"] by simp

text \<open>C30. A domain whose DNS answers with the records the program asks to publish is found verified in
  all three, however the DKIM record is split into strings.\<close>

theorem published_records_verify:
  assumes "is_ascii pub" "strip_space L pub = pub"
    and "r dmn = Inr [rec_value (Records dmn selector pub ip admin ! 0)]"
    and "r (rec_host (Records dmn selector pub ip admin ! 1) @ ''.'' @ dmn) = Inr parts"
    and "concat parts = rec_value (Records dmn selector pub ip admin ! 1)"
    and "r (rec_host (Records dmn selector pub ip admin ! 2) @ ''.'' @ dmn) =
      Inr [rec_value (Records dmn selector pub ip admin ! 2)]"
  shows "AllOK (Check L r dmn selector pub ip) \<and> \<not> dr_indeterminate (Check L r dmn selector pub ip)"
proof -
  have spf: "lookup_txt r dmn = Inr [''v=spf1 ip4:'' @ ip @ '' -all'']"
    using assms(3) by (simp add: lookup_txt_def Records_def)
  have dkim: "lookup_txt r (selector @ ''._domainkey.'' @ dmn) = Inr parts"
    "concat parts = ''v=DKIM1; k=rsa; p='' @ pub"
    using assms(4,5) by (simp_all add: lookup_txt_def Records_def)
  have dmarc: "lookup_txt r (''_dmarc.'' @ dmn) = Inr [''v=DMARC1; p=quarantine; rua=mailto:'' @ admin]"
    using assms(6) by (simp add: lookup_txt_def Records_def)
  have a: "is_ascii ''v=DKIM1; k=rsa; p=''" by (simp add: is_ascii_def)
  have "strip_space L (''v=DKIM1; k=rsa; p='' @ pub) = ''v=DKIM1;k=rsa;'' @ (''p='' @ pub)"
    unfolding strip_space_ascii[OF a assms(1)] assms(2) by (simp add: strip_space_def is_ascii_def)
  then have "Contains (strip_space L (concat parts)) (''p='' @ pub)"
    unfolding dkim(2) by (simp only: Contains_suffix)
  moreover have "Contains (''v=spf1 '' @ (''ip4:'' @ ip) @ '' -all'') (''ip4:'' @ ip)" by (rule Contains_append)
  then have "Contains (''v=spf1 ip4:'' @ ip @ '' -all'') (''ip4:'' @ ip)" by simp
  ultimately show ?thesis
    unfolding AllOK_def Check_sel spf dkim(1) dmarc
    by (simp add: answers_def failed_lookup_def HasPrefix_def del: Contains.simps)
qed

definition sample_resolver :: "string \<Rightarrow> err + string list" where
  "sample_resolver name =
     (if name = ''ok.nl'' then Inr [''v=spf1 ip4:192.0.2.1 -all'']
      else if name = ''s1._domainkey.ok.nl'' then Inr [''v=DKIM1; k=rsa; '', ''p=MIIB'']
      else if name = ''_dmarc.ok.nl'' then Inr [''v=DMARC1; p=quarantine; rua=mailto:root@ok.nl'']
      else Inl (DNSError True ''no such host''))"

theorem published_records_verify_witness:
  "AllOK (Check sample_libs sample_resolver ''ok.nl'' ''s1'' ''MIIB'' ''192.0.2.1'')"
proof -
  have "is_ascii ''MIIB''" "strip_space sample_libs ''MIIB'' = ''MIIB''"
    by (simp_all add: strip_space_def is_ascii_def)
  from published_records_verify[OF this, of sample_resolver "''ok.nl''" "''s1''" "''192.0.2.1''" "''root@ok.nl''"
      "[''v=DKIM1; k=rsa; '', ''p=MIIB'']"] show ?thesis
    by (simp add: sample_resolver_def Records_def)
qed

text \<open>The SPF check looks for the server's address as a part of the record: a record that only
  allows another address, which continues the server's, counts as verified.\<close>

theorem spf_accepts_other_address:
  "rr_ok (dr_spf (Check L (\<lambda>name. Inr [''v=spf1 ip4:192.0.2.10 -all'']) dmn selector pub ''192.0.2.1''))"
proof -
  have "Contains (''v=spf1 '' @ ''ip4:192.0.2.1'' @ ''0 -all'') ''ip4:192.0.2.1''" by (rule Contains_append)
  then show ?thesis
    unfolding Check_sel by (simp add: lookup_txt_def answers_def HasPrefix_def del: Contains.simps)
qed

section \<open>The hourly round\<close>

text \<open>A domain with the outcome of a check.\<close>

definition checked :: "dns_result \<Rightarrow> string \<Rightarrow> domain \<Rightarrow> domain" where
  "checked res tm d = d\<lparr>d_spf := rr_ok (dr_spf res), d_dkim := rr_ok (dr_dkim res),
     d_dmarc := rr_ok (dr_dmarc res), d_last_checked := tm\<rparr>"






end
