(* ===== verification/Clock.thy ===== *)
theory Clock
  imports Database Stats Reports
begin

text \<open>
  \<^verbatim>\<open>ParseTime\<close> of \<^verbatim>\<open>internal/store/store.go\<close> and the arithmetic on times the notifier uses.
  A timestamp as \<^verbatim>\<open>FmtTime\<close> writes it is parsed here; the other texts RFC 3339 allows
  (fractions of a second, offsets) and the rejected ones go to the argument \<open>other\<close>, which
  stands for \<^verbatim>\<open>time.Parse\<close> on those.
\<close>

definition days_in :: "int \<Rightarrow> int \<Rightarrow> int" where
  "days_in y m = days_before_month (is_leap y) (m + 1) - days_before_month (is_leap y) m"

text \<open>A field: the digits of a part of the text.\<close>

definition field :: "nat \<Rightarrow> nat \<Rightarrow> string \<Rightarrow> nat option" where
  "field i w s = parse_digits 0 (take w (drop i s))"

definition parse_stamp :: "string \<Rightarrow> time option" where
  "parse_stamp s =
     (if length s = 20 \<and> s ! 4 = CHR ''-'' \<and> s ! 7 = CHR ''-'' \<and> s ! 10 = CHR ''T'' \<and>
         s ! 13 = CHR '':'' \<and> s ! 16 = CHR '':'' \<and> s ! 19 = CHR ''Z''
      then case (field 0 4 s, field 5 2 s, field 8 2 s, field 11 2 s, field 14 2 s, field 17 2 s) of
             (Some y, Some mo, Some d, Some h, Some mi, Some sec) \<Rightarrow>
               if 1 \<le> mo \<and> mo \<le> 12 \<and> 1 \<le> d \<and> int d \<le> days_in (int y) (int mo) \<and> h < 24 \<and> mi < 60 \<and> sec < 60
               then Some (Date (int y) (int mo) (int d) (int h) (int mi) (int sec) 0) else None
           | _ \<Rightarrow> None
      else None)"

definition ParseTime :: "(string \<Rightarrow> time) \<Rightarrow> string \<Rightarrow> time" where
  "ParseTime other s = (case parse_stamp s of Some t \<Rightarrow> t | None \<Rightarrow> other s)"

text \<open>\<^verbatim>\<open>t.Sub(u)\<close> saturates at the bounds of a 64-bit duration.\<close>

definition Sub :: "time \<Rightarrow> time \<Rightarrow> duration" where
  "Sub t u = max (- (2 ^ 63)) (min (2 ^ 63 - 1) (t - u))"

lemma Sub_less: "- (2 ^ 63) < d \<Longrightarrow> d < 2 ^ 63 \<Longrightarrow> Sub t u < d \<longleftrightarrow> t - u < d"
  by (auto simp: Sub_def)

section \<open>Reading back what was written\<close>

lemma parse_digits_fixed_digits:
  "n < 10 ^ w \<Longrightarrow> parse_digits 0 (fixed_digits w n) = Some n"
proof (induction w arbitrary: n)
  case (Suc w)
  have d: "digit_value (digit (n mod 10)) = Some (n mod 10)"
  proof -
    have "n mod 10 < 10" by simp
    then have "of_char (digit (n mod 10)) = (48 + n mod 10 :: nat)"
      by (simp add: digit_def of_char_of take_bit_eq_mod)
    then show ?thesis by (simp add: digit_value_def Let_def)
  qed
  have "n div 10 < 10 ^ w" using Suc.prems by (simp add: less_mult_imp_div_less mult.commute)
  from Suc.IH[OF this] d show ?case by (simp add: parse_digits_append)
qed simp

lemma civil_day_bound:
  "c_day (civil_of t) \<le> days_in (c_year (civil_of t)) (c_month (civil_of t))"
  using month_of_bounds[OF day_of_year_bounds, of t]
  by (simp add: civil_of_simps days_in_def)

lemma ParseTime_FmtTime:
  assumes "stampable t"
  shows "ParseTime other (FmtTime t) = t - t mod second"
proof -
  let ?c = "civil_of t"
  let ?y = "nat (c_year ?c)" and ?mo = "nat (c_month ?c)" and ?d = "nat (c_day ?c)"
  let ?h = "nat (c_hour ?c)" and ?mi = "nat (c_min ?c)" and ?s = "nat (c_sec ?c)"
  have r: "0 \<le> c_year ?c" "c_year ?c \<le> 9999" "c_month ?c \<in> {1..12}" "c_day ?c \<in> {1..31}"
    "c_hour ?c \<in> {0..23}" "c_min ?c \<in> {0..59}" "c_sec ?c \<in> {0..59}"
    using assms civil_ranges[of t] by (simp_all add: stampable_def)
  have shape: "FmtTime t = fixed_digits 4 ?y @ ''-'' @ fixed_digits 2 ?mo @ ''-'' @ fixed_digits 2 ?d @ ''T''
      @ fixed_digits 2 ?h @ '':'' @ fixed_digits 2 ?mi @ '':'' @ fixed_digits 2 ?s @ ''Z''"
    by (simp add: FmtTime_def fmt_fixed[OF assms])
  have b: "?y < 10 ^ 4" "?mo < 10 ^ 2" "?d < 10 ^ 2" "?h < 10 ^ 2" "?mi < 10 ^ 2" "?s < 10 ^ 2"
    using r by (simp_all add: nat_less_iff)
  have parts: "field 0 4 (FmtTime t) = Some ?y" "field 5 2 (FmtTime t) = Some ?mo" "field 8 2 (FmtTime t) = Some ?d"
    "field 11 2 (FmtTime t) = Some ?h" "field 14 2 (FmtTime t) = Some ?mi" "field 17 2 (FmtTime t) = Some ?s"
    unfolding field_def shape by (simp_all add: parse_digits_fixed_digits[OF b(1)] parse_digits_fixed_digits[OF b(2)]
        parse_digits_fixed_digits[OF b(3)] parse_digits_fixed_digits[OF b(4)] parse_digits_fixed_digits[OF b(5)]
        parse_digits_fixed_digits[OF b(6)])
  have seps: "length (FmtTime t) = 20" "FmtTime t ! 4 = CHR ''-''" "FmtTime t ! 7 = CHR ''-''" "FmtTime t ! 10 = CHR ''T''"
    "FmtTime t ! 13 = CHR '':''" "FmtTime t ! 16 = CHR '':''" "FmtTime t ! 19 = CHR ''Z''"
    unfolding shape by (simp_all add: nth_append)
  have d0: "Date (c_year ?c) (c_month ?c) (c_day ?c) (c_hour ?c) (c_min ?c) (c_sec ?c) 0 = t - t mod second"
    using Date_civil_of[of t] by (simp add: Date_def Let_def)
  have n: "1 \<le> ?mo" "?mo \<le> 12" "1 \<le> ?d" "?h < 24" "?mi < 60" "?s < 60"
    using r by auto
  have "parse_stamp (FmtTime t) = Some (t - t mod second)"
    unfolding parse_stamp_def parts seps using r n civil_day_bound[of t] d0 by simp
  then show ?thesis by (simp add: ParseTime_def)
qed

end
