(* ===== verification/Notifier.thy ===== *)
theory Notifier
  imports Clock Guarantee "HOL-Library.AList"
begin

text \<open>
  \<^verbatim>\<open>internal/notify/notifier.go\<close>: the notifications the system sends to its operator through
  its own queue. Each handler and each tick is a function on the database; what they keep of
  it is proved in the locales of \<open>Guarantee\<close>. \<open>other\<close> is \<^verbatim>\<open>time.Parse\<close> on texts \<^verbatim>\<open>FmtTime\<close>
  does not write, as in \<open>Clock\<close>.
\<close>

section \<open>The notifier\<close>

record notifier =
  n_admin_email :: string
  n_system_from :: string
  n_base_url :: string
  n_threshold :: rat
  n_min_volume :: int
  n_failure_rate_fn :: "(int \<Rightarrow> string \<Rightarrow> err + nat \<times> nat) option"

definition line_feed :: string where "line_feed = [CHR 0x0A]"

text \<open>U+2014 in UTF-8.\<close>

definition em_dash :: string where "em_dash = [CHR 0xE2, CHR 0x80, CHR 0x94]"

definition system_email :: "notifier \<Rightarrow> int \<Rightarrow> string \<Rightarrow> string \<Rightarrow> email" where
  "system_email n i subject body = \<lparr>e_id = 0, e_api_key_id = 0, e_domain_id = i,
     e_from = n_system_from n, e_to = n_admin_email n, e_from_name = [], e_to_name = [],
     e_original_to = [], e_reply_to = [], e_subject = subject, e_html = [], e_text = body,
     e_headers = [], e_status = [], e_attempts = 0, e_next = [], e_error = [], e_idem = [],
     e_system = True, e_created = [], e_sent = []\<rparr>"

text \<open>False without an error: the system domain is missing or not verified.\<close>

definition enqueue :: "notifier \<Rightarrow> string \<Rightarrow> string \<Rightarrow> bool db" where
  "enqueue n subject body =
     db_bind (GetDomainByName (after_at (n_system_from n))) (\<lambda>d. case d of
       None \<Rightarrow> db_return False
     | Some d \<Rightarrow> if \<not> Verified d then db_return False
         else db_bind (EnqueueEmail (system_email n (d_id d) subject body)) (\<lambda>_. db_return True))"

text \<open>\<^verbatim>\<open>v, _ := n.Store.GetState(key)\<close>: an error reads as the empty string.\<close>

definition read_state :: "string \<Rightarrow> store \<Rightarrow> string \<times> store" where
  "read_state key s = (case GetState key s of (Inl e, s1) \<Rightarrow> ([], s1) | (Inr v, s1) \<Rightarrow> (v, s1))"

section \<open>Callbacks\<close>

definition PermanentFailure :: "int \<Rightarrow> store \<Rightarrow> store" where
  "PermanentFailure emailID s = (case GetEmail emailID s of
       (Inl er, s1) \<Rightarrow> s1
     | (Inr e, s1) \<Rightarrow> if e_system e then s1 else snd (AddPendingFailure emailID s1))"

definition key_message :: "'a libs_scheme \<Rightarrow> notifier \<Rightarrow> string \<Rightarrow> string \<Rightarrow> string \<Rightarrow> string" where
  "key_message L n name domainName verb = ''API key '' @ Quote L name @ '' for domain '' @ domainName
     @ '' was '' @ verb @ ''.'' @ line_feed @ line_feed @ n_base_url n @ ''/admin/keys'' @ line_feed"

definition KeyCreated :: "'a libs_scheme \<Rightarrow> notifier \<Rightarrow> string \<Rightarrow> string \<Rightarrow> store \<Rightarrow> store" where
  "KeyCreated L n name domainName s =
     snd (enqueue n ''doevoe: API key created'' (key_message L n name domainName ''created'') s)"

definition KeyRevoked :: "'a libs_scheme \<Rightarrow> notifier \<Rightarrow> string \<Rightarrow> string \<Rightarrow> store \<Rightarrow> store" where
  "KeyRevoked L n name domainName s =
     snd (enqueue n ''doevoe: API key revoked'' (key_message L n name domainName ''revoked'') s)"

section \<open>The digest of permanent failures\<close>

definition digest_entry :: "'a libs_scheme \<Rightarrow> notifier \<Rightarrow> email \<Rightarrow> string" where
  "digest_entry L n e = ''- To '' @ e_to e @ '' '' @ em_dash @ '' '' @ Quote L (e_subject e) @ line_feed
     @ ''  Error: '' @ e_error e @ line_feed
     @ ''  '' @ n_base_url n @ ''/admin/emails/'' @ Itoa (e_id e) @ line_feed @ line_feed"

definition digest_body :: "'a libs_scheme \<Rightarrow> notifier \<Rightarrow> email list \<Rightarrow> string" where
  "digest_body L n pending = Itoa (int (length pending)) @ '' email(s) permanently failed:''
     @ line_feed @ line_feed @ concat (map (digest_entry L n) pending)
     @ ''Open the links to retry or fix the recipient address.'' @ line_feed"

definition digest_subject :: "email list \<Rightarrow> string" where
  "digest_subject pending = ''doevoe: '' @ Itoa (int (length pending)) @ '' failed email(s)''"

definition send_digest :: "'a libs_scheme \<Rightarrow> notifier \<Rightarrow> time \<Rightarrow> email list \<Rightarrow> unit db" where
  "send_digest L n now pending =
     db_bind (enqueue n (digest_subject pending) (digest_body L n pending)) (\<lambda>sent.
       if \<not> sent then db_return ()
       else db_bind ClearPendingFailures (\<lambda>_. SetState ''digest_last_sent'' (FmtTime now)))"

definition DigestTick :: "'a libs_scheme \<Rightarrow> (string \<Rightarrow> time) \<Rightarrow> notifier \<Rightarrow> time \<Rightarrow> unit db" where
  "DigestTick L other n now =
     db_bind ListPendingFailures (\<lambda>pending.
       if pending = [] then db_return ()
       else (\<lambda>s. case read_state ''digest_last_sent'' s of (sent_at, s1) \<Rightarrow>
         if sent_at \<noteq> [] \<and> Sub now (ParseTime other sent_at) < hour then (Inr (), s1)
         else send_digest L n now pending s1))"

section \<open>The failure-rate alert\<close>

definition failure_rate :: "notifier \<Rightarrow> int \<Rightarrow> string \<Rightarrow> (nat \<times> nat) db" where
  "failure_rate n domainID since = (case n_failure_rate_fn n of
       Some f \<Rightarrow> (\<lambda>s. (f domainID since, s))
     | None \<Rightarrow> FailureRate domainID since)"

definition rate_of :: "nat \<Rightarrow> nat \<Rightarrow> rat" where
  "rate_of failed tries = (if 0 < tries then f_div (f_of_nat failed) (f_of_nat tries) else 0)"

definition alert_body :: "notifier \<Rightarrow> domain \<Rightarrow> rat \<Rightarrow> nat \<Rightarrow> string" where
  "alert_body n d rate tries = fmt_f 0 (f_mul rate 100) @ ''% of the last '' @ Itoa (int tries)
     @ '' delivery attempts for '' @ d_name d @ '' failed in the past hour.'' @ line_feed
     @ ''This can indicate a blocklist or reputation problem.'' @ line_feed @ line_feed
     @ n_base_url n @ ''/admin/emails?domain='' @ Itoa (d_id d) @ ''&status=failed'' @ line_feed"

definition alert_subject :: "domain \<Rightarrow> string" where
  "alert_subject d = ''doevoe: elevated failure rate for '' @ d_name d"

definition rate_key :: "domain \<Rightarrow> string" where
  "rate_key d = ''rate_fired_'' @ d_name d"

text \<open>The \<^verbatim>\<open>switch\<close>: alert, re-arm, or nothing.\<close>

definition decide_alert :: "notifier \<Rightarrow> domain \<Rightarrow> nat \<Rightarrow> nat \<Rightarrow> string \<Rightarrow> unit db" where
  "decide_alert n d failed tries fired =
     (let rate = rate_of failed tries
      in if n_min_volume n \<le> int tries \<and> n_threshold n \<le> rate \<and> fired \<noteq> ''fired''
         then db_bind (enqueue n (alert_subject d) (alert_body n d rate tries))
                (\<lambda>sent. if sent then SetState (rate_key d) ''fired'' else db_return ())
         else if rate < n_threshold n \<and> fired = ''fired'' then SetState (rate_key d) []
         else db_return ())"

text \<open>The body of the loop for one domain; its error is what \<^verbatim>\<open>firstErr\<close> may become.\<close>

definition rate_domain :: "notifier \<Rightarrow> string \<Rightarrow> domain \<Rightarrow> unit db" where
  "rate_domain n since d = db_bind (failure_rate n (d_id d) since) (\<lambda>(failed, tries) s.
     case read_state (rate_key d) s of (fired, s1) \<Rightarrow> decide_alert n d failed tries fired s1)"

fun rate_domains :: "notifier \<Rightarrow> string \<Rightarrow> err option \<Rightarrow> domain list \<Rightarrow> unit db" where
  "rate_domains n since firstErr [] s = (case firstErr of None \<Rightarrow> Inr () | Some e \<Rightarrow> Inl e, s)"
| "rate_domains n since firstErr (d # ds) s =
     (case rate_domain n since d s of
        (Inl e, s1) \<Rightarrow> rate_domains n since (if firstErr = None then Some e else firstErr) ds s1
      | (Inr _, s1) \<Rightarrow> rate_domains n since firstErr ds s1)"

definition RateTick :: "notifier \<Rightarrow> time \<Rightarrow> unit db" where
  "RateTick n now = db_bind ListDomains (rate_domains n (FmtTime (now + (- hour))) None)"

section \<open>The monthly report\<close>

text \<open>\<open>None\<close> is the result with \<open>ok\<close> false, whose rate is 0.\<close>

definition deliveryRate :: "domain_stats \<Rightarrow> rat option" where
  "deliveryRate st = (let tries = ds_sent st + ds_failed st
     in if tries = 0 then None else Some (f_mul (f_div (f_of_nat (ds_sent st)) (f_of_nat tries)) 100))"

definition fmtCounts :: "domain_stats \<Rightarrow> string" where
  "fmtCounts st = Itoa (int (ds_sent st)) @ '' sent, '' @ Itoa (int (ds_failed st)) @ '' failed (''
     @ fmt_f 1 (case deliveryRate st of None \<Rightarrow> 0 | Some r \<Rightarrow> r) @ ''% delivered)''"

definition fmtComparison :: "domain_stats \<Rightarrow> (string \<times> domain_stats) list \<Rightarrow> string" where
  "fmtComparison st prev = (case map_of prev (ds_name st) of
       None \<Rightarrow> '' '' @ em_dash @ '' prev month: no activity''
     | Some p \<Rightarrow> '' '' @ em_dash @ '' prev month: '' @ fmtCounts p @
         (case (deliveryRate st, deliveryRate p) of
            (Some cur, Some old) \<Rightarrow> '', '' @ fmt_plus_f 1 (f_sub cur old) @ ''pt''
          | _ \<Rightarrow> []))"

text \<open>The Go map \<^verbatim>\<open>prevByDomain\<close> is an association list with one entry per name.\<close>

definition by_domain :: "domain_stats list \<Rightarrow> (string \<times> domain_stats) list" where
  "by_domain sts = fold (\<lambda>st. AList.update (ds_name st) st) sts []"

fun active_lines :: "domain_stats list \<Rightarrow> (string \<times> domain_stats) list \<Rightarrow> string \<times> (string \<times> domain_stats) list" where
  "active_lines [] prev = ([], prev)"
| "active_lines (st # sts) prev =
     (case active_lines sts (AList.delete (ds_name st) prev) of (out, left) \<Rightarrow>
       (''- '' @ ds_name st @ '': '' @ fmtCounts st @ fmtComparison st prev @ line_feed @ out, left))"

definition silent_line :: "(string \<times> domain_stats) list \<Rightarrow> domain_stats \<Rightarrow> string" where
  "silent_line left st = (case map_of left (ds_name st) of None \<Rightarrow> []
     | Some _ \<Rightarrow> ''- '' @ ds_name st @ '': no activity '' @ em_dash @ '' prev month: '' @ fmtCounts st @ line_feed)"

definition domain_line :: "domain \<Rightarrow> string" where
  "domain_line d = ''- '' @ d_name d @ '': '' @
     (if Verified d then ''OK'' else ''NOT VERIFIED '' @ em_dash @ '' sending blocked'') @ line_feed"

definition reason_line :: "string \<times> nat \<Rightarrow> string" where
  "reason_line r = ''- '' @ Itoa (int (snd r)) @ ''x '' @ fst r @ line_feed"

definition stats_body ::
    "string \<Rightarrow> domain_stats list \<Rightarrow> domain_stats list \<Rightarrow> (string \<times> nat) list \<Rightarrow> domain list \<Rightarrow> string" where
  "stats_body prev stats prevStats reasons domains =
     (case active_lines stats (by_domain prevStats) of (active, left) \<Rightarrow>
       ''doevoe stats for '' @ prev @ line_feed @ line_feed @ ''Per domain:'' @ line_feed
       @ active @ concat (map (silent_line left) prevStats)
       @ (if stats = [] \<and> left = [] then ''- no email activity'' @ line_feed else [])
       @ (if reasons \<noteq> [] then line_feed @ ''Top failure reasons:'' @ line_feed @ concat (map reason_line reasons)
          else [])
       @ line_feed @ ''DNS verification status:'' @ line_feed @ concat (map domain_line domains))"

text \<open>The month \<open>k\<close> months before the month of a time.\<close>

definition month_before :: "int \<Rightarrow> time \<Rightarrow> string" where
  "month_before k now = (let c = civil_of now
     in fmt_month (AddDate (Date (c_year c) (c_month c) 1 0 0 0 0) 0 (- k) 0))"

definition stats_report :: "notifier \<Rightarrow> time \<Rightarrow> unit db" where
  "stats_report n now = (let prev = month_before 1 now in
     db_bind (MonthlyStats prev) (\<lambda>stats s.
       case or_empty (MonthlyStats (month_before 2 now)) s of (prevStats, s1) \<Rightarrow>
       case or_empty (TopFailureReasons prev 5) s1 of (reasons, s2) \<Rightarrow>
       case or_empty ListDomains s2 of (domains, s3) \<Rightarrow>
         db_bind (enqueue n (''doevoe: monthly stats '' @ prev) (stats_body prev stats prevStats reasons domains))
           (\<lambda>sent. if sent then SetState ''last_stats_sent'' (fmt_month now) else db_return ()) s3))"

definition StatsTick :: "notifier \<Rightarrow> time \<Rightarrow> unit db" where
  "StatsTick n now s = (case read_state ''last_stats_sent'' s of (sent_at, s1) \<Rightarrow>
     if sent_at = [] then SetState ''last_stats_sent'' (fmt_month now) s1
     else if sent_at = fmt_month now then (Inr (), s1)
     else stats_report n now s1)"

text \<open>What \<^verbatim>\<open>Run\<close> does each minute: the three ticks, their errors only logged.\<close>

definition notifier_round :: "'a libs_scheme \<Rightarrow> (string \<Rightarrow> time) \<Rightarrow> notifier \<Rightarrow> time \<Rightarrow> store \<Rightarrow> store" where
  "notifier_round L other n now s =
     snd (StatsTick n now (snd (RateTick n now (snd (DigestTick L other n now s)))))"

section \<open>What the notifier keeps\<close>

context guarantee
begin

lemma keeps_read_state [keeps]: "R s (snd (read_state key s))"
  using keeps_GetState[of s key] by (auto simp: read_state_def split: prod.split sum.split)

lemma keeps_return [keeps]: "R s (snd (db_return a s))"
  by (simp add: db_return_def R_refl)

lemma keeps_failure_rate [keeps]: "R s (snd (failure_rate n i since s))"
  by (auto simp: failure_rate_def R_refl intro: keeps split: option.split)

end

context ingress_guarantee
begin

lemma keeps_enqueue [keeps]: "R s (snd (enqueue n subject body s))"
  unfolding enqueue_def by (rule keeps_bind) (auto intro: keeps split: option.split)

lemma keeps_DigestTick [keeps]: "R s (snd (DigestTick L other n now s))"
  unfolding DigestTick_def send_digest_def
  by (rule keeps_bind) (auto intro!: keeps keeps_then simp: R_refl)

lemma keeps_decide_alert [keeps]: "R s (snd (decide_alert n d failed tries fired s))"
  unfolding decide_alert_def Let_def by (auto intro!: keeps_bind keeps)

lemma keeps_rate_domain [keeps]: "R s (snd (rate_domain n since d s))"
  unfolding rate_domain_def
  apply (rule keeps_bind[OF keeps_failure_rate])
  subgoal for p s by (cases p) (auto intro!: keeps_then keeps_read_state keeps_decide_alert)
  done

lemma keeps_rate_domains [keeps]: "R s (snd (rate_domains n since firstErr ds s))"
proof (induction ds arbitrary: firstErr s)
  case (Cons d ds)
  show ?case
    using keeps_rate_domain[of s n since d] Cons
    by (auto split: prod.split sum.split intro: R_trans)
qed (simp add: R_refl)

lemma keeps_RateTick [keeps]: "R s (snd (RateTick n now s))"
  unfolding RateTick_def by (rule keeps_bind) (rule keeps)+

lemma keeps_stats_report [keeps]: "R s (snd (stats_report n now s))"
  unfolding stats_report_def Let_def
  by (rule keeps_bind) (auto intro!: keeps keeps_then keeps_or_empty)

lemma keeps_StatsTick [keeps]: "R s (snd (StatsTick n now s))"
  unfolding StatsTick_def by (auto intro!: keeps keeps_then simp: R_refl)

lemma keeps_key_notices [keeps]:
  "R s (KeyCreated L n name dmn s)" "R s (KeyRevoked L n name dmn s)"
  by (simp_all add: KeyCreated_def KeyRevoked_def keeps_enqueue)

lemma keeps_notifier_round: "R s (notifier_round L other n now s)"
  unfolding notifier_round_def
  by (rule R_trans[OF R_trans[OF keeps_DigestTick keeps_RateTick] keeps_StatsTick])

end

context callback_guarantee
begin

lemma keeps_PermanentFailure: "R s (PermanentFailure i s)"
proof (cases "GetEmail i s")
  case (Pair r s1)
  then have "R s s1" using keeps_reads(6)[of s i] by simp
  with Pair show ?thesis
    using R_trans[OF _ keeps_AddPendingFailure] by (auto simp: PermanentFailure_def split: sum.split)
qed

end

end
