(* ===== verification/NotifierLemmas.thy ===== *)
theory NotifierLemmas
  imports Notifier Delivery
begin

text \<open>
  What a step of the notifier does to the tables: a notification is one new system email or
  nothing, whatever the statements' outcomes; on a healthy database each step is described
  exactly, up to the clock.
\<close>

section \<open>Steps up to the clock\<close>

lemma env_step_emails:
  "env_step s t \<Longrightarrow> env_step (s\<lparr>t_emails := es\<rparr>) (t\<lparr>t_emails := es\<rparr>)"
  "env_step s t \<Longrightarrow> env_step (s\<lparr>t_pending := ps\<rparr>) (t\<lparr>t_pending := ps\<rparr>)"
  "env_step s t \<Longrightarrow> env_step (s\<lparr>t_state := st\<rparr>) (t\<lparr>t_state := st\<rparr>)"
proof -
  assume "env_step s t"
  then obtain scr c where t: "t = s\<lparr>db_script := scr, db_clock := c\<rparr>" unfolding env_step_def by blast
  show "env_step (s\<lparr>t_state := st\<rparr>) (t\<lparr>t_state := st\<rparr>)"
    unfolding t env_step_def by (rule exI[of _ scr], rule exI[of _ c]) simp
next
  assume "env_step s t"
  then obtain scr c where t: "t = s\<lparr>db_script := scr, db_clock := c\<rparr>" unfolding env_step_def by blast
  show "env_step (s\<lparr>t_pending := ps\<rparr>) (t\<lparr>t_pending := ps\<rparr>)"
    unfolding t env_step_def by (rule exI[of _ scr], rule exI[of _ c]) simp
next
  assume "env_step s t"
  then obtain scr c where t: "t = s\<lparr>db_script := scr, db_clock := c\<rparr>" unfolding env_step_def by blast
  show "env_step (s\<lparr>t_emails := es\<rparr>) (t\<lparr>t_emails := es\<rparr>)"
    unfolding t env_step_def by (rule exI[of _ scr], rule exI[of _ c]) simp
qed

definition system_domain :: "notifier \<Rightarrow> store \<Rightarrow> domain option" where
  "system_domain n s = find (\<lambda>d. d_name d = after_at (n_system_from n)) (t_domains s)"

text \<open>The database can send system notifications.\<close>

definition system_ready :: "notifier \<Rightarrow> store \<Rightarrow> bool" where
  "system_ready n s = (case system_domain n s of None \<Rightarrow> False | Some d \<Rightarrow> Verified d)"

text \<open>The row of a notification.\<close>

definition notice :: "notifier \<Rightarrow> string \<Rightarrow> string \<Rightarrow> store \<Rightarrow> email_row \<Rightarrow> bool" where
  "notice n subject body s r \<longleftrightarrow> er_id r = next_rowid (map er_id (t_emails s)) \<and> er_system r \<and>
     er_status r = ''queued'' \<and> er_attempts r = 0 \<and> er_from r = n_system_from n \<and>
     er_to r = n_admin_email n \<and> er_subject r = subject \<and> er_text r = body \<and>
     (\<exists>d \<in> set (t_domains s). Verified d \<and> d_id d = er_domain_id r \<and> d_name d = after_at (n_system_from n))"

lemma notice_env: "env_step s t \<Longrightarrow> notice n subject body t r = notice n subject body s r"
  by (simp add: notice_def)

lemma notice_row:
  assumes "d \<in> set (t_domains s)" "Verified d" "d_name d = after_at (n_system_from n)"
  shows "notice n subject body s
    (new_row (next_rowid (map er_id (t_emails s))) (with_defaults now (system_email n (d_id d) subject body)))"
  using assms by (auto simp: notice_def new_row_def with_defaults_def system_email_def)

lemma insert_notice:
  assumes "d_id d \<in> d_id ` set (t_domains s)"
  shows "insert_email (with_defaults now (system_email n (d_id d) subject body)) s =
    (let r = new_row (next_rowid (map er_id (t_emails s))) (with_defaults now (system_email n (d_id d) subject body))
     in (Inr (er_id r), s\<lparr>t_emails := t_emails s @ [r]\<rparr>))"
  using assms by (simp add: insert_email_def Let_def with_defaults_def system_email_def new_row_def idem_entry_def)

section \<open>A notification, under any outcomes\<close>

lemma EnqueueEmail_notice:
  assumes d: "d \<in> set (t_domains s)" "Verified d" "d_name d = after_at (n_system_from n)"
    and eq: "EnqueueEmail (system_email n (d_id d) subject body) s = (r, t)"
  shows "(\<exists>er. r = Inl er) \<and> env_step s t \<or>
    (\<exists>i row. r = Inr i \<and> notice n subject body s row \<and> env_step (s\<lparr>t_emails := t_emails s @ [row]\<rparr>) t)"
proof -
  from eq have "stmt (insert_email (with_defaults (Now s) (system_email n (d_id d) subject body))) s = (r, t)"
    by (simp add: EnqueueEmail_def)
  then show ?thesis
  proof (cases rule: stmt_cases)
    case (ok s1)
    let ?row = "new_row (next_rowid (map er_id (t_emails s))) (with_defaults (Now s) (system_email n (d_id d) subject body))"
    have "d_id d \<in> d_id ` set (t_domains s1)" using d ok(1) by simp
    from insert_notice[OF this] ok have "r = Inr (er_id ?row)" "t = s1\<lparr>t_emails := t_emails s @ [?row]\<rparr>"
      by (simp_all add: Let_def)
    then show ?thesis
      using notice_row[OF d, of subject body "Now s"] env_step_emails(1)[OF ok(1), of "t_emails s @ [?row]"]
      by blast
  next
    case (failed msg)
    then show ?thesis by auto
  qed
qed

lemma enqueue_cases:
  assumes "enqueue n subject body s = (r, t)"
  obtains (skipped) "r \<noteq> Inr True" "env_step s t"
    | (queued) row where "r = Inr True" "notice n subject body s row"
        "env_step (s\<lparr>t_emails := t_emails s @ [row]\<rparr>) t"
proof -
  obtain g s1 where g: "GetDomainByName (after_at (n_system_from n)) s = (g, s1)" by fastforce
  have env: "env_step s s1" using g null_row_env unfolding GetDomainByName_def by blast
  show thesis
  proof (cases "\<exists>d. g = Inr (Some d) \<and> Verified d")
    case False
    then have "r \<noteq> Inr True \<and> t = s1"
      using assms g by (auto simp: enqueue_def db_bind_def db_return_def split: sum.splits option.splits if_splits)
    with env skipped show thesis by blast
  next
    case True
    then obtain d where d: "g = Inr (Some d)" "Verified d" by blast
    have "find (\<lambda>d. d_name d = after_at (n_system_from n)) (t_domains s1) = Some d"
      using g d null_row_Some unfolding GetDomainByName_def by metis
    then have ds: "d \<in> set (t_domains s1)" "d_name d = after_at (n_system_from n)"
      by (auto dest: find_Some_in)
    obtain q s2 where q: "EnqueueEmail (system_email n (d_id d) subject body) s1 = (q, s2)" by fastforce
    have rt: "t = s2" "r = (case q of Inl er \<Rightarrow> Inl er | Inr i \<Rightarrow> Inr True)"
      using assms g d q by (auto simp: enqueue_def db_bind_def db_return_def split: sum.splits)
    from EnqueueEmail_notice[OF ds(1) d(2) ds(2) q] show thesis
    proof
      assume "(\<exists>er. q = Inl er) \<and> env_step s1 s2"
      with rt env show thesis by (auto intro: skipped env_step_trans)
    next
      assume "\<exists>i row. q = Inr i \<and> notice n subject body s1 row \<and> env_step (s1\<lparr>t_emails := t_emails s1 @ [row]\<rparr>) s2"
      then obtain i row where i: "q = Inr i" "notice n subject body s row"
          "env_step (s1\<lparr>t_emails := t_emails s @ [row]\<rparr>) s2"
        using env by (auto simp: notice_env)
      then show thesis
        using rt queued env_step_trans[OF env_step_emails(1)[OF env] i(3)] by simp
    qed
  qed
qed

section \<open>On a healthy database\<close>

lemma enqueue_healthy:
  assumes "healthy s"
  obtains (ready) t row where "system_ready n s" "enqueue n subject body s = (Inr True, t)" "healthy t"
      "notice n subject body s row" "env_step (s\<lparr>t_emails := t_emails s @ [row]\<rparr>) t"
    | (not_ready) t where "\<not> system_ready n s" "enqueue n subject body s = (Inr False, t)" "healthy t" "env_step s t"
proof -
  obtain s1 where s1: "env_step s s1" "healthy s1"
      "GetDomainByName (after_at (n_system_from n)) s = (Inr (system_domain n s), s1)"
  proof -
    obtain s1 where s1: "env_step s s1" "healthy s1" "GetDomainByName (after_at (n_system_from n)) s =
        (Inr (find (\<lambda>d. d_name d = after_at (n_system_from n)) (t_domains s1)), s1)"
      using null_row_healthy[OF assms] unfolding GetDomainByName_def .
    with that[of s1] show thesis by (simp add: system_domain_def)
  qed
  show thesis
  proof (cases "system_ready n s")
    case False
    then have "enqueue n subject body s = (Inr False, s1)"
      using s1(3) by (cases "system_domain n s") (simp_all add: enqueue_def db_bind_def db_return_def system_ready_def)
    with False s1 show thesis by (intro not_ready[of s1])
  next
    case True
    then obtain d where d: "system_domain n s = Some d" "Verified d"
      by (auto simp: system_ready_def split: option.splits)
    then have ds: "d \<in> set (t_domains s1)" "d_name d = after_at (n_system_from n)"
      using s1(1) by (auto simp: system_domain_def dest: find_Some_in)
    let ?e = "with_defaults (Now s1) (system_email n (d_id d) subject body)"
    obtain s2 where s2: "env_step s1 s2" "healthy s2"
        "EnqueueEmail (system_email n (d_id d) subject body) s1 = insert_email ?e s2"
      unfolding EnqueueEmail_def using stmt_healthy[OF s1(2)] by blast
    let ?row = "new_row (next_rowid (map er_id (t_emails s))) ?e"
    let ?t = "s2\<lparr>t_emails := t_emails s @ [?row]\<rparr>"
    note env = env_step_trans[OF s1(1) s2(1)]
    have "d_id d \<in> d_id ` set (t_domains s2)" using ds s2(1) by simp
    from insert_notice[OF this] have "insert_email ?e s2 = (Inr (er_id ?row), ?t)"
      using env by (simp add: Let_def)
    then have "enqueue n subject body s = (Inr True, ?t)"
      using s1 s2 d by (simp add: enqueue_def db_bind_def db_return_def)
    moreover have "notice n subject body s ?row" using notice_row[of d s n] ds s1(1) d by simp
    ultimately show thesis
      using True s2(2) env_step_emails(1)[OF env] by (intro ready[of ?t ?row]) simp_all
  qed
qed

definition state_value :: "string \<Rightarrow> store \<Rightarrow> string" where
  "state_value key s = (case map_of (t_state s) key of None \<Rightarrow> [] | Some v \<Rightarrow> v)"

lemma read_state_healthy:
  assumes "healthy s"
  obtains s1 where "env_step s s1" "healthy s1" "read_state key s = (state_value key s, s1)"
proof -
  obtain s1 where s1: "env_step s s1" "healthy s1"
      "query_row (\<lambda>s. map_of (t_state s) key) s = (case map_of (t_state s1) key of None \<Rightarrow> Inl ErrNoRows | Some a \<Rightarrow> Inr a, s1)"
    using query_row_healthy[OF assms] .
  then show thesis
    by (intro that[of s1]) (auto simp: read_state_def GetState_def state_value_def split: option.split)
qed

lemma read_state_env: "read_state key s = (v, t) \<Longrightarrow> env_step s t"
proof -
  assume r: "read_state key s = (v, t)"
  obtain q s1 where q: "query_row (\<lambda>s. map_of (t_state s) key) s = (q, s1)" by fastforce
  with r have "t = s1" by (cases q) (auto simp: read_state_def GetState_def split: if_splits)
  with q query_row_env show ?thesis by blast
qed

lemma SetState_healthy:
  assumes "healthy s"
  obtains t where "SetState key v s = (Inr (), t)" "healthy t"
    "env_step (s\<lparr>t_state := t_state (upsert_state key v s)\<rparr>) t"
proof -
  obtain s1 where s1: "env_step s s1" "healthy s1" "exec_upd (upsert_state key v) s = (Inr (), upsert_state key v s1)"
    using exec_upd_healthy[OF assms] .
  have "upsert_state key v s1 = s1\<lparr>t_state := t_state (upsert_state key v s)\<rparr>"
    using s1(1) by (simp add: upsert_state_def)
  then show thesis
    using s1 env_step_emails(3)[OF s1(1)] by (intro that[of "upsert_state key v s1"]) (simp_all add: SetState_def)
qed

lemma state_value_upsert:
  "state_value k (s\<lparr>t_state := t_state (upsert_state key v u)\<rparr>) = (if k = key then v else state_value k u)"
  by (simp add: state_value_def map_of_upsert)

lemma state_value_env [simp]: "env_step s t \<Longrightarrow> state_value k t = state_value k s"
  by (simp add: state_value_def)

section \<open>The digest\<close>

lemma exec_upd_cases:
  assumes "exec_upd f s = (r, t)"
  obtains (failed) "env_step s t" "r \<noteq> Inr ()" | (updated) s1 where "env_step s s1" "t = f s1" "r = Inr ()"
proof -
  have "stmt (\<lambda>s. (Inr (), f s)) s = (r, t)" using assms by (simp add: exec_upd_def)
  then show thesis by (cases rule: stmt_cases) (auto intro: that)
qed

lemma SetState_tables:
  assumes "SetState key v s = (r, t)"
  shows "t_emails t = t_emails s \<and> t_pending t = t_pending s"
proof -
  have "exec_upd (upsert_state key v) s = (r, t)" using assms by (simp add: SetState_def)
  then show ?thesis by (cases rule: exec_upd_cases) (auto simp: upsert_state_def)
qed

lemma send_digest_any:
  assumes "send_digest L n now ps s = (r, t)"
  shows "t_emails t = t_emails s \<and> t_pending t = t_pending s \<or>
    (\<exists>row. t_emails t = t_emails s @ [row] \<and> notice n (digest_subject ps) (digest_body L n ps) s row \<and>
       (t_pending t = t_pending s \<or> t_pending t = []))"
proof -
  obtain q s1 where q: "enqueue n (digest_subject ps) (digest_body L n ps) s = (q, s1)" by fastforce
  then show ?thesis
  proof (cases rule: enqueue_cases)
    case skipped
    have "t = s1" using assms q skipped(1)
      by (cases q) (auto simp: send_digest_def db_bind_def db_return_def split: if_splits)
    with skipped(2) show ?thesis by simp
  next
    case (queued row)
    have em: "t_emails s1 = t_emails s @ [row]" "t_pending s1 = t_pending s" using queued(3) by simp_all
    obtain c s2 where c: "exec_upd clear_pending s1 = (c, s2)" by fastforce
    then have 2: "t_emails s2 = t_emails s1 \<and> (t_pending s2 = t_pending s1 \<or> t_pending s2 = [])"
      by (cases rule: exec_upd_cases) (auto simp: clear_pending_def)
    have "t_emails t = t_emails s2 \<and> t_pending t = t_pending s2"
    proof (cases c)
      case (Inl er)
      with assms q c queued(1) show ?thesis by (simp add: send_digest_def db_bind_def ClearPendingFailures_def)
    next
      case (Inr u)
      with assms q c queued(1) have "SetState ''digest_last_sent'' (FmtTime now) s2 = (r, t)"
        by (simp add: send_digest_def db_bind_def ClearPendingFailures_def)
      then show ?thesis by (rule SetState_tables)
    qed
    with 2 em queued(2) show ?thesis by auto
  qed
qed

lemma send_digest_healthy:
  assumes "healthy s"
  obtains (ready) t row where "system_ready n s" "send_digest L n now ps s = (Inr (), t)"
      "t_emails t = t_emails s @ [row]" "notice n (digest_subject ps) (digest_body L n ps) s row"
      "t_pending t = []" "state_value ''digest_last_sent'' t = FmtTime now"
    | (not_ready) t where "\<not> system_ready n s" "send_digest L n now ps s = (Inr (), t)" "env_step s t"
  using assms
proof (cases rule: enqueue_healthy[of s n "digest_subject ps" "digest_body L n ps"])
  case (not_ready t)
  then show thesis
    by (intro that(2)[of t]) (simp_all add: send_digest_def db_bind_def db_return_def)
next
  case (ready s1 row)
  obtain s2 where s2: "env_step s1 s2" "healthy s2" "exec_upd clear_pending s1 = (Inr (), clear_pending s2)"
    using exec_upd_healthy[OF ready(3)] .
  have h: "healthy (clear_pending s2)" using s2(2) by (simp add: clear_pending_def)
  obtain t where t: "SetState ''digest_last_sent'' (FmtTime now) (clear_pending s2) = (Inr (), t)"
      "env_step ((clear_pending s2)\<lparr>t_state := t_state (upsert_state ''digest_last_sent'' (FmtTime now) (clear_pending s2))\<rparr>) t"
    using SetState_healthy[OF h] by metis
  have "send_digest L n now ps s = (Inr (), t)"
    using ready s2 t by (simp add: send_digest_def db_bind_def ClearPendingFailures_def)
  moreover have "state_value ''digest_last_sent'' t = FmtTime now"
    using state_value_env[OF t(2)] by (simp add: state_value_upsert)
  moreover have "t_emails t = t_emails s @ [row]" "t_pending t = []"
    using t(2) s2(1) ready(5) by (simp_all add: clear_pending_def)
  ultimately show thesis using ready by (intro that(1)[of t row])
qed

definition cooling_down :: "(string \<Rightarrow> time) \<Rightarrow> time \<Rightarrow> store \<Rightarrow> bool" where
  "cooling_down other now s = (let sent_at = state_value ''digest_last_sent'' s
     in sent_at \<noteq> [] \<and> Sub now (ParseTime other sent_at) < hour)"

lemma ListPendingFailures_healthy:
  assumes "healthy s"
  obtains s1 where "env_step s s1" "healthy s1" "ListPendingFailures s = (Inr (pending_emails s), s1)"
proof -
  obtain s1 where s1: "env_step s s1" "healthy s1" "ListPendingFailures s = (Inr (pending_emails s1), s1)"
    using query_healthy[OF assms] unfolding ListPendingFailures_def .
  then show thesis by (intro that[of s1]) (simp_all add: pending_emails_def)
qed

lemma pending_emails_env: "env_step s t \<Longrightarrow> pending_emails t = pending_emails s"
  by (simp add: pending_emails_def)

lemma system_ready_env [simp]: "env_step s t \<Longrightarrow> system_ready n t = system_ready n s"
  by (simp add: system_ready_def system_domain_def)

lemma DigestTick_healthy:
  assumes "healthy s"
  obtains (sent) t row where "pending_emails s \<noteq> []" "\<not> cooling_down other now s" "system_ready n s"
      "DigestTick L other n now s = (Inr (), t)" "t_emails t = t_emails s @ [row]"
      "notice n (digest_subject (pending_emails s)) (digest_body L n (pending_emails s)) s row"
      "t_pending t = []" "state_value ''digest_last_sent'' t = FmtTime now"
    | (waits) t where "pending_emails s = [] \<or> cooling_down other now s \<or> \<not> system_ready n s"
      "DigestTick L other n now s = (Inr (), t)" "env_step s t"
proof -
  let ?ps = "pending_emails s"
  obtain s1 where s1: "env_step s s1" "healthy s1" "ListPendingFailures s = (Inr ?ps, s1)"
    using ListPendingFailures_healthy[OF assms] .
  show thesis
  proof (cases "?ps = []")
    case True
    with s1 show thesis by (intro waits[of s1]) (simp_all add: DigestTick_def db_bind_def db_return_def)
  next
    case False
    obtain s2 where s2: "env_step s1 s2" "healthy s2"
        "read_state ''digest_last_sent'' s1 = (state_value ''digest_last_sent'' s1, s2)"
      using read_state_healthy[OF s1(2)] .
    note env = env_step_trans[OF s1(1) s2(1)]
    have D: "DigestTick L other n now s = (if cooling_down other now s then (Inr (), s2)
        else send_digest L n now ?ps s2)"
      using False s1 s2 by (simp add: DigestTick_def db_bind_def cooling_down_def Let_def)
    show thesis
    proof (cases "cooling_down other now s")
      case True
      with D env show thesis by (intro waits[of s2]) simp_all
    next
      case cold: False
      from s2(2) show thesis
      proof (cases rule: send_digest_healthy[of s2 n L now ?ps])
        case (ready t row)
        with D False cold env show thesis by (intro sent[of t row]) (simp_all add: notice_env)
      next
        case (not_ready t)
        with D cold env env_step_trans[OF env not_ready(3)] show thesis
          by (intro waits[of t]) simp_all
      qed
    qed
  qed
qed

section \<open>The failure-rate alert\<close>

definition failure_counts :: "string \<Rightarrow> store \<Rightarrow> domain \<Rightarrow> nat \<times> nat" where
  "failure_counts since s d = (let as = attempts_since (d_id d) since s
     in (length (filter failed_attempt as), length as))"

definition too_high :: "notifier \<Rightarrow> string \<Rightarrow> store \<Rightarrow> domain \<Rightarrow> bool" where
  "too_high n since s d = (case failure_counts since s d of (failed, tries) \<Rightarrow> n_threshold n \<le> rate_of failed tries)"

definition alerts :: "notifier \<Rightarrow> string \<Rightarrow> store \<Rightarrow> domain \<Rightarrow> bool" where
  "alerts n since s d \<longleftrightarrow> n_min_volume n \<le> int (snd (failure_counts since s d)) \<and> too_high n since s d \<and>
     state_value (rate_key d) s \<noteq> ''fired''"

text \<open>The state of a domain's alert after a tick of a notifier that can send.\<close>

definition next_fired :: "notifier \<Rightarrow> string \<Rightarrow> store \<Rightarrow> domain \<Rightarrow> string" where
  "next_fired n since s d = (if alerts n since s d then ''fired''
     else if \<not> too_high n since s d \<and> state_value (rate_key d) s = ''fired'' then []
     else state_value (rate_key d) s)"

text \<open>What a step may do to the database besides its emails and its alert state.\<close>

definition same_log :: "store \<Rightarrow> store \<Rightarrow> bool" where
  "same_log s t \<longleftrightarrow> healthy t \<and> t_domains t = t_domains s \<and> t_attempts t = t_attempts s"

lemma failure_rate_healthy:
  assumes "healthy s" "n_failure_rate_fn n = None"
  obtains s1 where "env_step s s1" "healthy s1"
    "failure_rate n (d_id d) since s = (Inr (failure_counts since s d), s1)"
proof -
  obtain s1 where s1: "env_step s s1" "healthy s1"
      "FailureRate (d_id d) since s = (Inr (failure_counts since s1 d), s1)"
    using query_healthy[OF assms(1)] unfolding FailureRate_def failure_counts_def .
  have "failure_counts since s1 d = failure_counts since s d"
    using s1(1) by (simp add: failure_counts_def attempts_since_def row_of_def)
  with s1 assms(2) show thesis by (intro that[of s1]) (simp_all add: failure_rate_def)
qed

lemma rate_domain_healthy:
  assumes h: "healthy s" and fn: "n_failure_rate_fn n = None" and ready: "system_ready n s"
  obtains t rows where "rate_domain n since d s = (Inr (), t)" "same_log s t" "t_emails t = t_emails s @ rows"
    "map er_subject rows = (if alerts n since s d then [alert_subject d] else [])" "\<forall>r \<in> set rows. er_system r"
    "\<And>k. state_value k t = (if k = rate_key d then next_fired n since s d else state_value k s)"
proof -
  obtain failed tries where c: "failure_counts since s d = (failed, tries)" by fastforce
  obtain s1 where s1: "env_step s s1" "healthy s1" "failure_rate n (d_id d) since s = (Inr (failed, tries), s1)"
    using failure_rate_healthy[OF h fn, of d since] c by metis
  obtain s2 where s2: "env_step s1 s2" "healthy s2" "read_state (rate_key d) s1 = (state_value (rate_key d) s1, s2)"
    using read_state_healthy[OF s1(2)] .
  note env = env_step_trans[OF s1(1) s2(1)]
  define fired where "fired = state_value (rate_key d) s"
  have D: "rate_domain n since d s = decide_alert n d failed tries fired s2"
    using s1 s2 by (simp add: rate_domain_def db_bind_def fired_def)
  have al: "alerts n since s d \<longleftrightarrow> n_min_volume n \<le> int tries \<and> n_threshold n \<le> rate_of failed tries \<and> fired \<noteq> ''fired''"
    by (simp add: alerts_def too_high_def c fired_def)
  have hi: "too_high n since s d \<longleftrightarrow> n_threshold n \<le> rate_of failed tries" by (simp add: too_high_def c)
  show thesis
  proof (cases "alerts n since s d")
    case True
    let ?subject = "alert_subject d" and ?body = "alert_body n d (rate_of failed tries) tries"
    have r2: "system_ready n s2" using ready env by simp
    obtain s3 row where s3: "enqueue n ?subject ?body s2 = (Inr True, s3)" "healthy s3"
        "notice n ?subject ?body s2 row" "env_step (s2\<lparr>t_emails := t_emails s2 @ [row]\<rparr>) s3"
      using enqueue_healthy[OF s2(2), of n ?subject ?body] r2 by metis
    obtain t where t: "SetState (rate_key d) ''fired'' s3 = (Inr (), t)" "healthy t"
        "env_step (s3\<lparr>t_state := t_state (upsert_state (rate_key d) ''fired'' s3)\<rparr>) t"
      using SetState_healthy[OF s3(2)] .
    have "rate_domain n since d s = (Inr (), t)"
      using True al s3 t unfolding D by (simp add: decide_alert_def Let_def db_bind_def)
    moreover have "state_value k s3 = state_value k s" for k
      using state_value_env[OF s3(4), of k] state_value_env[OF env, of k] by (simp add: state_value_def)
    then have "state_value k t = (if k = rate_key d then ''fired'' else state_value k s)" for k
      using state_value_env[OF t(3), of k] by (simp add: state_value_upsert)
    moreover have "t_emails t = t_emails s @ [row]" "same_log s t"
      using t s3(4) env by (simp_all add: same_log_def)
    ultimately show thesis
      using True s3(3) by (intro that[of t "[row]"]) (simp_all add: notice_def next_fired_def)
  next
    case quiet: False
    show thesis
    proof (cases "rate_of failed tries < n_threshold n \<and> fired = ''fired''")
      case True
      obtain t where t: "SetState (rate_key d) [] s2 = (Inr (), t)" "healthy t"
          "env_step (s2\<lparr>t_state := t_state (upsert_state (rate_key d) [] s2)\<rparr>) t"
        using SetState_healthy[OF s2(2)] .
      have "rate_domain n since d s = (Inr (), t)"
        using True t unfolding D by (simp add: decide_alert_def Let_def)
      moreover have "state_value k t = (if k = rate_key d then [] else state_value k s)" for k
        using state_value_env[OF t(3), of k] env by (simp add: state_value_upsert)
      ultimately show thesis
        using True quiet hi t(2,3) env
        by (intro that[of t "[]"]) (simp_all add: same_log_def next_fired_def fired_def)
    next
      case False
      then have "rate_domain n since d s = (Inr (), s2)"
        using quiet al unfolding D by (auto simp: decide_alert_def Let_def db_return_def)
      moreover have "next_fired n since s d = state_value (rate_key d) s"
        unfolding next_fired_def fired_def[symmetric] hi using quiet False by (simp add: not_less)
      ultimately show thesis
        using quiet s2(2) env by (intro that[of s2 "[]"]) (simp_all add: same_log_def)
    qed
  qed
qed

text \<open>New emails do not count as attempts of other domains.\<close>

lemma attempts_since_append:
  assumes "wf_store s" "t_attempts t = t_attempts s" "t_emails t = t_emails s @ rows"
  shows "attempts_since i since t = attempts_since i since s"
proof -
  have "row_of (a_email_id a) t = row_of (a_email_id a) s" if "a \<in> set (t_attempts s)" for a
  proof -
    have "a_email_id a \<in> er_id ` set (t_emails s)"
      using assms(1) that by (auto simp: wf_store_def wf_attempts_def)
    then have "row_of (a_email_id a) s \<noteq> None" by (auto simp: row_of_def find_None_notin)
    then show ?thesis by (auto simp: row_of_def assms(3) find_append split: option.split)
  qed
  then show ?thesis unfolding attempts_since_def assms(2) by (auto intro!: filter_cong)
qed

lemma rate_domains_healthy:
  assumes "healthy s" "wf_store s" "n_failure_rate_fn n = None" "system_ready n s" "distinct (map d_name ds)"
  shows "\<exists>t rows. rate_domains n since None ds s = (Inr (), t) \<and> same_log s t \<and> t_emails t = t_emails s @ rows \<and>
    map er_subject rows = map alert_subject (filter (alerts n since s) ds) \<and> (\<forall>r \<in> set rows. er_system r) \<and>
    (\<forall>k. state_value k t = (case find (\<lambda>d. rate_key d = k) ds of
        None \<Rightarrow> state_value k s | Some d \<Rightarrow> next_fired n since s d))"
  using assms
proof (induction ds arbitrary: s)
  case Nil
  then show ?case by (intro exI[of _ s] exI[of _ "[]"]) (simp add: same_log_def)
next
  case (Cons d ds)
  obtain t1 rows1 where 1: "rate_domain n since d s = (Inr (), t1)" "same_log s t1" "t_emails t1 = t_emails s @ rows1"
      "map er_subject rows1 = (if alerts n since s d then [alert_subject d] else [])" "\<forall>r \<in> set rows1. er_system r"
      "\<And>k. state_value k t1 = (if k = rate_key d then next_fired n since s d else state_value k s)"
    using rate_domain_healthy[OF Cons.prems(1,3,4), of since d] by metis
  have wf: "wf_store t1"
    using wf.keeps_rate_domain[of s n since d] 1(1) Cons.prems(2) by (simp add: R_wf_def)
  have same: "failure_counts since t1 e = failure_counts since s e" for e
    using attempts_since_append[OF Cons.prems(2) _ 1(3)] 1(2) by (simp add: failure_counts_def same_log_def)
  have keys: "rate_key e \<noteq> rate_key d" if "e \<in> set ds" for e
    using Cons.prems(5) imageI[OF that, of d_name] by (auto simp: rate_key_def)
  have al: "alerts n since t1 e = alerts n since s e" "next_fired n since t1 e = next_fired n since s e"
    if "e \<in> set ds" for e
    using keys[OF that] by (simp_all add: alerts_def too_high_def next_fired_def same 1(6))
  have "system_ready n t1" using Cons.prems(4) 1(2) by (simp add: system_ready_def system_domain_def same_log_def)
  then obtain t rows where 2: "rate_domains n since None ds t1 = (Inr (), t)" "same_log t1 t"
      "t_emails t = t_emails t1 @ rows" "map er_subject rows = map alert_subject (filter (alerts n since t1) ds)"
      "\<forall>r \<in> set rows. er_system r"
      "\<And>k. state_value k t = (case find (\<lambda>d. rate_key d = k) ds of
        None \<Rightarrow> state_value k t1 | Some d \<Rightarrow> next_fired n since t1 d)"
    using Cons.IH[of t1] Cons.prems(3,5) wf 1(2) by (auto simp: same_log_def)
  have fl: "filter (alerts n since t1) ds = filter (alerts n since s) ds" using al by (auto intro: filter_cong)
  have st: "state_value k t = (case find (\<lambda>d. rate_key d = k) (d # ds) of
        None \<Rightarrow> state_value k s | Some d \<Rightarrow> next_fired n since s d)" for k
  proof (cases "find (\<lambda>d. rate_key d = k) ds")
    case None
    then show ?thesis unfolding 2(6) by (simp add: 1(6))
  next
    case (Some e)
    then have "e \<in> set ds" "rate_key e = k" by (auto dest: find_Some_in)
    with keys[of e] Some show ?thesis unfolding 2(6) by (simp add: al)
  qed
  show ?case
    using 1 2 st by (intro exI[of _ t] exI[of _ "rows1 @ rows"]) (auto simp: same_log_def fl)
qed

lemma RateTick_healthy:
  assumes "healthy s" "wf_store s" "n_failure_rate_fn n = None" "system_ready n s"
    and since: "since = FmtTime (now + (- hour))"
  shows "\<exists>t rows. RateTick n now s = (Inr (), t) \<and> t_emails t = t_emails s @ rows \<and>
    map er_subject rows = map alert_subject (filter (alerts n since s) (sort_key d_name (t_domains s))) \<and>
    (\<forall>r \<in> set rows. er_system r) \<and>
    (\<forall>d \<in> set (t_domains s). state_value (rate_key d) t = next_fired n since s d)"
proof -
  let ?ds = "sort_key d_name (t_domains s)"
  obtain s1 where s1: "env_step s s1" "healthy s1" "ListDomains s = (Inr ?ds, s1)"
    using query_healthy[OF assms(1), of "\<lambda>s. sort_key d_name (t_domains s)"] unfolding ListDomains_def by auto
  have wf: "wf_store s1" using wf.R_env[OF s1(1)] assms(2) by (simp add: R_wf_def)
  have ds: "distinct (map d_name ?ds)"
    using assms(2) by (simp add: wf_store_def wf_domains_def distinct_map)
  have eq: "alerts n since s1 = alerts n since s" "next_fired n since s1 = next_fired n since s"
    using s1(1) by (simp_all add: fun_eq_iff alerts_def too_high_def next_fired_def failure_counts_def
        attempts_since_def row_of_def)
  obtain t rows where t: "rate_domains n since None ?ds s1 = (Inr (), t)" "t_emails t = t_emails s1 @ rows"
      "map er_subject rows = map alert_subject (filter (alerts n since s) ?ds)" "\<forall>r \<in> set rows. er_system r"
      "\<forall>k. state_value k t = (case find (\<lambda>d. rate_key d = k) ?ds of
        None \<Rightarrow> state_value k s1 | Some d \<Rightarrow> next_fired n since s d)"
    using rate_domains_healthy[OF s1(2) wf assms(3) _ ds, of since] assms(4) s1(1) unfolding eq by auto
  have "find (\<lambda>e. rate_key e = rate_key d) ?ds = Some d" if "d \<in> set (t_domains s)" for d
    using find_key[OF ds, of d] that by (simp add: rate_key_def)
  with t s1 show ?thesis
    by (intro exI[of _ t] exI[of _ rows]) (simp add: RateTick_def db_bind_def since)
qed

end
