(* ===== verification/MonthlyReport.thy ===== *)
theory MonthlyReport
  imports NotifierLemmas
begin

text \<open>
  The monthly report: which month it is about, which lines it has, and when it is sent.
\<close>

section \<open>Which month\<close>

definition month_index :: "time \<Rightarrow> int" where
  "month_index t = 12 * c_year (civil_of t) + (c_month (civil_of t) - 1)"

definition month_text :: "int \<Rightarrow> string" where
  "month_text i = append_int (i div 12) 4 @ ''-'' @ append_int (i mod 12 + 1) 2"

lemma index_year_month:
  "month_index t div 12 = c_year (civil_of t)" "month_index t mod 12 + 1 = c_month (civil_of t)"
  using civil_ranges(1)[of t] by (simp_all add: month_index_def)

lemma fmt_month_text: "fmt_month t = month_text (month_index t)"
  by (simp add: fmt_month_def month_text_def index_year_month Let_def)

lemma month_before_text: "month_before k now = month_text (month_index now - k)"
proof -
  define y m where "y = c_year (civil_of now)" and "m = c_month (civil_of now)"
  have m: "m \<in> {1..12}" using civil_ranges(1)[of now] by (simp add: m_def)
  let ?i = "12 * y + (m - 1) - k"
  have m': "?i mod 12 + 1 \<in> {1..12}" by simp
  have div: "y + (m - k - 1) div 12 = ?i div 12"
  proof -
    have "?i = (m - k - 1) + y * 12" by simp
    then show ?thesis by (simp only: div_mult_self1)
  qed
  have mod: "(m - k - 1) mod 12 = ?i mod 12"
  proof -
    have "?i = (m - k - 1) + y * 12" by simp
    then show ?thesis by (simp only: mod_mult_self1)
  qed
  have "Date y m 1 0 0 0 0 mod second = 0" using Date_day[OF m, of y 1] midnight_div(2) by simp
  then have "AddDate (Date y m 1 0 0 0 0) 0 (- k) 0 = Date y (m - k) 1 0 0 0 0"
    unfolding AddDate_def Let_def civil_Date[OF m] by simp
  also have "\<dots> = Date (?i div 12) (?i mod 12 + 1) 1 0 0 0 0"
    using div mod by (simp add: Date_def)
  finally have "month_before k now = fmt_month (Date (?i div 12) (?i mod 12 + 1) 1 0 0 0 0)"
    by (simp add: month_before_def Let_def y_def m_def)
  also have "\<dots> = month_text ?i"
    unfolding fmt_month_def civil_Date[OF m'] month_text_def by simp
  finally show ?thesis by (simp add: month_index_def y_def m_def)
qed

definition month_writable :: "int \<Rightarrow> bool" where
  "month_writable i \<longleftrightarrow> 0 \<le> i \<and> i < 120000"

lemma month_writable_fields:
  assumes "month_writable i"
  shows "0 \<le> i div 12" "i div 12 < 10000" "0 \<le> i mod 12" "i mod 12 < 12"
proof -
  show "0 \<le> i div 12" using assms by (simp add: month_writable_def pos_imp_zdiv_nonneg_iff)
  have "i div 12 \<le> 119999 div 12" using assms by (intro zdiv_mono1) (simp_all add: month_writable_def)
  then show "i div 12 < 10000" by simp
qed simp_all

lemma stampable_month: "stampable t \<longleftrightarrow> month_writable (month_index t)"
  using civil_ranges(1)[of t] by (auto simp: stampable_def month_writable_def month_index_def)

lemma month_text_fixed:
  assumes "month_writable i"
  shows "month_text i = fixed_digits 4 (nat (i div 12)) @ ''-'' @ fixed_digits 2 (nat (i mod 12 + 1))"
proof -
  have "0 \<le> i div 12" "i div 12 < 10 ^ 4" "0 \<le> i mod 12 + 1" "i mod 12 + 1 < 10 ^ 2"
    using month_writable_fields[OF assms] by simp_all
  then show ?thesis unfolding month_text_def by (simp add: append_int_fixed)
qed

lemma month_text_inj:
  assumes "month_writable i" "month_writable j"
  shows "month_text i = month_text j \<longleftrightarrow> i = j"
proof
  assume e: "month_text i = month_text j"
  have b: "nat (k div 12) < 10 ^ 4" "nat (k mod 12 + 1) < 10 ^ 2" if "month_writable k" for k
    using month_writable_fields[OF that] by (simp_all add: nat_less_iff)
  have "fixed_digits 4 (nat (i div 12)) = fixed_digits 4 (nat (j div 12))"
    "fixed_digits 2 (nat (i mod 12 + 1)) = fixed_digits 2 (nat (j mod 12 + 1))"
    using e unfolding month_text_fixed[OF assms(1)] month_text_fixed[OF assms(2)] by simp_all
  then have "nat (i div 12) = nat (j div 12)" "nat (i mod 12 + 1) = nat (j mod 12 + 1)"
    using b assms by (simp_all only: fixed_digits_eq_iff)
  then have "i div 12 = j div 12" "i mod 12 = j mod 12"
    using month_writable_fields[OF assms(1)] month_writable_fields[OF assms(2)] by (simp_all add: eq_nat_nat_iff)
  then show "i = j" by (metis div_mult_mod_eq)
qed simp

lemma parse_month_text:
  assumes "month_writable i"
  shows "parse_month (month_text i) = Some (Date (i div 12) (i mod 12 + 1) 1 0 0 0 0)"
proof -
  let ?y = "nat (i div 12)" and ?m = "nat (i mod 12 + 1)"
  have b: "?y < 10 ^ 4" "?m < 10 ^ 2" "1 \<le> ?m" "?m \<le> 12"
    using month_writable_fields[OF assms] by (simp_all add: nat_less_iff nat_le_iff)
  have i: "int ?y = i div 12" "int ?m = i mod 12 + 1" using month_writable_fields[OF assms] by simp_all
  show ?thesis
    unfolding month_text_fixed[OF assms] parse_month_def
    using b i by (simp add: parse_digits_fixed_digits[OF b(1)] parse_digits_fixed_digits[OF b(2)] nth_append)
qed

text \<open>The range the statistics of a month are taken over holds that month's timestamps.\<close>

lemma in_month_range:
  assumes "month_writable i" "i < 119999" "stampable t" "er_created r = FmtTime t"
  shows "in_range (fst (monthRange (month_text i))) (snd (monthRange (month_text i))) r \<longleftrightarrow> month_index t = i"
proof -
  have "month_text 119999 = ''9999-12''"
    using month_text_fixed[of 119999]
    by (simp add: month_writable_def fixed_digits_numeral digit_def char_of_eq_iff)
  then have "month_text i \<noteq> ''9999-12''"
    using month_text_inj[OF assms(1), of 119999] assms(2) by (simp add: month_writable_def)
  note r = monthRange_month[OF parse_month_text[OF assms(1)] this assms(3)]
  have "take 7 (FmtTime t) = month_text (month_index t)"
    using take_FmtTime_month[OF assms(3)] by (simp add: fmt_month_text)
  with r show ?thesis
    using month_text_inj[OF _ assms(1), of "month_index t"] assms(3) by (simp add: in_range_def assms(4) stampable_month)
qed

section \<open>The lines of the report\<close>

definition active_line :: "(string \<times> domain_stats) list \<Rightarrow> domain_stats \<Rightarrow> string" where
  "active_line prev st = ''- '' @ ds_name st @ '': '' @ fmtCounts st @ fmtComparison st prev @ line_feed"

lemma map_of_delete: "x \<noteq> k \<Longrightarrow> map_of (AList.delete k al) x = map_of al x"
  by (simp add: AList.delete_conv')

lemma active_lines_Cons:
  "active_lines (st # sts) prev = (case active_lines sts (AList.delete (ds_name st) prev) of
     (out, left) \<Rightarrow> (active_line prev st @ out, left))"
  by (simp add: active_line_def split: prod.split)

lemma active_lines_eq:
  assumes "distinct (map ds_name sts)"
  shows "active_lines sts prev = (concat (map (active_line prev) sts),
    filter (\<lambda>p. fst p \<notin> ds_name ` set sts) prev)"
  using assms
proof (induction sts arbitrary: prev)
  case Nil
  then show ?case by simp
next
  case (Cons st sts)
  let ?prev = "AList.delete (ds_name st) prev"
  have "active_line ?prev u = active_line prev u" if "u \<in> set sts" for u
  proof -
    have "ds_name u \<noteq> ds_name st" using Cons.prems imageI[OF that, of ds_name] by auto
    then show ?thesis by (simp add: active_line_def fmtComparison_def map_of_delete)
  qed
  then have lines: "concat (map (active_line ?prev) sts) = concat (map (active_line prev) sts)"
    by (metis (no_types, lifting) map_eq_conv)
  have "filter (\<lambda>p. fst p \<notin> ds_name ` set sts) ?prev = filter (\<lambda>p. fst p \<notin> ds_name ` set (st # sts)) prev"
    by (auto simp: AList.delete_eq intro!: filter_cong)
  moreover have "distinct (map ds_name sts)" using Cons.prems by simp
  ultimately show ?case unfolding active_lines_Cons Cons.IH[OF \<open>distinct (map ds_name sts)\<close>, of ?prev] lines
    by simp
qed

lemma update_new: "k \<notin> fst ` set al \<Longrightarrow> AList.update k v al = al @ [(k, v)]"
  by (induction al) auto

lemma by_domain_fold:
  "distinct (map ds_name sts) \<Longrightarrow> fst ` set al \<inter> ds_name ` set sts = {} \<Longrightarrow>
   fold (\<lambda>st. AList.update (ds_name st) st) sts al = al @ map (\<lambda>st. (ds_name st, st)) sts"
proof (induction sts arbitrary: al)
  case (Cons st sts)
  have "AList.update (ds_name st) st al = al @ [(ds_name st, st)]"
    using Cons.prems(2) by (intro update_new) auto
  with Cons show ?case by auto
qed simp

lemma by_domain_eq: "distinct (map ds_name sts) \<Longrightarrow> by_domain sts = map (\<lambda>st. (ds_name st, st)) sts"
  using by_domain_fold[of sts "[]"] by (simp add: by_domain_def)

text \<open>
  The line of a domain, with its statistics of the month and of the month before (\<open>None\<close>: no
  email of the domain was created in that month).
\<close>

definition stats_of :: "domain_stats list \<Rightarrow> string \<Rightarrow> domain_stats option" where
  "stats_of sts name = find (\<lambda>st. ds_name st = name) sts"

lemma map_of_by_domain:
  "distinct (map ds_name sts) \<Longrightarrow> map_of (by_domain sts) name = stats_of sts name"
  unfolding by_domain_eq stats_of_def by (induction sts) auto

definition quiet_domains :: "domain_stats list \<Rightarrow> domain_stats list \<Rightarrow> domain_stats list" where
  "quiet_domains stats prevStats = filter (\<lambda>p. stats_of stats (ds_name p) = None) prevStats"

lemma stats_of_None: "stats_of sts name = None \<longleftrightarrow> name \<notin> ds_name ` set sts"
  by (auto simp: stats_of_def find_None_notin)

lemma silent_lines_eq:
  assumes "distinct (map ds_name prevStats)" "set sts \<subseteq> set prevStats"
  shows "concat (map (silent_line (filter (\<lambda>p. fst p \<notin> N) (by_domain prevStats))) sts) =
    concat (map (\<lambda>st. ''- '' @ ds_name st @ '': no activity '' @ em_dash @ '' prev month: '' @ fmtCounts st @ line_feed)
      (filter (\<lambda>st. ds_name st \<notin> N) sts))"
  using assms(2)
proof (induction sts)
  case (Cons st sts)
  have m: "map_of (filter (\<lambda>p. fst p \<notin> N) (by_domain prevStats)) (ds_name st) =
      (if ds_name st \<notin> N then Some st else None)"
  proof -
    have "(ds_name st, st) \<in> set (by_domain prevStats)"
      using Cons.prems by (simp add: by_domain_eq[OF assms(1)])
    moreover have "distinct (map fst (filter (\<lambda>p. fst p \<notin> N) (by_domain prevStats)))"
      using assms by (simp add: by_domain_eq[OF assms(1)] comp_def distinct_map_filter)
    ultimately show ?thesis by (auto simp: map_of_eq_None_iff intro!: map_of_is_SomeI)
  qed
  have st: "silent_line (filter (\<lambda>p. fst p \<notin> N) (by_domain prevStats)) st = (if ds_name st \<notin> N
      then ''- '' @ ds_name st @ '': no activity '' @ em_dash @ '' prev month: '' @ fmtCounts st @ line_feed else [])"
    unfolding silent_line_def m by simp
  have IH: "concat (map (silent_line (filter (\<lambda>p. fst p \<notin> N) (by_domain prevStats))) sts) =
    concat (map (\<lambda>st. ''- '' @ ds_name st @ '': no activity '' @ em_dash @ '' prev month: '' @ fmtCounts st @ line_feed)
      (filter (\<lambda>st. ds_name st \<notin> N) sts))" using Cons by simp
  show ?case unfolding list.map concat.simps st IH by simp
qed simp

text \<open>
  Every domain of the month has one line, with its comparison; every domain of the month
  before that is quiet now has one too, after them.
\<close>

lemma stats_body_eq:
  assumes "distinct (map ds_name stats)" "distinct (map ds_name prevStats)"
  shows "stats_body m stats prevStats reasons domains =
    ''doevoe stats for '' @ m @ line_feed @ line_feed @ ''Per domain:'' @ line_feed
    @ concat (map (active_line (by_domain prevStats)) stats)
    @ concat (map (\<lambda>st. ''- '' @ ds_name st @ '': no activity '' @ em_dash @ '' prev month: '' @ fmtCounts st @ line_feed)
        (quiet_domains stats prevStats))
    @ (if stats = [] \<and> prevStats = [] then ''- no email activity'' @ line_feed else [])
    @ (if reasons \<noteq> [] then line_feed @ ''Top failure reasons:'' @ line_feed @ concat (map reason_line reasons) else [])
    @ line_feed @ ''DNS verification status:'' @ line_feed @ concat (map domain_line domains)"
proof -
  let ?N = "ds_name ` set stats"
  have quiet: "filter (\<lambda>st. ds_name st \<notin> ?N) prevStats = quiet_domains stats prevStats"
    unfolding quiet_domains_def stats_of_None ..
  have no_lines: "(stats = [] \<and> filter (\<lambda>p. fst p \<notin> ?N) (by_domain prevStats) = []) \<longleftrightarrow> stats = [] \<and> prevStats = []"
    by (auto simp: by_domain_eq[OF assms(2)])
  show ?thesis
    unfolding stats_body_def active_lines_eq[OF assms(1)] prod.case
      silent_lines_eq[OF assms(2) subset_refl] quiet no_lines ..
qed

section \<open>When it is sent\<close>

text \<open>What the queries of the report read.\<close>

definition volumes :: "string \<Rightarrow> string \<Rightarrow> store \<Rightarrow> domain_stats list" where
  "volumes lo hi s = map (\<lambda>(name, rs). \<lparr>ds_name = name, ds_sent = count_status [''sent''] rs,
        ds_failed = count_status [''failed''] rs\<rparr>)
     (groups (\<lambda>r. the (domain_name s r)) (filter (\<lambda>r. in_range lo hi r \<and> domain_name s r \<noteq> None) (t_emails s)))"

definition month_volumes :: "string \<Rightarrow> store \<Rightarrow> domain_stats list" where
  "month_volumes m s = (case monthRange m of (lo, hi) \<Rightarrow> volumes lo hi s)"

definition month_reasons :: "string \<Rightarrow> store \<Rightarrow> (string \<times> nat) list" where
  "month_reasons m s = (case monthRange m of (lo, hi) \<Rightarrow> sql_limit 5 (sort_desc snd (map (\<lambda>(e, rs). (e, length rs))
       (groups er_error (filter (\<lambda>r. er_status r = ''failed'' \<and> in_range lo hi r \<and> er_error r \<noteq> []) (t_emails s))))))"

lemma volumes_distinct: "distinct (map ds_name (volumes lo hi s))"
proof -
  have "map ds_name (volumes lo hi s) = map fst (groups (\<lambda>r. the (domain_name s r))
      (filter (\<lambda>r. in_range lo hi r \<and> domain_name s r \<noteq> None) (t_emails s)))"
    by (simp add: volumes_def comp_def case_prod_unfold)
  then show ?thesis by (simp only: strict_sorted_iff groups_sorted[unfolded strict_sorted_iff])
qed

lemma MonthlyStats_healthy:
  assumes "healthy s"
  obtains s1 where "env_step s s1" "healthy s1" "MonthlyStats m s = (Inr (month_volumes m s), s1)"
proof -
  obtain lo hi where m: "monthRange m = (lo, hi)" by fastforce
  obtain s1 where s1: "env_step s s1" "healthy s1" "DomainVolume lo hi s = (Inr (volumes lo hi s1), s1)"
    using query_healthy[OF assms] unfolding DomainVolume_def volumes_def .
  have "domain_name s1 = domain_name s" using s1(1) by (simp add: fun_eq_iff domain_name_def)
  then have "volumes lo hi s1 = volumes lo hi s" using s1(1) by (simp add: volumes_def)
  with s1 m show thesis by (intro that[of s1]) (simp_all add: MonthlyStats_def month_volumes_def)
qed

lemma TopFailureReasons_healthy:
  assumes "healthy s"
  obtains s1 where "env_step s s1" "healthy s1" "TopFailureReasons m 5 s = (Inr (month_reasons m s), s1)"
proof -
  obtain lo hi where m: "monthRange m = (lo, hi)" by fastforce
  define f where "f = (\<lambda>s :: store. sql_limit 5 (sort_desc snd (map (\<lambda>(e, rs). (e, length rs))
       (groups er_error (filter (\<lambda>r. er_status r = ''failed'' \<and> in_range lo hi r \<and> er_error r \<noteq> []) (t_emails s))))))"
  obtain s1 where s1: "env_step s s1" "healthy s1" "query f s = (Inr (f s1), s1)"
    using query_healthy[OF assms] .
  have "f s1 = f s" using s1(1) by (simp add: f_def)
  with s1 m show thesis
    by (intro that[of s1]) (simp_all add: TopFailureReasons_def FailureReasons_def month_reasons_def f_def)
qed

lemma month_queries_env:
  assumes "env_step s t"
  shows "month_volumes m t = month_volumes m s" "month_reasons m t = month_reasons m s"
proof -
  have "domain_name t = domain_name s" using assms by (simp add: fun_eq_iff domain_name_def)
  then show "month_volumes m t = month_volumes m s" "month_reasons m t = month_reasons m s"
    using assms by (simp_all add: month_volumes_def month_reasons_def volumes_def split: prod.split)
qed

definition report_text :: "time \<Rightarrow> store \<Rightarrow> string" where
  "report_text now s = (let prev = month_before 1 now in
     stats_body prev (month_volumes prev s) (month_volumes (month_before 2 now) s) (month_reasons prev s)
       (sort_key d_name (t_domains s)))"

lemma stats_report_healthy:
  assumes "healthy s"
  obtains (ready) t row where "system_ready n s" "stats_report n now s = (Inr (), t)" "healthy t"
      "notice n (''doevoe: monthly stats '' @ month_before 1 now) (report_text now s) s row"
      "t_emails t = t_emails s @ [row]" "state_value ''last_stats_sent'' t = fmt_month now"
    | (not_ready) t where "\<not> system_ready n s" "stats_report n now s = (Inr (), t)" "env_step s t"
proof -
  let ?p = "month_before 1 now" and ?c = "month_before 2 now"
  let ?subject = "''doevoe: monthly stats '' @ ?p"
  obtain s1 where s1: "env_step s s1" "healthy s1" "MonthlyStats ?p s = (Inr (month_volumes ?p s), s1)"
    using MonthlyStats_healthy[OF assms] .
  obtain s2 where s2: "env_step s1 s2" "healthy s2" "MonthlyStats ?c s1 = (Inr (month_volumes ?c s1), s2)"
    using MonthlyStats_healthy[OF s1(2)] .
  obtain s3 where s3: "env_step s2 s3" "healthy s3" "TopFailureReasons ?p 5 s2 = (Inr (month_reasons ?p s2), s3)"
    using TopFailureReasons_healthy[OF s2(2)] .
  obtain s4 where s4: "env_step s3 s4" "healthy s4" "ListDomains s3 = (Inr (sort_key d_name (t_domains s4)), s4)"
    using query_healthy[OF s3(2), of "\<lambda>s. sort_key d_name (t_domains s)"] unfolding ListDomains_def by blast
  note e2 = env_step_trans[OF s1(1) s2(1)] note e3 = env_step_trans[OF e2 s3(1)]
  note env = env_step_trans[OF e3 s4(1)]
  have o: "or_empty (MonthlyStats ?c) s1 = (month_volumes ?c s, s2)"
      "or_empty (TopFailureReasons ?p 5) s2 = (month_reasons ?p s, s3)"
      "or_empty ListDomains s3 = (sort_key d_name (t_domains s), s4)"
    using s2(3) s3(3) s4(3) env
    by (simp_all add: or_empty_def month_queries_env[OF s1(1)] month_queries_env[OF e2])
  have D: "stats_report n now s = db_bind (enqueue n ?subject (report_text now s))
      (\<lambda>sent. if sent then SetState ''last_stats_sent'' (fmt_month now) else db_return ()) s4"
    unfolding stats_report_def Let_def db_bind_def[of "MonthlyStats _"] s1(3) prod.case sum.case o report_text_def ..
  from s4(2) show thesis
  proof (cases rule: enqueue_healthy[of s4 n ?subject "report_text now s"])
    case (not_ready t)
    with D env env_step_trans[OF env not_ready(4)] show thesis
      by (intro that(2)[of t]) (simp_all add: db_bind_def db_return_def)
  next
    case (ready s5 row)
    obtain t where t: "SetState ''last_stats_sent'' (fmt_month now) s5 = (Inr (), t)" "healthy t"
        "env_step (s5\<lparr>t_state := t_state (upsert_state ''last_stats_sent'' (fmt_month now) s5)\<rparr>) t"
      using SetState_healthy[OF ready(3)] .
    have "state_value ''last_stats_sent'' t = fmt_month now"
      using state_value_env[OF t(3)] by (simp add: state_value_upsert)
    moreover have "t_emails t = t_emails s @ [row]" using t(3) ready(5) env by simp
    ultimately show thesis
      using D ready t env by (intro that(1)[of t row]) (simp_all add: db_bind_def notice_env)
  qed
qed

text \<open>A month that is marked as reported is not reported again, whatever fails.\<close>

lemma StatsTick_done:
  assumes "state_value ''last_stats_sent'' s = fmt_month now"
  shows "t_emails (snd (StatsTick n now s)) = t_emails s"
proof -
  obtain v s1 where r: "read_state ''last_stats_sent'' s = (v, s1)" by fastforce
  have env: "env_step s s1" by (rule read_state_env[OF r])
  have v: "v = [] \<or> v = fmt_month now"
  proof -
    obtain q s2 where q: "query_row (\<lambda>s. map_of (t_state s) ''last_stats_sent'') s = (q, s2)" by fastforce
    show ?thesis
    proof (cases q)
      case (Inr w)
      with q have "query_row (\<lambda>s. map_of (t_state s) ''last_stats_sent'') s = (Inr w, s2)" by (simp only:)
      from query_row_Inr[OF this] have "state_value ''last_stats_sent'' s = w"
        by (auto simp: state_value_def)
      moreover have "v = w" using r q Inr by (simp add: read_state_def GetState_def)
      ultimately show ?thesis using assms by simp
    qed (use r q in \<open>auto simp: read_state_def GetState_def split: if_splits\<close>)
  qed
  show ?thesis
  proof (cases "v = []")
    case True
    obtain w t where t: "SetState ''last_stats_sent'' (fmt_month now) s1 = (w, t)" by fastforce
    with True r have "StatsTick n now s = (w, t)" by (simp add: StatsTick_def)
    with SetState_tables[OF t] env show ?thesis by simp
  next
    case False
    with v r env show ?thesis by (auto simp: StatsTick_def)
  qed
qed

end
