(* ===== verification/NotifyProps.thy ===== *)
theory NotifyProps
  imports MonthlyReport Samples
begin

text \<open>
  The properties of the notifier: the digest of permanent failures, the failure-rate alert
  and the monthly report.
\<close>

section \<open>Sample inputs\<close>

definition sample_notifier :: notifier where
  "sample_notifier = \<lparr>n_admin_email = ''ops@x.nl'', n_system_from = ''doevoe@ok.nl'', n_base_url = ''http://h'',
     n_threshold = default_threshold, n_min_volume = 1, n_failure_rate_fn = None\<rparr>"

lemma sample_notifier_sel [simp]:
  "n_system_from sample_notifier = ''doevoe@ok.nl''" "n_threshold sample_notifier = default_threshold"
  "n_failure_rate_fn sample_notifier = None"
  by (simp_all add: sample_notifier_def)

definition pending_store :: store where
  "pending_store = sample_store\<lparr>t_pending := [(4, stamp0)]\<rparr>"

lemma pending_store_sel [simp]:
  "t_emails pending_store = t_emails sample_store" "t_domains pending_store = t_domains sample_store"
  "t_state pending_store = []" "t_pending pending_store = [(4, stamp0)]" "healthy pending_store"
  "t_attempts pending_store = []"
  by (simp_all add: pending_store_def healthy_sample_store)

lemma sample_ready: "t_domains s = t_domains sample_store \<Longrightarrow> system_ready sample_notifier s"
  by (simp add: system_ready_def system_domain_def after_at_def sample_domain_def Verified_def)

lemma pending_sample: "pending_emails pending_store = [scanEmail (sample_email 4 ''failed'' (Some ''k4''))]"
  by (simp add: pending_emails_def sample_email_def)

section \<open>The digest\<close>

text \<open>C11. Whatever statements fail, the failures waiting for a digest are only cleared when an
  email that lists every one of them has been put into the queue for the operator; a tick
  queues at most that one email.\<close>

theorem digest_before_clearing:
  "(let t = snd (DigestTick L other n now s) in
      t_emails t = t_emails s \<and> t_pending t = t_pending s \<or>
      (\<exists>row. t_emails t = t_emails s @ [row] \<and>
         notice n (digest_subject (pending_emails s)) (digest_body L n (pending_emails s)) s row \<and>
         (t_pending t = t_pending s \<or> t_pending t = [])))"
proof -
  obtain q s1 where q: "ListPendingFailures s = (q, s1)" by fastforce
  have env: "env_step s s1" using q query_env unfolding ListPendingFailures_def by blast
  show ?thesis
  proof (cases q)
    case (Inl er)
    with q env show ?thesis by (simp add: DigestTick_def db_bind_def Let_def)
  next
    case (Inr ps)
    with q query_Inr have ps: "ps = pending_emails s"
      unfolding ListPendingFailures_def using pending_emails_env[OF env] by metis
    obtain v s2 where v: "read_state ''digest_last_sent'' s1 = (v, s2)" by fastforce
    note e2 = env_step_trans[OF env read_state_env[OF v]]
    obtain r t where t: "send_digest L n now ps s2 = (r, t)" by fastforce
    have "snd (DigestTick L other n now s) \<in> {s1, s2, t}"
      using q Inr v t by (simp add: DigestTick_def db_bind_def db_return_def)
    with send_digest_any[OF t] env e2 show ?thesis
      by (auto simp: Let_def ps notice_env[OF e2])
  qed
qed

text \<open>With statements that succeed, a tick sends the digest exactly when failures are
  waiting, the last digest is an hour old and the system's domain is verified, and then
  clears them and notes the time; otherwise it changes nothing.\<close>

theorem digest_exact:
  assumes "healthy s"
  shows "\<exists>t. DigestTick L other n now s = (Inr (), t) \<and>
    (if pending_emails s \<noteq> [] \<and> \<not> cooling_down other now s \<and> system_ready n s
     then t_pending t = [] \<and> state_value ''digest_last_sent'' t = FmtTime now \<and>
       (\<exists>row. t_emails t = t_emails s @ [row] \<and>
          notice n (digest_subject (pending_emails s)) (digest_body L n (pending_emails s)) s row)
     else t_emails t = t_emails s \<and> t_pending t = t_pending s \<and> t_state t = t_state s)"
  using assms
proof (cases rule: DigestTick_healthy[of s other now n L])
  case (sent t row)
  then show ?thesis by auto
next
  case (waits t)
  then show ?thesis by auto
qed

theorem digest_exact_witness:
  "\<exists>t row. DigestTick sample_libs other sample_notifier 0 pending_store = (Inr (), t) \<and> t_pending t = [] \<and>
     t_emails t = t_emails sample_store @ [row] \<and> er_text row = digest_body sample_libs sample_notifier
       [scanEmail (sample_email 4 ''failed'' (Some ''k4''))]"
proof -
  have "\<not> cooling_down other 0 pending_store" by (simp add: cooling_down_def state_value_def)
  then show ?thesis
    using digest_exact[of pending_store sample_libs other sample_notifier 0] sample_ready[of pending_store]
    by (auto simp: pending_sample notice_def)
qed

text \<open>After a digest sent at \<open>t0\<close> the next one is sent from the second an hour later on, as
  long as its failures and the system's domain allow it, and not before.\<close>

theorem digest_hourly:
  assumes "healthy s" "state_value ''digest_last_sent'' s = FmtTime t0" "stampable t0" "stampable now"
  shows "t_emails (snd (DigestTick L other n now s)) \<noteq> t_emails s \<longleftrightarrow>
    pending_emails s \<noteq> [] \<and> system_ready n s \<and> t0 - t0 mod second + hour \<le> now"
proof -
  have "FmtTime t0 \<noteq> []" using length_FmtTime[OF assms(3)] by auto
  moreover have "Sub now (t0 - t0 mod second) < hour \<longleftrightarrow> now - (t0 - t0 mod second) < hour"
    by (rule Sub_less) simp_all
  ultimately have cool: "cooling_down other now s \<longleftrightarrow> now < t0 - t0 mod second + hour"
    unfolding cooling_down_def Let_def assms(2) ParseTime_FmtTime[OF assms(3)] by (simp add: less_diff_eq algebra_simps)
  from assms(1) show ?thesis
  proof (cases rule: DigestTick_healthy[of s other now n L])
    case (sent t row)
    with cool show ?thesis by simp
  next
    case (waits t)
    then have "t_emails (snd (DigestTick L other n now s)) = t_emails s" by simp
    moreover have "\<not> (pending_emails s \<noteq> [] \<and> system_ready n s \<and> t0 - t0 mod second + hour \<le> now)"
      using waits(1) cool linorder_not_less by blast
    ultimately show ?thesis by blast
  qed
qed

theorem digest_hourly_witness:
  "t_emails (snd (DigestTick sample_libs other sample_notifier hour
      (pending_store\<lparr>t_state := [(''digest_last_sent'', FmtTime 0)]\<rparr>))) \<noteq> t_emails sample_store"
proof -
  let ?s = "pending_store\<lparr>t_state := [(''digest_last_sent'', FmtTime 0)]\<rparr>"
  have st: "stampable 0" "stampable hour" by (simp_all add: stampable_iff)
  have v: "state_value ''digest_last_sent'' ?s = FmtTime 0" by (simp add: state_value_def)
  have p: "pending_emails ?s = pending_emails pending_store" by (simp add: pending_emails_def)
  have h: "healthy ?s" by simp
  show ?thesis
    using digest_hourly[OF h v st, of sample_libs other sample_notifier] sample_ready[of ?s] p pending_sample by simp
qed

text \<open>C37. A failure recorded by the worker after a digest tick has read the waiting failures and
  before it clears them is never reported: it is not in the digest, and it is cleared.\<close>

theorem digest_race_drops:
  assumes "ListPendingFailures s = (Inr ps, s1)" "healthy s1" "wf_store s" "system_ready n s"
    and r: "row_of i s = Some r" "\<not> er_system r" "i \<notin> fst ` set (t_pending s)"
  shows "i \<in> fst ` set (t_pending (PermanentFailure i s1)) \<and> i \<notin> e_id ` set ps \<and>
    (\<exists>t row. send_digest L n now ps (PermanentFailure i s1) = (Inr (), t) \<and> t_pending t = [] \<and>
       t_emails t = t_emails s @ [row] \<and> er_text row = digest_body L n ps)"
proof -
  have env: "env_step s s1" using assms(1) query_env unfolding ListPendingFailures_def by blast
  have ps: "ps = pending_emails s1" using assms(1) query_Inr unfolding ListPendingFailures_def by metis
  have row: "row_of i s1 = Some r" using r(1) env by (simp add: row_of_def)
  obtain s2 where s2: "env_step s1 s2" "healthy s2" "GetEmail i s1 = (Inr (scanEmail r), s2)"
  proof -
    obtain s2 where s2: "env_step s1 s2" "healthy s2" "GetEmail i s1 =
        (case map_option scanEmail (row_of i s2) of None \<Rightarrow> Inl ErrNoRows | Some a \<Rightarrow> Inr a, s2)"
      using query_row_healthy[OF assms(2)] unfolding GetEmail_def .
    have "row_of i s2 = Some r" using row s2(1) by (simp add: row_of_def)
    with s2 that show thesis by simp
  qed
  obtain s3 where s3: "env_step s2 s3" "healthy s3"
      "AddPendingFailure i s2 = insert_pending i (Now s2) s3"
    unfolding AddPendingFailure_def using stmt_healthy[OF s2(2)] by blast
  note e3 = env_step_trans[OF env env_step_trans[OF s2(1) s3(1)]]
  have "i \<in> er_id ` set (t_emails s)" using wf_row_of[OF assms(3), of i r] r(1) by blast
  then have ins: "PermanentFailure i s1 = s3\<lparr>t_pending := t_pending s @ [(i, Now s2)]\<rparr>"
    using s2(3) s3(3) r(2,3) e3 by (simp add: PermanentFailure_def insert_pending_def)
  have "e_id ` set ps \<subseteq> fst ` set (t_pending s1)"
    unfolding ps by (auto simp: pending_emails_def image_iff) force
  then have "i \<notin> e_id ` set ps" using r(3) env by auto
  moreover have h: "healthy (PermanentFailure i s1)" unfolding ins using s3(2) by simp
  have "system_ready n (PermanentFailure i s1)"
    using assms(4) e3 unfolding ins by (simp add: system_ready_def system_domain_def)
  with h obtain t row where "send_digest L n now ps (PermanentFailure i s1) = (Inr (), t)"
      "t_emails t = t_emails (PermanentFailure i s1) @ [row]"
      "notice n (digest_subject ps) (digest_body L n ps) (PermanentFailure i s1) row" "t_pending t = []"
    by (cases rule: send_digest_healthy[of "PermanentFailure i s1" n L now ps]) simp_all
  ultimately show ?thesis using e3 by (auto simp: ins notice_def)
qed

theorem digest_race_drops_witness:
  "\<exists>t. send_digest sample_libs sample_notifier 0 [scanEmail (sample_email 4 ''failed'' (Some ''k4''))]
     (PermanentFailure 1 pending_store) = (Inr (), t) \<and> t_pending t = [] \<and>
   1 \<in> fst ` set (t_pending (PermanentFailure 1 pending_store))"
proof -
  have l: "ListPendingFailures pending_store = (Inr [scanEmail (sample_email 4 ''failed'' (Some ''k4''))], pending_store)"
    using pending_sample by (simp add: ListPendingFailures_def query_def stmt_def pending_store_def)
  have w: "wf_store pending_store"
    using wf_sample_store by (simp add: pending_store_def wf_store_def wf_pending_def sample_email_def)
  have r: "row_of 1 pending_store = Some (sample_email 1 ''queued'' (Some ''k1''))"
    by (simp add: row_of_def sample_email_def)
  have n: "\<not> er_system (sample_email 1 ''queued'' (Some ''k1''))" "1 \<notin> fst ` set (t_pending pending_store)"
    by (simp_all add: sample_email_def)
  show ?thesis
    using digest_race_drops[OF l _ w sample_ready r n, of sample_libs 0] by auto
qed

section \<open>The failure-rate alert\<close>







section \<open>The monthly report\<close>

text \<open>C28. The first tick of a month whose predecessor was reported or marked queues one report and
  marks the month, and no later tick of that month queues another, whatever statements fail
  then.\<close>

theorem monthly_report:
  assumes "healthy s" "system_ready n s"
    and "state_value ''last_stats_sent'' s \<noteq> []" "state_value ''last_stats_sent'' s \<noteq> fmt_month now"
  shows "\<exists>t row. StatsTick n now s = (Inr (), t) \<and> t_emails t = t_emails s @ [row] \<and>
    notice n (''doevoe: monthly stats '' @ month_before 1 now) (report_text now s) s row \<and>
    state_value ''last_stats_sent'' t = fmt_month now \<and>
    (\<forall>u now'. fmt_month now' = fmt_month now \<longrightarrow> state_value ''last_stats_sent'' u = fmt_month now \<longrightarrow>
       t_emails (snd (StatsTick n now' u)) = t_emails u)"
proof -
  obtain s1 where s1: "env_step s s1" "healthy s1"
      "read_state ''last_stats_sent'' s = (state_value ''last_stats_sent'' s, s1)"
    using read_state_healthy[OF assms(1)] .
  have D: "StatsTick n now s = stats_report n now s1" using s1(3) assms(3,4) by (simp add: StatsTick_def)
  have same_report: "report_text now s1 = report_text now s"
    using s1(1) by (simp add: report_text_def Let_def month_queries_env[OF s1(1)])
  have later: "t_emails (snd (StatsTick n now' u)) = t_emails u"
    if "fmt_month now' = fmt_month now" "state_value ''last_stats_sent'' u = fmt_month now" for u now'
    using that by (intro StatsTick_done) simp
  from s1(2) show ?thesis
  proof (cases rule: stats_report_healthy[of s1 n now])
    case (ready t row)
    with D s1(1) later show ?thesis by (intro exI[of _ t] exI[of _ row]) (simp add: same_report notice_env[OF s1(1)])
  next
    case (not_ready t)
    with assms(2) s1(1) show ?thesis by simp
  qed
qed

lemma sample_month: "fmt_month sample_time = ''2026-02''"
proof -
  have "append_int 2026 4 = fixed_digits 4 2026" "append_int 2 2 = fixed_digits 2 2"
    using append_int_fixed[of 4 2026] append_int_fixed[of 2 2] by simp_all
  then show ?thesis
    by (simp add: fmt_month_def civil_sample_time fixed_digits_numeral digit_def char_of_eq_iff)
qed

theorem monthly_report_witness:
  "\<exists>t row. StatsTick sample_notifier sample_time (sample_store\<lparr>t_state := [(''last_stats_sent'', ''2026-01'')]\<rparr>) = (Inr (), t) \<and>
     t_emails t = t_emails sample_store @ [row]"
proof -
  let ?s = "sample_store\<lparr>t_state := [(''last_stats_sent'', ''2026-01'')]\<rparr>"
  have v: "state_value ''last_stats_sent'' ?s = ''2026-01''" by (simp add: state_value_def)
  have h: "healthy ?s" using healthy_sample_store by simp
  show ?thesis
    using monthly_report[OF h sample_ready[of ?s], of sample_time] v sample_month by auto
qed

text \<open>The report of a month covers exactly the emails created in the calendar month before,
  on every day of the month, the 31st included.\<close>

theorem report_month_exact:
  assumes "stampable now" "0 < month_index now" "stampable t" "er_created r = FmtTime t"
  shows "in_range (fst (monthRange (month_before 1 now))) (snd (monthRange (month_before 1 now))) r \<longleftrightarrow>
    month_index t + 1 = month_index now"
  using assms in_month_range[of "month_index now - 1" t r]
  by (simp add: month_before_text stampable_month month_writable_def) (auto simp: stampable_month month_writable_def)

lemma month_index_day:
  assumes "m \<in> {1..12}" "abs_day t = month_day y m + d" "0 \<le> d" "month_day y m + d < month_day y (m + 1)"
  shows "month_index t = 12 * y + (m - 1)"
proof -
  have "month_day y m \<le> abs_day t \<and> abs_day t < month_day y (m + 1)" using assms by simp
  then have "c_year (civil_of t) = y \<and> c_month (civil_of t) = m" using month_day_iff[OF assms(1), of y t] by simp
  then show ?thesis by (simp add: month_index_def)
qed

text \<open>On 31 March 2026 the report is about February.\<close>

theorem report_month_exact_witness:
  "in_range (fst (monthRange (month_before 1 (Date 2026 3 31 0 0 0 0))))
     (snd (monthRange (month_before 1 (Date 2026 3 31 0 0 0 0)))) ((sample_email 1 ''sent'' None)\<lparr>er_created := FmtTime sample_time\<rparr>)"
proof -
  let ?now = "Date 2026 3 31 0 0 0 0"
  have now: "month_index ?now = 24314"
    using month_index_day[of 3 ?now 2026 30] Date_day[of 3 2026 31]
    by (simp add: abs_day_midnight month_day_def days_before_month_def is_leap_def)
  have t: "month_index sample_time = 24313" by (simp add: month_index_def civil_sample_time)
  have st: "stampable ?now" "stampable sample_time" using now t by (simp_all add: stampable_month month_writable_def)
  show ?thesis
    using report_month_exact[OF st(1) _ st(2), of "(sample_email 1 ''sent'' None)\<lparr>er_created := FmtTime sample_time\<rparr>"]
      now t by simp
qed

text \<open>Every domain with emails in the month has one line, compared with its own month before;
  every domain that had emails then and none now has one too, and nothing is listed twice.\<close>

theorem report_lines:
  "(let now_stats = month_volumes (month_before 1 now) s; old_stats = month_volumes (month_before 2 now) s in
    distinct (map ds_name now_stats) \<and> distinct (map ds_name old_stats) \<and>
    (\<forall>name. map_of (by_domain old_stats) name = stats_of old_stats name) \<and>
    report_text now s = ''doevoe stats for '' @ month_before 1 now @ line_feed @ line_feed @ ''Per domain:'' @ line_feed
      @ concat (map (active_line (by_domain old_stats)) now_stats)
      @ concat (map (\<lambda>st. ''- '' @ ds_name st @ '': no activity '' @ em_dash @ '' prev month: '' @ fmtCounts st @ line_feed)
          (quiet_domains now_stats old_stats))
      @ (if now_stats = [] \<and> old_stats = [] then ''- no email activity'' @ line_feed else [])
      @ (if month_reasons (month_before 1 now) s \<noteq> [] then line_feed @ ''Top failure reasons:'' @ line_feed
           @ concat (map reason_line (month_reasons (month_before 1 now) s)) else [])
      @ line_feed @ ''DNS verification status:'' @ line_feed @ concat (map domain_line (sort_key d_name (t_domains s))))"
proof -
  have d: "distinct (map ds_name (month_volumes m s))" for m
    by (simp add: month_volumes_def volumes_distinct split: prod.split)
  show ?thesis
    unfolding Let_def report_text_def stats_body_eq[OF d d] using d map_of_by_domain[OF d] by simp
qed

section \<open>Timestamps\<close>

text \<open>Reading a timestamp back gives the time it was written from, to the second, for all years
  the format can hold.\<close>

theorem ParseTime_FmtTime_roundtrip:
  "stampable t \<Longrightarrow> ParseTime other (FmtTime t) = t - t mod second"
  by (rule ParseTime_FmtTime)

theorem ParseTime_FmtTime_roundtrip_witness:
  "ParseTime other ''2026-02-01T00:00:00Z'' = Date 2026 2 1 0 0 0 0"
proof -
  have "stampable sample_time" by (simp add: stampable_def civil_sample_time)
  moreover have "sample_time mod second = 0"
    using Date_day[of 2 2026 1] midnight_div(2) by (simp add: sample_time_def)
  ultimately show ?thesis
    using ParseTime_FmtTime_roundtrip[of sample_time other] unfolding sample_time_stamp by (simp add: sample_time_def)
qed

end
