(* ===== verification/Pages.thy ===== *)
theory Pages
  imports Clock Dns "HOL-Library.Word"
begin

text \<open>
  The read-only pages of \<^verbatim>\<open>internal/admin/admin.go\<close>: the period a list of emails covers, the
  list with its filters, pages and links, and the numbers of the dashboard. A page is the
  data its template is given. \<open>q\<close> is \<^verbatim>\<open>r.URL.Query().Get\<close>, empty for an absent parameter; a
  link is the list of its parameters in the order \<^verbatim>\<open>url.Values.Encode\<close> writes them.
\<close>

section \<open>Periods\<close>

text \<open>\<^verbatim>\<open>time.ParseInLocation("2006-01-02", v, time.UTC)\<close>.\<close>

definition parseFilterDate :: "string \<Rightarrow> time option" where
  "parseFilterDate v =
     (if length v = 10 \<and> v ! 4 = CHR ''-'' \<and> v ! 7 = CHR ''-''
      then case (field 0 4 v, field 5 2 v, field 8 2 v) of
             (Some y, Some mo, Some d) \<Rightarrow>
               if 1 \<le> mo \<and> mo \<le> 12 \<and> 1 \<le> d \<and> int d \<le> days_in (int y) (int mo)
               then Some (Date (int y) (int mo) (int d) 0 0 0 0) else None
           | _ \<Rightarrow> None
      else None)"

record emailRange =
  rg_key :: string
  rg_label :: string
  rg_title :: string
  rg_days :: int

definition emailRanges :: "emailRange list" where
  "emailRanges =
     [\<lparr>rg_key = ''1d'', rg_label = ''24h'', rg_title = ''Last 24 hours'', rg_days = 1\<rparr>,
      \<lparr>rg_key = ''7d'', rg_label = ''7d'', rg_title = ''Last 7 days'', rg_days = 7\<rparr>,
      \<lparr>rg_key = ''30d'', rg_label = ''30d'', rg_title = ''Last 30 days'', rg_days = 30\<rparr>,
      \<lparr>rg_key = ''90d'', rg_label = ''90d'', rg_title = ''Last 90 days'', rg_days = 90\<rparr>,
      \<lparr>rg_key = ''all'', rg_label = ''All'', rg_title = ''All time'', rg_days = 0\<rparr>]"

definition defaultEmailRange :: string where "defaultEmailRange = ''7d''"

definition lookupEmailRange :: "string \<Rightarrow> emailRange option" where
  "lookupEmailRange key = find (\<lambda>r. rg_key r = key) emailRanges"

record emailWindow =
  w_range :: string
  w_from_date :: string
  w_to_date :: string
  w_created_from :: string
  w_created_to :: string
  w_label :: string

definition no_window :: emailWindow where
  "no_window = \<lparr>w_range = [], w_from_date = [], w_to_date = [], w_created_from = [], w_created_to = [], w_label = []\<rparr>"

definition presetWindow :: "emailRange \<Rightarrow> time \<Rightarrow> emailWindow" where
  "presetWindow r now = (let win = no_window\<lparr>w_range := rg_key r, w_label := rg_title r\<rparr>
     in if 0 < rg_days r then win\<lparr>w_created_from := FmtTime (AddDate now 0 0 (- rg_days r))\<rparr> else win)"

text \<open>U+2192 in UTF-8.\<close>

definition arrow :: string where "arrow = [CHR 0xE2, CHR 0x86, CHR 0x92]"

definition customWindow :: "string \<Rightarrow> string \<Rightarrow> emailWindow option" where
  "customWindow fromRaw toRaw =
     (let w0 = no_window\<lparr>w_range := ''custom''\<rparr>;
          w1 = (case parseFilterDate fromRaw of None \<Rightarrow> w0
                | Some d \<Rightarrow> w0\<lparr>w_from_date := fromRaw, w_created_from := FmtTime d\<rparr>);
          w2 = (case parseFilterDate toRaw of None \<Rightarrow> w1
                | Some d \<Rightarrow> w1\<lparr>w_to_date := toRaw, w_created_to := FmtTime (AddDate d 0 0 1)\<rparr>)
      in if w_from_date w2 \<noteq> [] \<and> w_to_date w2 \<noteq> []
         then Some (w2\<lparr>w_label := w_from_date w2 @ '' '' @ arrow @ '' '' @ w_to_date w2\<rparr>)
         else if w_from_date w2 \<noteq> [] then Some (w2\<lparr>w_label := ''From '' @ w_from_date w2\<rparr>)
         else if w_to_date w2 \<noteq> [] then Some (w2\<lparr>w_label := ''Up to '' @ w_to_date w2\<rparr>)
         else None)"

definition resolveEmailWindow :: "(string \<Rightarrow> string) \<Rightarrow> time \<Rightarrow> emailWindow" where
  "resolveEmailWindow q now = (case customWindow (q ''from'') (q ''to'') of
       Some win \<Rightarrow> win
     | None \<Rightarrow> (case lookupEmailRange (q ''range'') of
         Some r \<Rightarrow> presetWindow r now
       | None \<Rightarrow> presetWindow (the (lookupEmailRange defaultEmailRange)) now))"

section \<open>The list of emails\<close>

text \<open>U+00B7 in UTF-8, and \<^verbatim>\<open>strings.Join\<close>.\<close>

definition middle_dot :: string where "middle_dot = [CHR 0xC2, CHR 0xB7]"

fun Join :: "string list \<Rightarrow> string \<Rightarrow> string" where
  "Join [] sep = []"
| "Join [s] sep = s"
| "Join (s # ss) sep = s @ sep @ Join ss sep"

definition filterState :: "string \<Rightarrow> string \<Rightarrow> int \<Rightarrow> domain list \<Rightarrow> string" where
  "filterState status search domainID ds =
     Join ((if status \<noteq> [] then [status] else [])
       @ map d_name (filter (\<lambda>d. d_id d = domainID) ds)
       @ (if search \<noteq> [] then [[CHR 0x22] @ search @ [CHR 0x22]] else [])) ('' '' @ middle_dot @ '' '')"

text \<open>Arithmetic on \<^verbatim>\<open>int\<close>, which is 64 bits wide, wraps around.\<close>

definition wrap :: "int \<Rightarrow> int" where
  "wrap i = sint (word_of_int i :: 64 word)"

definition pageSize :: int where "pageSize = 50"

definition page_number :: "(string \<Rightarrow> string) \<Rightarrow> int" where
  "page_number q = (let page = int_value (q ''page'') in if page < 1 then 1 else page)"

definition page_offset :: "int \<Rightarrow> int" where
  "page_offset page = wrap (wrap (page - 1) * pageSize)"

definition list_filter :: "(string \<Rightarrow> string) \<Rightarrow> emailWindow \<Rightarrow> email_filter" where
  "list_filter q win = \<lparr>f_status = q ''status'', f_domain_id = int_value (q ''domain''), f_search = q ''q'',
     f_created_from = w_created_from win, f_created_to = w_created_to win, f_limit = pageSize + 1,
     f_offset = page_offset (page_number q)\<rparr>"

type_synonym link = "(string \<times> string) list"

text \<open>The parameters in the order of their names; \<^verbatim>\<open>Encode\<close> sorts them.\<close>

definition listURL :: "email_filter \<Rightarrow> emailWindow \<Rightarrow> int \<Rightarrow> link" where
  "listURL f wd p =
     (if f_domain_id f \<noteq> 0 then [(''domain'', Itoa (f_domain_id f))] else [])
     @ (if w_from_date wd \<noteq> [] then [(''from'', w_from_date wd)] else [])
     @ [(''page'', Itoa p)]
     @ (if f_search f \<noteq> [] then [(''q'', f_search f)] else [])
     @ [(''range'', w_range wd)]
     @ (if f_status f \<noteq> [] then [(''status'', f_status f)] else [])
     @ (if w_to_date wd \<noteq> [] then [(''to'', w_to_date wd)] else [])"

record rangeChip =
  ch_key :: string
  ch_label :: string
  ch_title :: string
  ch_url :: link
  ch_active :: bool

record emails_page =
  ep_emails :: "email list"
  ep_domains :: "domain list"
  ep_filter :: email_filter
  ep_window :: emailWindow
  ep_ranges :: "rangeChip list"
  ep_filters_active :: bool
  ep_filter_state :: string
  ep_all_time :: link
  ep_page :: int
  ep_prev :: "link option"
  ep_next :: "link option"
  ep_current :: link

definition chip :: "email_filter \<Rightarrow> emailWindow \<Rightarrow> emailRange \<Rightarrow> rangeChip" where
  "chip f win rg = \<lparr>ch_key = rg_key rg, ch_label = rg_label rg, ch_title = rg_title rg,
     ch_url = listURL f (no_window\<lparr>w_range := rg_key rg\<rparr>) 1, ch_active = (rg_key rg = w_range win)\<rparr>"

text \<open>The error is answered with status 500. An error of \<^verbatim>\<open>ListDomains\<close> leaves no domains.\<close>

definition listEmails :: "(string \<Rightarrow> string) \<Rightarrow> emails_page db" where
  "listEmails q s =
     (let win = resolveEmailWindow q (db_clock s); f = list_filter q win; page = page_number q
      in db_bind (ListEmails f) (\<lambda>es s1.
        (let hasNext = pageSize < int (length es);
             (ds, s2) = or_empty ListDomains s1
         in (Inr \<lparr>ep_emails = (if hasNext then take (nat pageSize) es else es), ep_domains = ds,
              ep_filter = f, ep_window = win, ep_ranges = map (chip f win) emailRanges,
              ep_filters_active = (f_status f \<noteq> [] \<or> f_search f \<noteq> [] \<or> f_domain_id f \<noteq> 0 \<or> w_range win = ''custom''),
              ep_filter_state = filterState (f_status f) (f_search f) (f_domain_id f) ds,
              ep_all_time = listURL f (no_window\<lparr>w_range := ''all''\<rparr>) 1, ep_page = page,
              ep_prev = (if 1 < page then Some (listURL f win (wrap (page - 1))) else None),
              ep_next = (if hasNext then Some (listURL f win (wrap (page + 1))) else None),
              ep_current = listURL f win page\<rparr>, s2))) s)"

section \<open>The dashboard\<close>

record chartDay =
  cd_date :: string
  cd_sent :: nat
  cd_failed :: nat

record dashboardData =
  dd_range_days :: nat
  dd_daily :: "chartDay list"
  dd_domains :: "domain_stats list"
  dd_reasons :: "(string \<times> nat) list"

definition range_days :: "(string \<Rightarrow> string) \<Rightarrow> nat" where
  "range_days q = (if q ''range'' = ''7'' then 7 else if q ''range'' = ''90'' then 90 else 30)"

text \<open>\<^verbatim>\<open>now.Truncate(24 * time.Hour)\<close> counts from the year 1, which starts at a midnight.\<close>

definition truncate_day :: "time \<Rightarrow> time" where
  "truncate_day t = t - t mod (24 * hour)"

definition start_day :: "nat \<Rightarrow> time \<Rightarrow> time" where
  "start_day days now = AddDate (truncate_day now) 0 0 (- (int days - 1))"

text \<open>A day without emails is the zero value of \<^verbatim>\<open>DayCount\<close>; the last row of a date wins.\<close>

definition by_day :: "day_count list \<Rightarrow> string \<Rightarrow> day_count option" where
  "by_day daily date = find (\<lambda>d. dc_date d = date) (rev daily)"

definition chart_day :: "time \<Rightarrow> day_count list \<Rightarrow> nat \<Rightarrow> chartDay" where
  "chart_day startDay daily i =
     (let date = fmt_date (AddDate startDay 0 0 (int i))
      in case by_day daily date of
           None \<Rightarrow> \<lparr>cd_date = date, cd_sent = 0, cd_failed = 0\<rparr>
         | Some dc \<Rightarrow> \<lparr>cd_date = date, cd_sent = dc_sent dc, cd_failed = dc_failed dc\<rparr>)"

definition dashboard :: "(string \<Rightarrow> string) \<Rightarrow> (summary \<times> dashboardData) db" where
  "dashboard q s =
     (let days = range_days q; startDay = start_day days (db_clock s);
          lo = FmtTime startDay; hi = FmtTime (AddDate startDay 0 0 (int days))
      in db_bind (SummaryStats lo hi) (\<lambda>sm s1.
        (let (daily, s2) = or_empty (DailyVolume lo hi) s1;
             (domainStats, s3) = or_empty (DomainVolume lo hi) s2;
             (reasons, s4) = or_empty (FailureReasons lo hi 8) s3
         in (Inr (sm, \<lparr>dd_range_days = days, dd_daily = map (chart_day startDay daily) [0..<days],
               dd_domains = sort_desc (\<lambda>d. ds_sent d + ds_failed d) domainStats,
               dd_reasons = reasons\<rparr>), s4))) s)"

end
