(* ===== verification/PageLemmas.thy ===== *)
theory PageLemmas
  imports Pages
begin

text \<open>
  Lemmas on the admin pages: numbers in links, the parameters of a link, and the days a
  period or a dashboard covers.
\<close>

section \<open>Numbers in links\<close>

lemma digit_value_digit: "n < 10 \<Longrightarrow> digit_value (digit n) = Some n"
proof -
  assume "n < 10"
  then have "of_char (digit n) = (48 + n :: nat)" by (simp add: digit_def of_char_of take_bit_eq_mod)
  then show ?thesis using \<open>n < 10\<close> by (simp add: digit_value_def Let_def)
qed

lemma itoa_step: "\<not> n < 10 \<Longrightarrow> itoa n = itoa (n div 10) @ [digit (n mod 10)]"
  by (subst itoa.simps) simp

lemma itoa_small: "n < 10 \<Longrightarrow> itoa n = [digit n]"
  by (subst itoa.simps) simp

lemma scan_itoa: "n < 2 ^ 64 \<Longrightarrow> scan_digits 0 (itoa n @ ys) = scan_digits n ys"
proof (induction n arbitrary: ys rule: less_induct)
  case (less n)
  show ?case
  proof (cases "n < 10")
    case True
    then show ?thesis by (simp add: itoa_small digit_value_digit)
  next
    case False
    then have "n div 10 < n" "n div 10 < 2 ^ 64" using less.prems by auto
    from less.IH[OF this] False less.prems show ?thesis
      by (simp add: itoa_step digit_value_digit Let_def)
  qed
qed

lemma itoa_head: "\<exists>d ds. d < 10 \<and> itoa n = digit d # ds"
proof (induction n rule: less_induct)
  case (less n)
  show ?case
  proof (cases "n < 10")
    case True
    then show ?thesis by (auto simp: itoa_small)
  next
    case False
    with less.IH[of "n div 10"] show ?thesis by (auto simp: itoa_step)
  qed
qed

lemma no_sign: "\<not> HasPrefix (itoa n) ''-''" "\<not> HasPrefix (itoa n) ''+''" "itoa n \<noteq> []"
proof -
  obtain d ds where d: "d < 10" "itoa n = digit d # ds" using itoa_head by blast
  have "digit d \<noteq> CHR ''-''" "digit d \<noteq> CHR ''+''"
    using d(1) by (auto simp: digit_def char_of_eq_iff take_bit_eq_mod)
  then show "\<not> HasPrefix (itoa n) ''-''" "\<not> HasPrefix (itoa n) ''+''" "itoa n \<noteq> []"
    by (simp_all add: d(2) HasPrefix_def)
qed

text \<open>\<^verbatim>\<open>strconv.Atoi(strconv.Itoa(n))\<close> is \<open>n\<close>.\<close>

lemma int_value_Itoa:
  assumes "- (2 ^ 63) \<le> n" "n < 2 ^ 63"
  shows "int_value (Itoa n) = n"
proof (cases "n < 0")
  case True
  have "scan_digits 0 (itoa (nat (- n))) = nat (- n)"
    using scan_itoa[of "nat (- n)" "[]"] assms True by (simp add: nat_less_iff)
  with True assms show ?thesis by (simp add: Itoa_def int_value_def Let_def HasPrefix_def)
next
  case False
  have "scan_digits 0 (itoa (nat n)) = nat n"
    using scan_itoa[of "nat n" "[]"] assms False by (simp add: nat_less_iff)
  with False assms show ?thesis by (simp add: Itoa_def int_value_def Let_def no_sign)
qed

lemma int_value_range: "- (2 ^ 63) \<le> int_value s \<and> int_value s < 2 ^ 63"
  by (auto simp: int_value_def Let_def min_def)

lemma Itoa_not_empty: "Itoa n \<noteq> []"
  by (simp add: Itoa_def no_sign)

section \<open>Following a link\<close>

text \<open>What \<^verbatim>\<open>r.URL.Query().Get\<close> reads from a link.\<close>

definition link_get :: "link \<Rightarrow> string \<Rightarrow> string" where
  "link_get l k = (case map_of l k of None \<Rightarrow> [] | Some v \<Rightarrow> v)"

lemma link_get_listURL:
  "link_get (listURL f wd p) ''status'' = f_status f" "link_get (listURL f wd p) ''q'' = f_search f"
  "link_get (listURL f wd p) ''from'' = w_from_date wd" "link_get (listURL f wd p) ''to'' = w_to_date wd"
  "link_get (listURL f wd p) ''range'' = w_range wd" "link_get (listURL f wd p) ''page'' = Itoa p"
  "link_get (listURL f wd p) ''domain'' = (if f_domain_id f = 0 then [] else Itoa (f_domain_id f))"
  by (simp_all add: link_get_def listURL_def)

lemma int_value_empty: "int_value [] = 0"
  by (simp add: int_value_def HasPrefix_def)

section \<open>The resolved period\<close>

lemma parseFilterDate_nonempty: "parseFilterDate v = Some d \<Longrightarrow> v \<noteq> []"
  by (auto simp: parseFilterDate_def split: if_splits)

lemma parse_nothing: "parseFilterDate [] = None"
  by (simp add: parseFilterDate_def)

lemma customWindow_None:
  "customWindow v w = None \<longleftrightarrow> parseFilterDate v = None \<and> parseFilterDate w = None"
  by (auto simp: customWindow_def Let_def no_window_def dest: parseFilterDate_nonempty split: option.split)

lemma customWindow_Some:
  assumes "customWindow v w = Some win"
  shows "w_range win = ''custom'' \<and>
    w_from_date win = (if parseFilterDate v = None then [] else v) \<and>
    w_to_date win = (if parseFilterDate w = None then [] else w) \<and>
    w_created_from win = (case parseFilterDate v of None \<Rightarrow> [] | Some d \<Rightarrow> FmtTime d) \<and>
    w_created_to win = (case parseFilterDate w of None \<Rightarrow> [] | Some d \<Rightarrow> FmtTime (AddDate d 0 0 1))"
  using assms
  by (auto simp: customWindow_def Let_def no_window_def dest: parseFilterDate_nonempty split: option.splits if_splits)

text \<open>The dates a custom period shows are the dates it is made of.\<close>

lemma customWindow_again:
  assumes "customWindow v w = Some win"
  shows "customWindow (w_from_date win) (w_to_date win) = Some win"
proof -
  have d: "w_from_date win = (if parseFilterDate v = None then [] else v)"
    "w_to_date win = (if parseFilterDate w = None then [] else w)"
    using customWindow_Some[OF assms] by simp_all
  show ?thesis
    using assms unfolding d
    by (cases "parseFilterDate v"; cases "parseFilterDate w") (simp_all add: customWindow_def Let_def parse_nothing)
qed

lemma lookupEmailRange_key: "lookupEmailRange k = Some r \<Longrightarrow> rg_key r = k \<and> r \<in> set emailRanges"
  unfolding lookupEmailRange_def using find_Some_in by force

lemma presetWindow_sel:
  "w_range (presetWindow r now) = rg_key r" "w_label (presetWindow r now) = rg_title r"
  "w_from_date (presetWindow r now) = []" "w_to_date (presetWindow r now) = []"
  "w_created_to (presetWindow r now) = []"
  by (simp_all add: presetWindow_def Let_def no_window_def)

lemma resolve_cases:
  obtains (custom) win where "customWindow (q ''from'') (q ''to'') = Some win" "resolveEmailWindow q now = win"
    | (preset) r where "r \<in> set emailRanges" "lookupEmailRange (rg_key r) = Some r"
        "resolveEmailWindow q now = presetWindow r now"
proof (cases "customWindow (q ''from'') (q ''to'')")
  case None
  have def: "lookupEmailRange defaultEmailRange = Some (emailRanges ! 1)"
    by (simp add: lookupEmailRange_def emailRanges_def defaultEmailRange_def)
  show thesis
  proof (cases "lookupEmailRange (q ''range'')")
    case (Some r)
    with None preset[of r] lookupEmailRange_key[OF Some] show thesis by (simp add: resolveEmailWindow_def)
  next
    case range: None
    with None def preset[of "emailRanges ! 1"] lookupEmailRange_key[OF def] show thesis
      by (simp add: resolveEmailWindow_def)
  qed
qed (use custom in \<open>simp add: resolveEmailWindow_def\<close>)

lemma preset_not_custom: "r \<in> set emailRanges \<Longrightarrow> rg_key r \<noteq> ''custom''"
  by (auto simp: emailRanges_def)

section \<open>Days\<close>

definition day_ns :: int where "day_ns = 86400 * second"

lemma AddDate_midnight: "AddDate (midnight n) 0 0 k = midnight (n + k)"
proof -
  let ?c = "civil_of (midnight n)"
  have m: "c_month ?c \<in> {1..12}" using civil_ranges(1)[of "midnight n"] by simp
  have z: "sec_of_day (midnight n) = 0" unfolding sec_of_day_def midnight_div by simp
  have clock: "c_hour ?c = 0" "c_min ?c = 0" "c_sec ?c = 0" by (simp_all add: civil_of_simps(4-6) z)
  have "midnight n = Date (c_year ?c) (c_month ?c) (c_day ?c) 0 0 0 0"
    using Date_civil_of[of "midnight n"] clock midnight_div(2)[of n] by simp
  then have "midnight n = midnight (month_day (c_year ?c) (c_month ?c) + (c_day ?c - 1))"
    using Date_day[OF m] by simp
  then have n: "n = month_day (c_year ?c) (c_month ?c) + (c_day ?c - 1)" using abs_day_midnight by metis
  have "AddDate (midnight n) 0 0 k = Date (c_year ?c) (c_month ?c) (c_day ?c + k) 0 0 0 0"
    by (simp add: AddDate_def Let_def clock midnight_div)
  also have "\<dots> = midnight (month_day (c_year ?c) (c_month ?c) + (c_day ?c + k - 1))" by (rule Date_day[OF m])
  also have "month_day (c_year ?c) (c_month ?c) + (c_day ?c + k - 1) = n + k" using n by simp
  finally show ?thesis .
qed

lemma truncate_midnight: "truncate_day t = midnight (abs_day t)"
proof -
  have "t - t mod (24 * hour) = t div (24 * hour) * (24 * hour)" by (simp add: minus_mod_eq_div_mult)
  moreover have "t div (24 * hour) = t div second div 86400"
    using zdiv_zmult2_eq[of 86400 t second] by simp
  ultimately show ?thesis by (simp add: truncate_day_def midnight_def abs_day_def)
qed

lemma fmt_date_midnight: "fmt_date (midnight (abs_day t)) = fmt_date t"
proof -
  have "abs_day (midnight (abs_day t)) = abs_day t" by (rule abs_day_midnight)
  then show ?thesis by (simp add: fmt_date_def Let_def civil_of_simps day_of_year_def)
qed

lemma take_FmtTime_date:
  assumes "stampable t"
  shows "take 10 (FmtTime t) = fmt_date t"
proof -
  have "length (fmt_date t) = 10" by (simp add: fmt_fixed[OF assms])
  then show ?thesis by (simp add: FmtTime_def)
qed

lemma fmt_date_inj:
  assumes "stampable t" "stampable u"
  shows "fmt_date t = fmt_date u \<longleftrightarrow> abs_day t = abs_day u"
proof
  assume e: "fmt_date t = fmt_date u"
  show "abs_day t = abs_day u"
  proof (rule ccontr)
    assume "abs_day t \<noteq> abs_day u"
    then consider "abs_day t < abs_day u" | "abs_day u < abs_day t" by linarith
    then show False
      using fmt_date_less[OF assms, of "[]" "[]"] fmt_date_less[OF assms(2,1), of "[]" "[]"] e by cases auto
  qed
next
  assume "abs_day t = abs_day u"
  then show "fmt_date t = fmt_date u" using fmt_date_midnight[of t] fmt_date_midnight[of u] by simp
qed

section \<open>The days of the dashboard\<close>

definition daily_of :: "email_row list \<Rightarrow> day_count list" where
  "daily_of rs = map (\<lambda>(day, g). \<lparr>dc_date = day, dc_sent = count_status [''sent''] g, dc_failed = count_status [''failed''] g\<rparr>)
     (groups (\<lambda>r. take 10 (er_created r)) rs)"

lemma by_day_daily:
  "by_day (daily_of rs) date = (let g = filter (\<lambda>r. take 10 (er_created r) = date) rs in
     if g = [] then None
     else Some \<lparr>dc_date = date, dc_sent = count_status [''sent''] g, dc_failed = count_status [''failed''] g\<rparr>)"
proof -
  let ?g = "filter (\<lambda>r. take 10 (er_created r) = date) rs"
  have dates: "map dc_date (daily_of rs) = map fst (groups (\<lambda>r. take 10 (er_created r)) rs)"
    by (simp add: daily_of_def comp_def case_prod_unfold)
  then have dist: "distinct (map dc_date (rev (daily_of rs)))"
    by (simp add: rev_map[symmetric] groups_keys)
  show ?thesis
  proof (cases "?g = []")
    case True
    then have "date \<notin> set (map dc_date (daily_of rs))"
      unfolding dates groups_keys by (auto simp: filter_empty_conv)
    with True show ?thesis by (auto simp: by_day_def find_None_notin)
  next
    case False
    let ?dc = "\<lparr>dc_date = date, dc_sent = count_status [''sent''] ?g, dc_failed = count_status [''failed''] ?g\<rparr>"
    have "(date, ?g) \<in> set (groups (\<lambda>r. take 10 (er_created r)) rs)"
      using False by (auto simp: groups_def filter_empty_conv)
    then have "?dc \<in> set (rev (daily_of rs))" unfolding daily_of_def by (force simp: image_iff)
    from find_key[OF dist this] False show ?thesis by (simp add: by_day_def Let_def)
  qed
qed

lemma chart_day_sel:
  "cd_date (chart_day s0 (daily_of rs) i) = fmt_date (AddDate s0 0 0 (int i))"
  "cd_sent (chart_day s0 (daily_of rs) i) =
     count_status [''sent''] (filter (\<lambda>r. take 10 (er_created r) = fmt_date (AddDate s0 0 0 (int i))) rs)"
  "cd_failed (chart_day s0 (daily_of rs) i) =
     count_status [''failed''] (filter (\<lambda>r. take 10 (er_created r) = fmt_date (AddDate s0 0 0 (int i))) rs)"
  by (auto simp: chart_day_def by_day_daily Let_def count_status_def filter_empty_conv)

text \<open>Every creation time is a timestamp the store wrote.\<close>

definition stamped :: "store \<Rightarrow> bool" where
  "stamped s \<longleftrightarrow> (\<forall>r \<in> set (t_emails s). \<exists>t. stampable t \<and> er_created r = FmtTime t)"

lemma stampable_between:
  assumes "stampable (midnight n)" "stampable (midnight m)" "n \<le> k" "k \<le> m"
  shows "stampable (midnight k)"
  using assms by (simp add: stampable_iff midnight_div)

text \<open>The days from one midnight to another hold exactly the emails created in between.\<close>

lemma days_cover:
  assumes ok: "stampable (midnight n)" "stampable (midnight (n + int days))"
    and rs: "\<forall>r \<in> set rs. \<exists>t. stampable t \<and> er_created r = FmtTime t"
    and range: "\<forall>r \<in> set rs. in_range (FmtTime (midnight n)) (FmtTime (midnight (n + int days))) r"
  shows "sum_list (map (\<lambda>i. length (filter P (filter (\<lambda>r. take 10 (er_created r) = fmt_date (midnight (n + int i))) rs))) [0..<days])
    = length (filter P rs)"
proof -
  let ?dates = "map (\<lambda>i. fmt_date (midnight (n + int i))) [0..<days]"
  have st: "stampable (midnight (n + int i))" if "i < days" for i
    using stampable_between[OF ok] that by simp
  have "inj_on (\<lambda>i. fmt_date (midnight (n + int i))) {0..<days}"
    using fmt_date_inj[OF st st] by (auto simp: inj_on_def abs_day_midnight)
  then have dist: "distinct ?dates" by (simp add: distinct_map)
  have "take 10 (er_created r) \<in> set ?dates" if r: "r \<in> set rs" for r
  proof -
    obtain t where t: "stampable t" "er_created r = FmtTime t" using rs r by blast
    have "FmtTime (midnight n) \<le> FmtTime t" "\<not> FmtTime (midnight (n + int days)) \<le> FmtTime t"
      using range r t(2) by (auto simp: in_range_def)
    then have d: "n \<le> abs_day t" "abs_day t < n + int days"
      using FmtTime_le_midnight[OF t(1)] ok by auto
    then obtain i where i: "abs_day t = n + int i" "i < days" by (metis add_less_cancel_left nat_less_iff
          zle_iff_zadd of_nat_less_iff)
    have "take 10 (er_created r) = fmt_date t" using take_FmtTime_date[OF t(1)] t(2) by simp
    then have "take 10 (er_created r) = fmt_date (midnight (n + int i))"
      using fmt_date_midnight[of t] i(1) by simp
    with i(2) show ?thesis by simp
  qed
  then have "sum_list (map (\<lambda>x. length (filter P (filter (\<lambda>r. take 10 (er_created r) = x) rs))) ?dates) = length (filter P rs)"
    by (intro sum_groups[OF dist]) auto
  then show ?thesis by (simp add: comp_def)
qed

lemma query_list_healthy:
  assumes "healthy s"
  obtains s1 where "env_step s s1" "healthy s1" "or_empty (query f) s = (f s1, s1)"
proof -
  obtain s1 where "env_step s s1" "healthy s1" "query f s = (Inr (f s1), s1)" using query_healthy[OF assms] .
  then show thesis by (intro that[of s1]) (simp_all add: or_empty_def)
qed

text \<open>What the dashboard shows on a database whose statements succeed.\<close>

lemma dashboard_healthy:
  assumes "healthy s" and days: "days = range_days q" and first: "first = start_day days (db_clock s)"
    and rs: "rs = filter (in_range (FmtTime first) (FmtTime (AddDate first 0 0 (int days)))) (t_emails s)"
  obtains t dd where "dashboard q s = (Inr (summary_of rs, dd), t)" "dd_range_days dd = days"
    "dd_daily dd = map (chart_day first (daily_of rs)) [0..<days]"
proof -
  let ?lo = "FmtTime first" and ?hi = "FmtTime (AddDate first 0 0 (int days))"
  obtain s1 where s1: "env_step s s1" "healthy s1"
      "SummaryStats ?lo ?hi s = (Inr (summary_of (filter (in_range ?lo ?hi) (t_emails s1))), s1)"
    using query_healthy[OF assms(1)] unfolding SummaryStats_def .
  obtain s2 where s2: "env_step s1 s2" "healthy s2"
      "or_empty (DailyVolume ?lo ?hi) s1 = (daily_of (filter (in_range ?lo ?hi) (t_emails s2)), s2)"
    using query_list_healthy[OF s1(2)] unfolding DailyVolume_def daily_of_def .
  have e: "filter (in_range ?lo ?hi) (t_emails s1) = rs" "filter (in_range ?lo ?hi) (t_emails s2) = rs"
    using s1(1) s2(1) by (simp_all add: rs)
  obtain doms s3 where s3: "or_empty (DomainVolume ?lo ?hi) s2 = (doms, s3)" by fastforce
  obtain reasons s4 where s4: "or_empty (FailureReasons ?lo ?hi 8) s3 = (reasons, s4)" by fastforce
  show thesis
    by (rule that[of "\<lparr>dd_range_days = days, dd_daily = map (chart_day first (daily_of rs)) [0..<days],
          dd_domains = sort_desc (\<lambda>d. ds_sent d + ds_failed d) doms, dd_reasons = reasons\<rparr>" s4])
      (simp_all add: dashboard_def Let_def db_bind_def s1(3)[unfolded e] s2(3)[unfolded e] s3 s4 flip: days first)
qed

section \<open>Custom periods\<close>

lemma civil_day_Date:
  assumes m: "m \<in> {1..12}" and d: "1 \<le> d" "d \<le> days_in y m"
  shows "civil_of (Date y m d 0 0 0 0) = \<lparr>c_year = y, c_month = m, c_day = d, c_hour = 0, c_min = 0, c_sec = 0\<rparr>"
proof -
  let ?t = "Date y m d 0 0 0 0"
  have t: "?t = midnight (month_day y m + (d - 1))" by (rule Date_day[OF m])
  then have day: "abs_day ?t = month_day y m + (d - 1)" by (simp only: abs_day_midnight)
  then have "month_day y m \<le> abs_day ?t \<and> abs_day ?t < month_day y (m + 1)"
    using d by (simp add: month_day_def days_in_def)
  then have ym: "c_year (civil_of ?t) = y" "c_month (civil_of ?t) = m" using month_day_iff[OF m, of y ?t] by auto
  have "sec_of_day ?t = 0" unfolding t sec_of_day_def midnight_div by simp
  moreover have "c_day (civil_of ?t) = d"
    using day ym by (simp add: civil_of_simps day_of_year_def month_day_def)
  ultimately show ?thesis using ym by (simp add: civil_of_simps civil.equality)
qed

text \<open>A date that parses is the text of its day.\<close>

lemma take_drop_digits:
  assumes "field i w v = Some n" "i + w \<le> length v"
  shows "n < 10 ^ w" "take w (drop i v) = fixed_digits w n"
proof -
  have "length (take w (drop i v)) = w" using assms(2) by simp
  with parse_digits_fixed[OF assms(1)[unfolded field_def]]
  show "n < 10 ^ w" "take w (drop i v) = fixed_digits w n" by simp_all
qed

lemma date_parts:
  assumes "length v = 10" "v ! 4 = CHR ''-''" "v ! 7 = CHR ''-''"
  shows "v = take 4 v @ ''-'' @ take 2 (drop 5 v) @ ''-'' @ take 2 (drop 8 v)"
proof -
  have "v = take 4 v @ v ! 4 # take 2 (drop 5 v) @ v ! 7 # take 2 (drop 8 v)"
    using assms(1) by (auto intro!: nth_equalityI simp: nth_append nth_Cons' less_Suc_eq numeral_nat)
  then show ?thesis using assms(2,3) by simp
qed

lemma parseFilterDate_Some:
  assumes "parseFilterDate v = Some t"
  shows "stampable t \<and> fmt_date t = v \<and> (\<exists>n. t = midnight n)"
proof -
  obtain y mo d where p: "length v = 10" "v ! 4 = CHR ''-''" "v ! 7 = CHR ''-''"
      "field 0 4 v = Some y" "field 5 2 v = Some mo" "field 8 2 v = Some d"
      "1 \<le> mo" "mo \<le> 12" "1 \<le> d" "int d \<le> days_in (int y) (int mo)"
      "t = Date (int y) (int mo) (int d) 0 0 0 0"
    using assms by (auto simp: parseFilterDate_def split: if_splits option.splits)
  have m: "int mo \<in> {1..12}" "1 \<le> int d" using p by simp_all
  note c = civil_day_Date[OF m p(10), folded p(11)]
  note y = take_drop_digits[OF p(4)] and mo = take_drop_digits[OF p(5)] and d = take_drop_digits[OF p(6)]
  have b: "y < 10 ^ 4" "mo < 10 ^ 2" "d < 10 ^ 2" using y(1) mo(1) d(1) p(1) by simp_all
  have "fmt_date t = fixed_digits 4 y @ ''-'' @ fixed_digits 2 mo @ ''-'' @ fixed_digits 2 d"
    using b append_int_fixed[of 4 "int y"] append_int_fixed[of 2 "int mo"] append_int_fixed[of 2 "int d"]
    by (simp add: fmt_date_def c Let_def)
  also have "\<dots> = v"
    using date_parts[OF p(1-3)] y(2) mo(2) d(2) p(1) by simp
  finally have "fmt_date t = v" .
  moreover have "stampable t" using b by (simp add: stampable_def c)
  moreover have "\<exists>n. t = midnight n" using Date_day[OF m(1)] p(11) by blast
  ultimately show ?thesis by blast
qed

lemma fmt_date_le:
  assumes "stampable t" "stampable u"
  shows "fmt_date t \<le> fmt_date u \<longleftrightarrow> abs_day t \<le> abs_day u"
proof (cases "abs_day t" "abs_day u" rule: linorder_cases)
  case less
  with fmt_date_less[OF assms, of "[]" "[]"] show ?thesis by simp
next
  case equal
  with fmt_date_inj[OF assms] show ?thesis by simp
next
  case greater
  with fmt_date_less[OF assms(2,1), of "[]" "[]"] show ?thesis by (simp add: not_le[symmetric] less_imp_not_less)
qed

lemma last_day:
  assumes "stampable (midnight n)" "\<not> stampable (midnight (n + 1))"
  shows "fmt_date (midnight n) = ''9999-12-31'' \<and> midnight (n + 1) = Date 10000 1 1 0 0 0 0"
proof -
  have ok: "0 \<le> c_year (civil_of (midnight n))" "c_year (civil_of (midnight n)) \<le> 9999"
    using assms(1) by (simp_all add: stampable_def)
  have n: "n + 1 = 3652059"
    using assms by (auto simp: stampable_iff midnight_div unix_to_absolute_def)
  have d0: "Date 9999 12 31 0 0 0 0 = midnight 3652058" "Date 10000 1 1 0 0 0 0 = midnight 3652059"
    using Date_day[of 12 9999 31] Date_day[of 1 10000 1]
    by (simp_all add: month_day_def days_before_year_def days_before_month_def is_leap_def)
  have "civil_of (midnight n) = \<lparr>c_year = 9999, c_month = 12, c_day = 31, c_hour = 0, c_min = 0, c_sec = 0\<rparr>"
    using civil_day_Date[of 12 31 9999] n d0 by (simp add: days_in_def days_before_month_def is_leap_def)
  then have "fmt_date (midnight n) = fixed_digits 4 9999 @ ''-'' @ fixed_digits 2 12 @ ''-'' @ fixed_digits 2 31"
    using append_int_fixed[of 4 9999] append_int_fixed[of 2 12] append_int_fixed[of 2 31]
    by (simp add: fmt_date_def Let_def)
  also have "\<dots> = ''9999-12-31''" by (simp add: fixed_digits_numeral digit_def char_of_eq_iff)
  finally show ?thesis using n d0 by simp
qed

end
