(* ===== verification/PageProps.thy ===== *)
theory PageProps
  imports PageLemmas Samples
begin

text \<open>The properties of the admin pages: links, pages, periods and the dashboard.\<close>

section \<open>Links\<close>

text \<open>C19. Following a link of the list of emails shows the page it names under the same filters and
  the same period: a custom period exactly, a preset one with the same key and label, ending
  when the link is followed. Numbers survive the way through the text of the link.\<close>

theorem links_keep_filters:
  assumes "1 \<le> p" "p < 2 ^ 63" "win = resolveEmailWindow q now" "f = list_filter q win"
    and "q' = link_get (listURL f win p)" "win' = resolveEmailWindow q' now'"
  shows "list_filter q' win' = f\<lparr>f_created_from := w_created_from win', f_created_to := w_created_to win',
      f_offset := page_offset p\<rparr> \<and> page_number q' = p \<and>
    w_range win' = w_range win \<and> w_label win' = w_label win \<and>
    w_from_date win' = w_from_date win \<and> w_to_date win' = w_to_date win \<and>
    (now' = now \<or> w_range win = ''custom'' \<longrightarrow> win' = win)"
proof -
  note get = link_get_listURL[of f win p, folded assms(5)]
  have page: "page_number q' = p"
    using int_value_Itoa[of p] assms(1,2) by (simp add: page_number_def get Let_def)
  have dom: "int_value (q' ''domain'') = f_domain_id f"
  proof -
    have d: "f_domain_id f = int_value (q ''domain'')" by (simp add: assms(4) list_filter_def)
    have "int_value (Itoa (f_domain_id f)) = f_domain_id f"
      unfolding d by (rule int_value_Itoa) (use int_value_range in blast)+
    then show ?thesis by (simp add: get int_value_empty)
  qed
  have filt: "list_filter q' win' = f\<lparr>f_created_from := w_created_from win', f_created_to := w_created_to win',
      f_offset := page_offset p\<rparr>"
    by (simp add: list_filter_def[of q'] page dom get(1,2)) (simp add: assms(4) list_filter_def)
  have win: "w_range win' = w_range win \<and> w_label win' = w_label win \<and>
    w_from_date win' = w_from_date win \<and> w_to_date win' = w_to_date win \<and>
    (now' = now \<or> w_range win = ''custom'' \<longrightarrow> win' = win)"
  proof (cases rule: resolve_cases[of q now])
    case (custom w)
    with assms(3) have "customWindow (q' ''from'') (q' ''to'') = Some win"
      using customWindow_again by (simp add: get)
    then have "win' = win" unfolding assms(6) by (simp add: resolveEmailWindow_def)
    then show ?thesis by simp
  next
    case (preset r)
    have w: "win = presetWindow r now" using preset(3) assms(3) by simp
    then have "customWindow (q' ''from'') (q' ''to'') = None"
      by (simp add: get presetWindow_sel customWindow_None parse_nothing)
    then have "win' = presetWindow r now'"
      unfolding assms(6) using preset(2) w by (simp add: resolveEmailWindow_def get presetWindow_sel)
    then show ?thesis using w preset_not_custom[OF preset(1)] by (auto simp: presetWindow_sel)
  qed
  show ?thesis using filt page win by blast
qed

theorem links_keep_filters_witness:
  "page_number (link_get (listURL (list_filter (\<lambda>k. []) (resolveEmailWindow (\<lambda>k. []) 0))
     (resolveEmailWindow (\<lambda>k. []) 0) 3)) = 3"
  using links_keep_filters[of 3, OF _ _ refl refl refl refl, of "\<lambda>k. []" 0] by simp

section \<open>Pages\<close>




text \<open>The largest page number a request can name makes the offset wrap around to -100, which
  SQLite takes for none: the page with that number shows the first emails.\<close>

theorem huge_page_wraps:
  "page_number (\<lambda>k. if k = ''page'' then ''9223372036854775807'' else []) = 9223372036854775807 \<and>
   page_offset 9223372036854775807 = - 100 \<and> sql_offset (page_offset 9223372036854775807) xs = xs"
proof -
  have v: "int_value ''9223372036854775807'' = 9223372036854775807"
    by (simp add: int_value_def HasPrefix_def digit_value_def Let_def)
  have o: "page_offset 9223372036854775807 = - 100"
    by (simp add: page_offset_def pageSize_def wrap_def)
  show ?thesis using v o by (simp add: page_number_def sql_offset_def)
qed

section \<open>Custom periods\<close>

text \<open>A custom period of two dates holds the emails created on those days and the days
  between, the last day included: an email is in it exactly when the date of its creation,
  as text, lies between the two dates.\<close>

theorem custom_period_days:
  assumes "customWindow v w = Some win" "parseFilterDate v = Some d" "parseFilterDate w = Some e"
    and "w \<noteq> ''9999-12-31''" "stampable t" "er_created r = FmtTime t"
  shows "in_range (w_created_from win) (w_created_to win) r \<longleftrightarrow>
    v \<le> take 10 (er_created r) \<and> take 10 (er_created r) \<le> w"
proof -
  obtain n where n: "d = midnight n" "stampable (midnight n)" "fmt_date (midnight n) = v"
    using parseFilterDate_Some[OF assms(2)] by auto
  obtain m where m: "e = midnight m" "stampable (midnight m)" "fmt_date (midnight m) = w"
    using parseFilterDate_Some[OF assms(3)] by auto
  have m1: "stampable (midnight (m + 1))" using last_day[OF m(2)] m(3) assms(4) by auto
  have win: "w_created_from win = FmtTime (midnight n)" "w_created_to win = FmtTime (midnight (m + 1))"
    using customWindow_Some[OF assms(1)] assms(2,3) n(1) m(1) AddDate_midnight by simp_all
  have "in_range (w_created_from win) (w_created_to win) r \<longleftrightarrow> n \<le> abs_day t \<and> abs_day t \<le> m"
    using FmtTime_le_midnight[OF assms(5) n(2)] FmtTime_le_midnight[OF assms(5) m1]
    by (auto simp: in_range_def win assms(6) simp flip: not_le)
  moreover have "take 10 (er_created r) = fmt_date t" using take_FmtTime_date[OF assms(5)] assms(6) by simp
  moreover have "v \<le> fmt_date t \<longleftrightarrow> n \<le> abs_day t" "fmt_date t \<le> w \<longleftrightarrow> abs_day t \<le> m"
    using fmt_date_le[OF n(2) assms(5)] fmt_date_le[OF assms(5) m(2)] n(3) m(3) by (simp_all add: abs_day_midnight)
  ultimately show ?thesis by simp
qed

lemma sample_dates:
  "parseFilterDate ''2026-01-01'' = Some (Date 2026 1 1 0 0 0 0)"
  "parseFilterDate ''2026-02-28'' = Some (Date 2026 2 28 0 0 0 0)"
  "parseFilterDate ''9999-12-31'' = Some (Date 9999 12 31 0 0 0 0)"
  by (simp_all add: parseFilterDate_def field_def digit_value_def Let_def days_in_def days_before_month_def is_leap_def)

theorem custom_period_days_witness:
  "\<exists>win. customWindow ''2026-01-01'' ''2026-02-28'' = Some win \<and>
     (in_range (w_created_from win) (w_created_to win) ((sample_email 1 ''sent'' None)\<lparr>er_created := FmtTime sample_time\<rparr>) \<longleftrightarrow>
      ''2026-01-01'' \<le> take 10 (FmtTime sample_time) \<and> take 10 (FmtTime sample_time) \<le> ''2026-02-28'')"
proof -
  obtain win where win: "customWindow ''2026-01-01'' ''2026-02-28'' = Some win"
    using customWindow_None[of "''2026-01-01''" "''2026-02-28''"] sample_dates by auto
  have "stampable sample_time" by (simp add: stampable_def civil_sample_time)
  with custom_period_days[OF win sample_dates(1,2), of sample_time] win show ?thesis by auto
qed

text \<open>A period up to 9999-12-31 holds no email of the years 1001 to 9999: its end is written
  with a five-digit year, which sorts before every later timestamp.\<close>

theorem last_date_excludes_all:
  assumes "customWindow v ''9999-12-31'' = Some win" "1001 \<le> c_year (civil_of t)" "c_year (civil_of t) \<le> 9999"
    and "er_created r = FmtTime t" "f_created_to f = w_created_to win"
  shows "\<not> matches f r"
proof -
  obtain m where m: "Date 9999 12 31 0 0 0 0 = midnight m" "stampable (midnight m)" "fmt_date (midnight m) = ''9999-12-31''"
    using parseFilterDate_Some[OF sample_dates(3)] by auto
  have m': "m = 3652058"
  proof -
    have "Date 9999 12 31 0 0 0 0 = midnight 3652058"
      using Date_day[of 12 9999 31] by (simp add: month_day_def days_before_year_def days_before_month_def is_leap_def)
    then have "midnight m = midnight 3652058" using m(1) by simp
    then show ?thesis using abs_day_midnight by metis
  qed
  have "\<not> stampable (midnight (m + 1))" by (simp add: m' stampable_iff midnight_div unix_to_absolute_def)
  from last_day[OF m(2) this] have next_day: "AddDate (midnight m) 0 0 1 = Date 10000 1 1 0 0 0 0"
    using AddDate_midnight by simp
  have "itoa 10000 = fixed_digits 4 1000 @ ''0''"
    by (simp add: itoa_step itoa_small fixed_digits_numeral digit_def char_of_eq_iff)
  then have "fmt_date (Date 10000 1 1 0 0 0 0) = fixed_digits 4 1000 @ ''0-'' @ append_int 1 2 @ ''-'' @ append_int 1 2"
    using civil_Date[of 1 10000] by (simp add: fmt_date_def append_int_def[of 10000] Let_def)
  then obtain rest where hi: "w_created_to win = fixed_digits 4 1000 @ rest"
    using customWindow_Some[OF assms(1)] sample_dates(3) m(1) next_day by (simp add: FmtTime_def)
  define y where "y = nat (c_year (civil_of t))"
  have y: "1000 < y" "y < 10 ^ 4" using assms(2,3) by (simp_all add: y_def)
  have "stampable t" using assms(2,3) by (simp add: stampable_def)
  then obtain rest' where lo: "er_created r = fixed_digits 4 y @ rest'"
    by (simp add: assms(4) FmtTime_def fmt_fixed y_def)
  have "w_created_to win < er_created r"
    unfolding hi lo using lex_fixed[of 1000 4 y rest rest'] y by simp
  moreover have "w_created_to win \<noteq> []" using hi by (simp add: fixed_digits_numeral)
  ultimately show ?thesis by (auto simp: matches_def assms(5))
qed

theorem last_date_excludes_all_witness:
  "\<exists>win. customWindow [] ''9999-12-31'' = Some win \<and>
     \<not> matches (list_filter (\<lambda>k. []) win) ((sample_email 1 ''sent'' None)\<lparr>er_created := FmtTime sample_time\<rparr>)"
proof -
  obtain win where win: "customWindow [] ''9999-12-31'' = Some win"
    using customWindow_None[of "[]" "''9999-12-31''"] sample_dates by auto
  have f: "f_created_to (list_filter (\<lambda>k. []) win) = w_created_to win" by (simp add: list_filter_def)
  show ?thesis
    using last_date_excludes_all[OF win, of sample_time "(sample_email 1 ''sent'' None)\<lparr>er_created := FmtTime sample_time\<rparr>", OF _ _ _ f]
      win civil_sample_time by auto
qed

section \<open>The dashboard\<close>




end
