(* ===== verification/Admin.thy ===== *)
theory Admin
  imports Pages Message
begin

text \<open>
  \<^verbatim>\<open>internal/admin/admin.go\<close>: sessions, the operator's actions and the routes. The state is
  the map of sessions and the database; \<open>env n\<close> is what others do to the database between
  the n-th statement of an action and the next one, as in \<open>Api\<close>. A page is the data its
  template is given.
\<close>

section \<open>State, requests and responses\<close>

type_synonym sessions = "string \<rightharpoonup> time"

record admin =
  ad_password :: string
  ad_egress_ip :: string
  ad_admin_email :: string
  ad_hostname :: string
  ad_on_key_created :: "(string \<Rightarrow> string \<Rightarrow> store \<Rightarrow> store) option"
  ad_on_key_revoked :: "(string \<Rightarrow> string \<Rightarrow> store \<Rightarrow> store) option"
  ad_check_domain :: "(domain \<Rightarrow> dns_result) option"
  ad_login_fail_delay :: duration

definition new_admin :: "string \<Rightarrow> string \<Rightarrow> string \<Rightarrow> string \<Rightarrow> admin" where
  "new_admin password egressIP adminEmail hostname = \<lparr>ad_password = password, ad_egress_ip = egressIP,
     ad_admin_email = adminEmail, ad_hostname = hostname, ad_on_key_created = None, ad_on_key_revoked = None,
     ad_check_domain = None, ad_login_fail_delay = 1 * second\<rparr>"

datatype page =
    LoginPage string
  | DashboardPage summary dashboardData
  | EmailsPage emails_page
  | EmailPage email "attempt list" "domain option" bool bool string
  | DomainsPage "domain list"
  | DomainPage domain "dns_record list"
  | KeysPage "api_key list" "domain list" string

datatype reply =
    Render int page
  | HttpError int string
  | SeeOther string
  | HxRedirect string
  | LoggedIn string   \<comment> \<open>redirect to the emails, with the session cookie\<close>
  | LoggedOut

definition not_found :: reply where
  "not_found = HttpError 404 ''404 page not found''"

datatype route =
    RLogin string          \<comment> \<open>the password\<close>
  | RLoginPage
  | RLogout
  | RDashboard "string \<Rightarrow> string"
  | REmails "string \<Rightarrow> string"
  | RShowEmail string
  | RRetry string string   \<comment> \<open>the id and the recipient\<close>
  | RCancel string
  | RDomains
  | RCreateDomain string
  | RShowDomain string
  | RVerify string
  | RKeys
  | RCreateKey string string
  | RRevoke string

record admin_request =
  rq_route :: route
  rq_cookie :: "string option"
  rq_htmx :: bool

text \<open>What the random generator and the RSA library give a request.\<close>

record randomness =
  rd_session :: string
  rd_token :: "err + string"
  rd_rsa_key :: "err + string"

type_synonym env = "nat \<Rightarrow> store \<Rightarrow> store"

section \<open>Sessions\<close>

definition session_ttl :: duration where "session_ttl = 7 * 24 * hour"

definition newSession :: "randomness \<Rightarrow> sessions \<times> store \<Rightarrow> reply \<times> sessions \<times> store" where
  "newSession rd st = (case st of (sess, s) \<Rightarrow>
     (let token = hex_encode (rd_session rd) in (LoggedIn token, sess(token \<mapsto> db_clock s + session_ttl), s)))"

definition login :: "admin \<Rightarrow> randomness \<Rightarrow> string \<Rightarrow> sessions \<times> store \<Rightarrow> reply \<times> sessions \<times> store" where
  "login a rd password st = (case st of (sess, s) \<Rightarrow>
     if password \<noteq> ad_password a
     then (Render 401 (LoginPage ''Wrong password''), sess,
           if 0 < ad_login_fail_delay a then elapse (ad_login_fail_delay a) s else s)
     else newSession rd st)"

definition logout :: "string option \<Rightarrow> sessions \<times> store \<Rightarrow> reply \<times> sessions \<times> store" where
  "logout cookie st = (case st of (sess, s) \<Rightarrow>
     (LoggedOut, case cookie of None \<Rightarrow> sess | Some c \<Rightarrow> sess(c := None), s))"

definition authed :: "string option \<Rightarrow> sessions \<times> store \<Rightarrow> bool \<times> sessions" where
  "authed cookie st = (case st of (sess, s) \<Rightarrow>
     (case cookie of
        None \<Rightarrow> (False, sess)
      | Some c \<Rightarrow> (case sess c of
          None \<Rightarrow> (False, sess(c := None))
        | Some expires \<Rightarrow> if expires < db_clock s then (False, sess(c := None)) else (True, sess))))"

section \<open>Emails\<close>

definition retryable :: "string \<Rightarrow> bool" where
  "retryable status \<longleftrightarrow> status = ''queued'' \<or> status = ''failed'' \<or> status = ''canceled''"

definition cancelable :: "string \<Rightarrow> bool" where
  "cancelable status \<longleftrightarrow> status = ''queued''"

definition showEmail :: "'a libs_scheme \<Rightarrow> string \<Rightarrow> store \<Rightarrow> reply \<times> store" where
  "showEmail L pathId s =
     (let i = int_value pathId
      in case GetEmail i s of
           (Inl er, s1) \<Rightarrow> (not_found, s1)
         | (Inr e, s1) \<Rightarrow>
             (case or_empty (ListAttempts i) s1 of (attempts, s2) \<Rightarrow>
                (case GetDomain (e_domain_id e) s2 of (d, s3) \<Rightarrow>
                   (Render 200 (EmailPage e attempts (case d of Inl er \<Rightarrow> None | Inr d \<Rightarrow> Some d)
                      (retryable (e_status e)) (cancelable (e_status e)) (FormatAddress L (e_to_name e) (e_to e))), s3))))"

definition emailActionError :: "err \<Rightarrow> err \<Rightarrow> string \<Rightarrow> reply" where
  "emailActionError er guard verb =
     (if errors_Is er guard
      then HttpError 409 (''the email was picked up for delivery a moment ago and cannot be '' @ verb
             @ '' while it is sending; try again shortly'')
      else HttpError 500 (error_text er))"

text \<open>The new recipient: none for an empty or unchanged one, an error for one that does not parse.\<close>

definition new_recipient :: "'a libs_scheme \<Rightarrow> email \<Rightarrow> string \<Rightarrow> (string \<times> string) option" where
  "new_recipient L e form_to =
     (let v = TrimSpace L form_to
      in if v = [] then Some ([], [])
         else case lib_parse_address L v of
                None \<Rightarrow> None
              | Some (name, addr) \<Rightarrow>
                  if addr \<noteq> e_to e \<or> name \<noteq> e_to_name e then Some (addr, name) else Some ([], []))"

definition retryEmail :: "'a libs_scheme \<Rightarrow> env \<Rightarrow> string \<Rightarrow> string \<Rightarrow> store \<Rightarrow> reply \<times> store" where
  "retryEmail L env pathId form_to s =
     (let i = int_value pathId
      in case GetEmail i s of
           (Inl er, s1) \<Rightarrow> (not_found, s1)
         | (Inr e, s1) \<Rightarrow>
             if \<not> retryable (e_status e)
             then (HttpError 409 (''a '' @ e_status e @ '' email cannot be retried''), s1)
             else case new_recipient L e form_to of
               None \<Rightarrow> (HttpError 422 ''invalid address'', s1)
             | Some (newTo, newToName) \<Rightarrow>
                 (case RequeueEmail i newTo newToName (env 0 s1) of
                    (Inl er, s2) \<Rightarrow> (emailActionError er ErrNotRequeueable ''retried'', s2)
                  | (Inr _, s2) \<Rightarrow> (SeeOther (''/admin/emails/'' @ pathId), s2)))"

definition cancelEmail :: "env \<Rightarrow> string \<Rightarrow> store \<Rightarrow> reply \<times> store" where
  "cancelEmail env pathId s =
     (let i = int_value pathId
      in case GetEmail i s of
           (Inl er, s1) \<Rightarrow> (not_found, s1)
         | (Inr e, s1) \<Rightarrow>
             if \<not> cancelable (e_status e)
             then (HttpError 409 (''only a queued email can be canceled; this one is '' @ e_status e), s1)
             else case CancelEmail i (env 0 s1) of
                    (Inl er, s2) \<Rightarrow> (emailActionError er ErrNotCancelable ''canceled'', s2)
                  | (Inr _, s2) \<Rightarrow> (SeeOther (''/admin/emails/'' @ pathId), s2))"

section \<open>Domains\<close>

definition listDomains :: "store \<Rightarrow> reply \<times> store" where
  "listDomains s = (case or_empty ListDomains s of (ds, s1) \<Rightarrow> (Render 200 (DomainsPage ds), s1))"

definition createDomain :: "'a libs_scheme \<Rightarrow> rsa \<Rightarrow> randomness \<Rightarrow> string \<Rightarrow> store \<Rightarrow> reply \<times> store" where
  "createDomain L R rd form_name s =
     (let name = ToLower L (TrimSpace L form_name)
      in if name = [] \<or> ContainsAny name '' /@'' then (HttpError 422 ''invalid domain name'', s)
         else case Generate R (rd_rsa_key rd) of
                Inl er \<Rightarrow> (HttpError 500 (error_text er), s)
              | Inr (priv, pub) \<Rightarrow>
                  (case CreateDomain name ''mail1'' priv s of
                     (Inl er, s1) \<Rightarrow> (HttpError 500 (error_text er), s1)
                   | (Inr d, s1) \<Rightarrow> (SeeOther (''/admin/domains/'' @ Itoa (d_id d)), s1)))"

definition showDomain :: "admin \<Rightarrow> rsa \<Rightarrow> string \<Rightarrow> store \<Rightarrow> reply \<times> store" where
  "showDomain a R pathId s =
     (case GetDomain (int_value pathId) s of
        (Inl er, s1) \<Rightarrow> (not_found, s1)
      | (Inr d, s1) \<Rightarrow>
          (case PublicB64FromPrivatePEM R (d_private_key d) of
             Inl er \<Rightarrow> (HttpError 500 (error_text er), s1)
           | Inr pub \<Rightarrow> (Render 200 (DomainPage d
               (Records (d_name d) (d_selector d) pub (ad_egress_ip a) (ad_admin_email a))), s1)))"

text \<open>An error of the update is ignored.\<close>

definition verifyDomain :: "admin \<Rightarrow> env \<Rightarrow> string \<Rightarrow> store \<Rightarrow> reply \<times> store" where
  "verifyDomain a env pathId s =
     (case GetDomain (int_value pathId) s of
        (Inl er, s1) \<Rightarrow> (not_found, s1)
      | (Inr d, s1) \<Rightarrow>
          (case ad_check_domain a of
             None \<Rightarrow> (HttpError 500 ''verification not configured'', s1)
           | Some check \<Rightarrow>
               (let res = check d;
                    s2 = (if dr_indeterminate res then s1
                          else (let u = env 0 s1 in snd (SetDomainVerification (d_id d) (rr_ok (dr_spf res))
                                  (rr_ok (dr_dkim res)) (rr_ok (dr_dmarc res)) (Now u) u)))
                in (SeeOther (''/admin/domains/'' @ Itoa (d_id d)), s2))))"

section \<open>API keys\<close>

definition renderKeys :: "string \<Rightarrow> store \<Rightarrow> reply \<times> store" where
  "renderKeys newToken s =
     (case or_empty ListAPIKeys s of (keys, s1) \<Rightarrow>
        (case or_empty ListDomains s1 of (ds, s2) \<Rightarrow> (Render 200 (KeysPage keys ds newToken), s2)))"

text \<open>A callback, when it is set.\<close>

definition call :: "(string \<Rightarrow> string \<Rightarrow> store \<Rightarrow> store) option \<Rightarrow> string \<Rightarrow> string \<Rightarrow> store \<Rightarrow> store" where
  "call cb name domainName s = (case cb of None \<Rightarrow> s | Some f \<Rightarrow> f name domainName s)"

definition createKey :: "'a libs_scheme \<Rightarrow> admin \<Rightarrow> randomness \<Rightarrow> env \<Rightarrow> string \<Rightarrow> string \<Rightarrow> store \<Rightarrow> reply \<times> store" where
  "createKey L a rd env form_name form_domain s =
     (let name = TrimSpace L form_name; i = int_value form_domain
      in case GetDomain i s of (d, s1) \<Rightarrow>
        (case (name, d) of
           ([], _) \<Rightarrow> (HttpError 422 ''name and domain are required'', s1)
         | (_, Inl er) \<Rightarrow> (HttpError 422 ''name and domain are required'', s1)
         | (_, Inr dmn) \<Rightarrow>
             (case GenerateAPIKey L (rd_token rd) of
                Inl er \<Rightarrow> (HttpError 500 (error_text er), s1)
              | Inr (token, hash) \<Rightarrow>
                  (case CreateAPIKey name i hash (env 0 s1) of
                     (Inl er, s2) \<Rightarrow> (HttpError 500 (error_text er), s2)
                   | (Inr _, s2) \<Rightarrow> renderKeys token (call (ad_on_key_created a) name (d_name dmn) s2)))))"

text \<open>The names for the notification: of the listed key with the id, empty when there is none.\<close>

fun key_names :: "int \<Rightarrow> api_key list \<Rightarrow> string \<times> string \<Rightarrow> store \<Rightarrow> (string \<times> string) \<times> store" where
  "key_names i [] names s = (names, s)"
| "key_names i (k # ks) names s =
     (if k_id k = i
      then case GetDomain (k_domain_id k) s of
             (Inl er, s1) \<Rightarrow> key_names i ks (k_name k, snd names) s1
           | (Inr d, s1) \<Rightarrow> key_names i ks (k_name k, d_name d) s1
      else key_names i ks names s)"

definition revokeKey :: "admin \<Rightarrow> env \<Rightarrow> string \<Rightarrow> store \<Rightarrow> reply \<times> store" where
  "revokeKey a env pathId s =
     (let i = int_value pathId
      in case or_empty ListAPIKeys s of (keys, s1) \<Rightarrow>
        (case key_names i keys ([], []) (env 0 s1) of ((name, domainName), s2) \<Rightarrow>
           (case RevokeAPIKey i (env 1 s2) of
              (Inl er, s3) \<Rightarrow> (HttpError 500 (error_text er), s3)
            | (Inr _, s3) \<Rightarrow> (SeeOther ''/admin/keys'', call (ad_on_key_revoked a) name domainName s3))))"

section \<open>Routes\<close>

text \<open>The handlers behind \<^verbatim>\<open>a.auth\<close>.\<close>

definition protected ::
    "'a libs_scheme \<Rightarrow> admin \<Rightarrow> rsa \<Rightarrow> randomness \<Rightarrow> env \<Rightarrow> route \<Rightarrow> store \<Rightarrow> reply \<times> store" where
  "protected L a R rd env rt s = (case rt of
       RDashboard q \<Rightarrow> (case dashboard q s of (Inl er, s1) \<Rightarrow> (HttpError 500 (error_text er), s1)
                          | (Inr (sm, dd), s1) \<Rightarrow> (Render 200 (DashboardPage sm dd), s1))
     | REmails q \<Rightarrow> (case listEmails q s of (Inl er, s1) \<Rightarrow> (HttpError 500 (error_text er), s1)
                          | (Inr pg, s1) \<Rightarrow> (Render 200 (EmailsPage pg), s1))
     | RShowEmail i \<Rightarrow> showEmail L i s
     | RRetry i v \<Rightarrow> retryEmail L env i v s
     | RCancel i \<Rightarrow> cancelEmail env i s
     | RDomains \<Rightarrow> listDomains s
     | RCreateDomain n \<Rightarrow> createDomain L R rd n s
     | RShowDomain i \<Rightarrow> showDomain a R i s
     | RVerify i \<Rightarrow> verifyDomain a env i s
     | RKeys \<Rightarrow> renderKeys [] s
     | RCreateKey n d \<Rightarrow> createKey L a rd env n d s
     | RRevoke i \<Rightarrow> revokeKey a env i s
     | _ \<Rightarrow> (not_found, s))"

definition serve ::
    "'a libs_scheme \<Rightarrow> admin \<Rightarrow> rsa \<Rightarrow> randomness \<Rightarrow> env \<Rightarrow> admin_request \<Rightarrow> sessions \<times> store \<Rightarrow>
     reply \<times> sessions \<times> store" where
  "serve L a R rd env rq st = (case rq_route rq of
       RLogin password \<Rightarrow> login a rd password st
     | RLoginPage \<Rightarrow> (Render 200 (LoginPage []), st)
     | rt \<Rightarrow> (case authed (rq_cookie rq) st of (ok, sess) \<Rightarrow>
         if \<not> ok then (if rq_htmx rq then HxRedirect ''/admin/login'' else SeeOther ''/admin/login'', sess, snd st)
         else case rt of
             RLogout \<Rightarrow> logout (rq_cookie rq) (sess, snd st)
           | _ \<Rightarrow> (case protected L a R rd env rt (snd st) of (reply, s) \<Rightarrow> (reply, sess, s))))"

section \<open>Every handler keeps what the store's operations keep\<close>

text \<open>Callbacks that keep a relation; the notifier's do.\<close>

definition callbacks_keep :: "(store \<Rightarrow> store \<Rightarrow> bool) \<Rightarrow> admin \<Rightarrow> bool" where
  "callbacks_keep R a \<longleftrightarrow> (\<forall>f \<in> set_option (ad_on_key_created a) \<union> set_option (ad_on_key_revoked a).
     \<forall>n d s. R s (f n d s))"

context ingress_guarantee
begin

lemma keeps_after: "R s t \<Longrightarrow> R t u \<Longrightarrow> R s u"
  by (rule R_trans)

lemma keeps_showEmail: "R s (snd (showEmail L i s))"
  unfolding showEmail_def Let_def
  apply (rule keeps_then, rule keeps)
  subgoal for g t
    by (cases g) (auto intro!: keeps_then keeps_or_empty keeps simp: R_refl)
  done

lemma keeps_step:
  assumes env: "\<And>n s. R s (env n s)" and m: "\<And>s. R s (snd (m s))"
  shows "R s (snd (m (env n s)))"
  by (rule R_trans[OF env m])

lemma keeps_retryEmail:
  assumes env: "\<And>n s. R s (env n s)"
  shows "R s (snd (retryEmail L env i v s))"
proof -
  obtain g s1 where g: "GetEmail (int_value i) s = (g, s1)" by fastforce
  have 1: "R s s1" using keeps_reads(6)[of s "int_value i"] g by simp
  have 2: "R s (snd (RequeueEmail (int_value i) to nm (env 0 s1)))" for to nm
    by (rule R_trans[OF 1 keeps_step[OF env keeps_RequeueEmail]])
  show ?thesis
  proof (cases g)
    case (Inr e)
    have "R s (snd (case RequeueEmail (int_value i) to nm (env 0 s1) of
        (Inl er, s2) \<Rightarrow> (emailActionError er ErrNotRequeueable ''retried'', s2)
      | (Inr _, s2) \<Rightarrow> (SeeOther (''/admin/emails/'' @ i), s2)))" for to nm
      using 2[of to nm] by (auto split: prod.split sum.split)
    with 1 g Inr show ?thesis by (simp add: retryEmail_def Let_def split: option.split)
  qed (use 1 g in \<open>simp add: retryEmail_def Let_def\<close>)
qed

lemma keeps_cancelEmail:
  assumes env: "\<And>n s. R s (env n s)"
  shows "R s (snd (cancelEmail env i s))"
proof -
  obtain g s1 where g: "GetEmail (int_value i) s = (g, s1)" by fastforce
  have 1: "R s s1" using keeps_reads(6)[of s "int_value i"] g by simp
  have 2: "R s (snd (CancelEmail (int_value i) (env 0 s1)))"
    by (rule R_trans[OF 1 keeps_step[OF env keeps_ingress(7)]])
  show ?thesis
    using 1 2 g by (auto simp: cancelEmail_def Let_def split: prod.split sum.split)
qed

lemma keeps_domain_pages:
  assumes env: "\<And>n s. R s (env n s)"
  shows "R s (snd (listDomains s))" "R s (snd (createDomain L rsa rd n s))" "R s (snd (showDomain a rsa i s))"
    "R s (snd (verifyDomain a env i s))"
proof -
  show "R s (snd (listDomains s))"
    unfolding listDomains_def by (rule keeps_then, rule keeps_or_empty, rule keeps) (simp add: R_refl)
  show "R s (snd (createDomain L rsa rd n s))"
    unfolding createDomain_def Let_def
    using keeps_ingress(1)[of s "ToLower L (TrimSpace L n)" "''mail1''"]
    by (auto simp: R_refl split: sum.split prod.split) (metis snd_conv)+
  show "R s (snd (showDomain a rsa i s))"
    unfolding showDomain_def using keeps_reads(1)[of s "int_value i"] by (auto split: prod.split sum.split)
  show "R s (snd (verifyDomain a env i s))"
  proof -
    obtain g s1 where g: "GetDomain (int_value i) s = (g, s1)" by fastforce
    have 1: "R s s1" using keeps_reads(1)[of s "int_value i"] g by simp
    have 2: "R s (snd (SetDomainVerification j x y z (Now (env 0 s1)) (env 0 s1)))" for j x y z
      by (rule R_trans[OF R_trans[OF 1 env] keeps_ingress(2)])
    show ?thesis using 1 2 g by (auto simp: verifyDomain_def Let_def split: prod.split sum.split option.split)
  qed
qed

lemma keeps_renderKeys: "R s (snd (renderKeys tok s))"
  unfolding renderKeys_def by (rule keeps_then, rule keeps_or_empty, rule keeps)+ (simp add: R_refl)

lemma keeps_key_names: "R s (snd (key_names i ks names s))"
proof (induction ks arbitrary: names s)
  case (Cons k ks)
  have "R s (snd (case GetDomain (k_domain_id k) s of
             (Inl er, s1) \<Rightarrow> key_names i ks (k_name k, snd names) s1
           | (Inr d, s1) \<Rightarrow> key_names i ks (k_name k, d_name d) s1))"
    using keeps_reads(1)[of s "k_domain_id k"] Cons by (auto split: prod.split sum.split intro: R_trans)
  with Cons show ?case by simp
qed (simp add: R_refl)

lemma keeps_call: "callbacks_keep R a \<Longrightarrow> R s (call (ad_on_key_created a) n d s) \<and> R s (call (ad_on_key_revoked a) n d s)"
  by (auto simp: call_def callbacks_keep_def R_refl split: option.split)

end

context ingress_guarantee
begin

lemma keeps_createKey:
  assumes env: "\<And>n s. R s (env n s)" and cb: "callbacks_keep R a"
  shows "R s (snd (createKey L a rd env n dm s))"
proof -
  obtain g s1 where g: "GetDomain (int_value dm) s = (g, s1)" by fastforce
  have 1: "R s s1" using keeps_reads(1)[of s "int_value dm"] g by simp
  have 2: "R s (snd (CreateAPIKey nm i h (env 0 s1)))" for nm i h
    by (rule R_trans[OF 1 keeps_step[OF env keeps_ingress(3)]])
  have 3: "R s (snd (case CreateAPIKey nm i h (env 0 s1) of
      (Inl er, s2) \<Rightarrow> (HttpError 500 (error_text er), s2)
    | (Inr _, s2) \<Rightarrow> renderKeys tok (call (ad_on_key_created a) nm dn s2)))" for nm i h tok dn
  proof -
    obtain c s2 where c: "CreateAPIKey nm i h (env 0 s1) = (c, s2)" by fastforce
    have "R s s2" using 2[of nm i h] c by simp
    moreover have "R s2 (snd (renderKeys tok (call (ad_on_key_created a) nm dn s2)))"
      by (rule R_trans[OF _ keeps_renderKeys]) (simp add: keeps_call[OF cb])
    ultimately show ?thesis using c by (cases c) (auto intro: R_trans)
  qed
  show ?thesis
    using 1 3 g
    by (cases g; cases "TrimSpace L n"; cases "GenerateAPIKey L (rd_token rd)")
      (simp_all add: createKey_def Let_def case_prod_unfold)
qed

lemma keeps_revokeKey:
  assumes env: "\<And>n s. R s (env n s)" and cb: "callbacks_keep R a"
  shows "R s (snd (revokeKey a env i s))"
proof -
  obtain keys s1 where k: "or_empty ListAPIKeys s = (keys, s1)" by fastforce
  have 1: "R s s1" using keeps_or_empty[of ListAPIKeys s] keeps_reads(5) k by simp
  obtain nm dn s2 where n: "key_names (int_value i) keys ([], []) (env 0 s1) = ((nm, dn), s2)"
    by (metis prod.exhaust)
  have 2: "R s s2"
    using R_trans[OF R_trans[OF 1 env] keeps_key_names[of "env 0 s1" "int_value i" keys "([], [])"]] n by simp
  obtain r s3 where r: "RevokeAPIKey (int_value i) (env 1 s2) = (r, s3)" by fastforce
  have 3: "R s s3" using R_trans[OF R_trans[OF 2 env] keeps_ingress(4)[of "env 1 s2" "int_value i"]] r by simp
  have "R s (call (ad_on_key_revoked a) nm dn s3)"
    using R_trans[OF 3] keeps_call[OF cb] by blast
  with 3 k n r show ?thesis by (cases r) (simp_all add: revokeKey_def Let_def)
qed

lemma keeps_dashboard: "R s (snd (dashboard q s))"
  unfolding dashboard_def Let_def
  by (rule keeps_bind, rule keeps) (auto intro!: keeps_then keeps_or_empty keeps simp: R_refl)

lemma keeps_listEmails: "R s (snd (listEmails q s))"
  unfolding listEmails_def Let_def
  by (rule keeps_bind, rule keeps) (auto intro!: keeps_then keeps_or_empty keeps simp: R_refl)

lemma keeps_protected:
  assumes env: "\<And>n s. R s (env n s)" and cb: "callbacks_keep R a"
  shows "R s (snd (protected L a rsa rd env rt s))"
proof (cases rt)
  case (RDashboard q)
  then show ?thesis
    using keeps_dashboard[of s q] by (auto simp: protected_def split: prod.split sum.split)
next
  case (REmails q)
  then show ?thesis
    using keeps_listEmails[of s q] by (auto simp: protected_def split: prod.split sum.split)
qed (simp_all add: protected_def R_refl keeps_showEmail keeps_retryEmail[OF env] keeps_cancelEmail[OF env]
    keeps_domain_pages[OF env] keeps_renderKeys keeps_createKey[OF env cb] keeps_revokeKey[OF env cb])

lemma keeps_serve:
  assumes env: "\<And>n s. R s (env n s)" and cb: "callbacks_keep R a"
  shows "R (snd st) (snd (snd (serve L a rsa rd env rq st)))"
proof -
  obtain sess s where st: "st = (sess, s)" by fastforce
  have p: "R s (snd (protected L a rsa rd env rt s))" for rt by (rule keeps_protected[OF env cb])
  show ?thesis
    using p[of "rq_route rq"]
    by (auto simp: st serve_def login_def newSession_def logout_def Let_def R_refl keeps_elapse
        split: route.splits prod.splits option.splits)
qed

end

section \<open>Who gets in\<close>

lemma authed_iff:
  "fst (authed cookie (sess, s)) \<longleftrightarrow> (\<exists>c expires. cookie = Some c \<and> sess c = Some expires \<and> db_clock s \<le> expires)"
  by (auto simp: authed_def split: option.splits)

lemma authed_sessions: "snd (authed cookie (sess, s)) \<subseteq>\<^sub>m sess"
  by (auto simp: authed_def map_le_def split: option.splits)

text \<open>The routes that need no session.\<close>

definition open_route :: "route \<Rightarrow> bool" where
  "open_route rt \<longleftrightarrow> (case rt of RLogin p \<Rightarrow> True | RLoginPage \<Rightarrow> True | _ \<Rightarrow> False)"

lemma serve_refused:
  assumes "\<not> fst (authed (rq_cookie rq) (sess, s))" "\<not> open_route (rq_route rq)"
  shows "serve L a R rd env rq (sess, s) =
    (if rq_htmx rq then HxRedirect ''/admin/login'' else SeeOther ''/admin/login'', snd (authed (rq_cookie rq) (sess, s)), s)"
proof -
  obtain ok m where "authed (rq_cookie rq) (sess, s) = (ok, m)" by fastforce
  with assms show ?thesis by (cases "rq_route rq") (simp_all add: serve_def open_route_def)
qed

lemma serve_accepted:
  assumes "fst (authed (rq_cookie rq) (sess, s))" "\<not> open_route (rq_route rq)" "rq_route rq \<noteq> RLogout"
  shows "serve L a R rd env rq (sess, s) =
    (case protected L a R rd env (rq_route rq) s of (reply, t) \<Rightarrow> (reply, snd (authed (rq_cookie rq) (sess, s)), t))"
proof -
  obtain ok m where "authed (rq_cookie rq) (sess, s) = (ok, m)" by fastforce
  with assms show ?thesis by (cases "rq_route rq") (simp_all add: serve_def open_route_def)
qed

end
