(* ===== verification/AdminProps.thy ===== *)
theory AdminProps
  imports Admin Sender NotifyProps QueueLemmas
begin

text \<open>The properties of the admin interface: sessions, retry and cancel, keys.\<close>

section \<open>Sessions\<close>

text \<open>A request to any page but the login without a live session changes nothing in the
  database and is sent to the login page; no session comes of it.\<close>

theorem admin_needs_session:
  assumes "\<not> open_route (rq_route rq)"
    and "\<And>c expires. rq_cookie rq = Some c \<Longrightarrow> sess c = Some expires \<Longrightarrow> expires < db_clock s"
    and "serve L a R rd env rq (sess, s) = (reply, sess', t)"
  shows "t = s \<and> (reply = SeeOther ''/admin/login'' \<or> reply = HxRedirect ''/admin/login'') \<and> sess' \<subseteq>\<^sub>m sess"
proof -
  have "\<not> fst (authed (rq_cookie rq) (sess, s))"
    using assms(2) by (auto simp: authed_iff not_le[symmetric])
  from serve_refused[OF this assms(1), of L a R rd env] assms(3) show ?thesis
    using authed_sessions[of "rq_cookie rq" sess s] by (auto split: if_splits)
qed

definition sample_admin :: admin where
  "sample_admin = new_admin ''secret'' ''192.0.2.1'' ''ops@x.nl'' ''mail.x.nl''"

definition sample_random :: randomness where
  "sample_random = \<lparr>rd_session = ''0123456789abcdef'', rd_token = Inr ''fedcba9876543210'', rd_rsa_key = Inr ''pem''\<rparr>"

theorem admin_needs_session_witness:
  "\<exists>reply sess'. serve sample_libs sample_admin sample_rsa sample_random (\<lambda>_. id)
     \<lparr>rq_route = RRevoke ''1'', rq_cookie = Some ''guess'', rq_htmx = False\<rparr> (Map.empty, sample_store) = (reply, sess', sample_store)"
proof -
  let ?rq = "\<lparr>rq_route = RRevoke ''1'', rq_cookie = Some ''guess'', rq_htmx = False\<rparr>"
  obtain reply sess' t where r: "serve sample_libs sample_admin sample_rsa sample_random (\<lambda>_. id) ?rq (Map.empty, sample_store)
      = (reply, sess', t)" by (metis prod.exhaust)
  from admin_needs_session[OF _ _ r] r show ?thesis by (auto simp: open_route_def)
qed

text \<open>C15. A session exists only since someone gave the password: a request makes no other session
  than that of a correct login, which ends seven days later, and a logout ends its own.\<close>

theorem sessions_by_password:
  assumes "serve L a R rd env rq (sess, s) = (reply, sess', t)"
  shows "(\<forall>c expires. sess' c = Some expires \<longrightarrow> sess c = Some expires \<or>
      rq_route rq = RLogin (ad_password a) \<and> c = hex_encode (rd_session rd) \<and> expires = db_clock s + session_ttl) \<and>
    (\<forall>c. rq_route rq = RLogout \<longrightarrow> rq_cookie rq = Some c \<longrightarrow> sess' c = None)"
proof (cases "open_route (rq_route rq)")
  case True
  then show ?thesis
    using assms by (cases "rq_route rq") (auto simp: open_route_def serve_def login_def newSession_def Let_def split: if_splits)
next
  case False
  obtain ok m where am: "authed (rq_cookie rq) (sess, s) = (ok, m)" by fastforce
  have sub: "m \<subseteq>\<^sub>m sess" using authed_sessions[of "rq_cookie rq" sess s] am by simp
  have keep: "m c = Some x \<Longrightarrow> sess c = Some x" for c x
    using map_le_imp_upd_le[OF sub] sub by (metis domIff map_le_def option.distinct(1))
  show ?thesis
  proof (cases "ok \<and> rq_route rq = RLogout")
    case logging_out: True
    then have "sess' = (case rq_cookie rq of None \<Rightarrow> m | Some c \<Rightarrow> m(c := None))"
      using assms am by (simp add: serve_def logout_def)
    then show ?thesis using logging_out keep by (auto split: option.splits if_splits)
  next
    case other: False
    have "sess' = m"
    proof (cases ok)
      case True
      with serve_accepted[of rq sess s L a R rd env] False other am assms show ?thesis
        by (auto split: prod.splits)
    next
      case False
      with serve_refused[of rq sess s L a R rd env] \<open>\<not> open_route (rq_route rq)\<close> am assms show ?thesis by auto
    qed
    moreover have "sess' c = None" if "rq_route rq = RLogout" "rq_cookie rq = Some c" for c
      using other that am \<open>sess' = m\<close> by (auto simp: authed_def split: option.splits if_splits)
    ultimately show ?thesis using keep by blast
  qed
qed

theorem sessions_by_password_witness:
  "\<exists>reply sess' t. serve sample_libs sample_admin sample_rsa sample_random (\<lambda>_. id)
     \<lparr>rq_route = RLogin ''wrong'', rq_cookie = None, rq_htmx = False\<rparr> (Map.empty, sample_store) = (reply, sess', t) \<and> sess' = Map.empty"
proof -
  let ?rq = "\<lparr>rq_route = RLogin ''wrong'', rq_cookie = None, rq_htmx = False\<rparr>"
  obtain reply sess' t where r: "serve sample_libs sample_admin sample_rsa sample_random (\<lambda>_. id) ?rq (Map.empty, sample_store)
      = (reply, sess', t)" by (metis prod.exhaust)
  have "sess' c = None" for c
    using sessions_by_password[OF r] by (cases "sess' c") (auto simp: sample_admin_def new_admin_def)
  with r show ?thesis by blast
qed

section \<open>Retrying an email\<close>

text \<open>C23. A retry does what the email's state allows when the update runs, whatever happened to it
  after the page's own check: an email that was picked up or delivered in between is left as
  it is and the operator is told so; any other one is queued again from its first attempt, to
  the new recipient if one was given.\<close>

theorem retry_by_current_state:
  assumes "GetEmail (int_value i) s = (Inr e, s1)" "retryable (e_status e)"
    and "new_recipient L e v = Some (newTo, newToName)"
    and u: "u = env 0 s1" "healthy u" "wf_store u" "row_of (int_value i) u = Some r"
    and t: "retryEmail L env i v s = (reply, t)"
  shows "if requeueGuard r
    then reply = SeeOther (''/admin/emails/'' @ i) \<and> row_of (int_value i) t =
      Some (if newTo \<noteq> [] then readdress_row newTo newToName (Now u) r else requeue_row (Now u) r)
    else reply = emailActionError ErrNotRequeueable ErrNotRequeueable ''retried'' \<and> row_of (int_value i) t = Some r"
proof -
  let ?f = "if newTo \<noteq> [] then readdress_row newTo newToName (Now u) else requeue_row (Now u)"
  have R: "RequeueEmail (int_value i) newTo newToName u = guarded_update requeueGuard ?f ErrNotRequeueable (int_value i) u"
    by (simp add: RequeueEmail_def)
  have "er_id (?f q) = er_id q" for q by simp
  from guarded_update_row[OF u(2-4) this, of requeueGuard ErrNotRequeueable]
  have g: "fst (RequeueEmail (int_value i) newTo newToName u) = (if requeueGuard r then Inr () else Inl ErrNotRequeueable)"
    "row_of (int_value i) (snd (RequeueEmail (int_value i) newTo newToName u)) = Some (if requeueGuard r then ?f r else r)"
    unfolding R by simp_all
  have "retryEmail L env i v s = (case RequeueEmail (int_value i) newTo newToName u of
      (Inl er, s2) \<Rightarrow> (emailActionError er ErrNotRequeueable ''retried'', s2)
    | (Inr _, s2) \<Rightarrow> (SeeOther (''/admin/emails/'' @ i), s2))"
    using assms(1-3) u(1) by (simp add: retryEmail_def Let_def)
  with t g show ?thesis by (cases "RequeueEmail (int_value i) newTo newToName u") (auto split: if_splits)
qed

lemma int_value_4: "int_value ''4'' = 4"
  by (simp add: int_value_def HasPrefix_def digit_value_def Let_def)

text \<open>The worker takes the email between the check and the update.\<close>

theorem retry_by_current_state_witness:
  "\<exists>t. retryEmail sample_libs (\<lambda>_ s. s\<lparr>t_emails := update_where (\<lambda>r. er_id r = 4) (claim_row stamp1) (t_emails s)\<rparr>) ''4'' [] sample_store
     = (emailActionError ErrNotRequeueable ErrNotRequeueable ''retried'', t) \<and>
     row_of 4 t = Some (claim_row stamp1 (sample_email 4 ''failed'' (Some ''k4'')))"
proof -
  let ?env = "\<lambda>_ s. s\<lparr>t_emails := update_where (\<lambda>r. er_id r = 4) (claim_row stamp1) (t_emails s)\<rparr>"
  let ?e = "scanEmail (sample_email 4 ''failed'' (Some ''k4''))"
  let ?r = "claim_row stamp1 (sample_email 4 ''failed'' (Some ''k4''))"
  have g: "GetEmail (int_value ''4'') sample_store = (Inr ?e, sample_store)"
    by (simp add: int_value_4 GetEmail_def query_row_def stmt_def row_of_def sample_email_def)
  have e: "retryable (e_status ?e)" by (simp add: retryable_def sample_email_def)
  have n: "new_recipient sample_libs ?e [] = Some ([], [])"
    by (simp add: new_recipient_def TrimSpace_def is_ascii_def)
  let ?u = "?env 0 sample_store"
  have h: "healthy ?u" using healthy_sample_store by simp
  have w: "wf_store ?u"
    using wf_emails_update[OF _ keeps_row_code(1)] wf_sample_store
    by (simp add: wf_store_def row_simps)
  have r: "row_of (int_value ''4'') ?u = Some ?r"
    by (simp add: int_value_4 row_of_def update_where_def sample_email_def)
  obtain reply t where t: "retryEmail sample_libs ?env ''4'' [] sample_store = (reply, t)" by fastforce
  have "\<not> requeueGuard ?r" by (simp add: requeueGuard_def claim_row_def)
  with retry_by_current_state[OF g e n refl h w r t] t show ?thesis by (simp add: int_value_4)
qed

text \<open>The recipient the email page is filled with, submitted unchanged, is no new recipient:
  the name of the recipient is kept and the email is only queued again, provided the address
  parser reads back what the address printer wrote.\<close>

theorem unchanged_recipient:
  assumes "lib_parse_address L (FormatAddress L (e_to_name e) (e_to e)) = Some (e_to_name e, e_to e)"
    and "TrimSpace L (FormatAddress L (e_to_name e) (e_to e)) = FormatAddress L (e_to_name e) (e_to e)"
  shows "new_recipient L e (FormatAddress L (e_to_name e) (e_to e)) = Some ([], []) \<and>
    RequeueEmail i [] [] s = guarded_update requeueGuard (requeue_row (Now s)) ErrNotRequeueable i s"
  using assms by (simp add: new_recipient_def Let_def RequeueEmail_def)

theorem unchanged_recipient_witness:
  "new_recipient sample_libs (scanEmail (sample_email 4 ''failed'' None)) ''b@x.nl'' = Some ([], [])"
proof -
  let ?e = "scanEmail (sample_email 4 ''failed'' None)"
  have f: "FormatAddress sample_libs (e_to_name ?e) (e_to ?e) = ''b@x.nl''"
    by (simp add: FormatAddress_def sample_email_def)
  have p: "lib_parse_address sample_libs ''b@x.nl'' = Some (e_to_name ?e, e_to ?e)"
    by (simp add: sample_libs_def sample_email_def)
  have t: "TrimSpace sample_libs ''b@x.nl'' = ''b@x.nl''"
    by (simp add: TrimSpace_def is_ascii_def is_space_def Let_def)
  show ?thesis using unchanged_recipient[of sample_libs ?e] f p t by simp
qed

section \<open>Keys\<close>

lemma enqueue_keys: "t_keys (snd (enqueue n subject body s)) = t_keys s"
proof -
  obtain r t where e: "enqueue n subject body s = (r, t)" by fastforce
  then have "t_keys t = t_keys s" by (cases rule: enqueue_cases) simp_all
  with e show ?thesis by simp
qed

lemma or_empty_query_env: "or_empty (query f) s = (xs, t) \<Longrightarrow> env_step s t"
  by (cases "query f s") (auto simp: or_empty_def dest!: query_env split: sum.splits)

lemma renderKeys_keys: "t_keys (snd (renderKeys tok s)) = t_keys s"
proof -
  obtain ks s1 where k: "or_empty ListAPIKeys s = (ks, s1)" by fastforce
  obtain ds s2 where d: "or_empty ListDomains s1 = (ds, s2)" by fastforce
  have "env_step s s1" "env_step s1 s2"
    using k d or_empty_query_env unfolding ListAPIKeys_def ListDomains_def by blast+
  with k d show ?thesis by (simp add: renderKeys_def)
qed

lemma CreateAPIKey_adds:
  assumes "CreateAPIKey nm i h s = (Inr j, t)"
  shows "\<exists>k. t_keys t = t_keys s @ [k] \<and> h \<notin> k_hash ` set (t_keys s) \<and> k_name k = nm \<and> k_hash k = h \<and>
    k_domain_id k = i \<and> \<not> k_revoked k"
proof -
  have "stmt (insert_key nm i h (Now s)) s = (Inr j, t)" using assms by (simp add: CreateAPIKey_def)
  then show ?thesis
    by (cases rule: stmt_cases) (auto simp: insert_key_def Let_def split: if_splits)
qed

text \<open>C27. The token the operator is shown after creating a key is that of a live key of the chosen
  domain, under the name given: as long as the keys stay as they are, the API authenticates
  it as that key and no other.\<close>

theorem created_key_authenticates:
  assumes "createKey L a rd env form_name form_domain s = (Render 200 (KeysPage ks ds tok), t)"
    and "ad_on_key_created a = None \<or> ad_on_key_created a = Some (KeyCreated L n)"
    and u: "healthy u" "t_keys u = t_keys t" "h_authorization rq = ''Bearer '' @ tok"
  shows "\<exists>k v. auth L (\<lambda>_. id) rq u = (Inr k, v) \<and> k_name k = TrimSpace L form_name \<and>
    k_domain_id k = int_value form_domain \<and> k_hash k = HashAPIKey L tok \<and> \<not> k_revoked k"
proof -
  let ?nm = "TrimSpace L form_name"
  obtain g s1 where g: "GetDomain (int_value form_domain) s = (g, s1)" by fastforce
  have nm: "?nm \<noteq> []"
  proof
    assume "?nm = []"
    then have "createKey L a rd env form_name form_domain s = (HttpError 422 ''name and domain are required'', s1)"
      using g by (simp add: createKey_def Let_def)
    with assms(1) show False by simp
  qed
  obtain d where d: "g = Inr d"
  proof (cases g)
    case (Inl er)
    then have "createKey L a rd env form_name form_domain s = (HttpError 422 ''name and domain are required'', s1)"
      using g nm by (cases ?nm) (simp_all add: createKey_def Let_def)
    with assms(1) that show thesis by simp
  qed (rule that)
  obtain token hash where gen: "GenerateAPIKey L (rd_token rd) = Inr (token, hash)"
  proof (cases "GenerateAPIKey L (rd_token rd)")
    case (Inl er)
    then have "createKey L a rd env form_name form_domain s = (HttpError 500 (error_text er), s1)"
      using g d nm by (cases ?nm) (simp_all add: createKey_def Let_def)
    with assms(1) that show thesis by simp
  next
    case (Inr p)
    then show thesis using that by (cases p) simp
  qed
  have "createKey L a rd env form_name form_domain s = (case CreateAPIKey ?nm (int_value form_domain) hash (env 0 s1) of
      (Inl er, s2) \<Rightarrow> (HttpError 500 (error_text er), s2)
    | (Inr _, s2) \<Rightarrow> renderKeys token (call (ad_on_key_created a) ?nm (d_name d) s2))"
    using g d gen nm by (cases ?nm) (simp_all add: createKey_def Let_def split: prod.split sum.split)
  then have run: "(case CreateAPIKey ?nm (int_value form_domain) hash (env 0 s1) of
      (Inl er, s2) \<Rightarrow> (HttpError 500 (error_text er), s2)
    | (Inr _, s2) \<Rightarrow> renderKeys token (call (ad_on_key_created a) ?nm (d_name d) s2)) = (Render 200 (KeysPage ks ds tok), t)"
    using assms(1) by simp
  obtain c s2 where c: "CreateAPIKey ?nm (int_value form_domain) hash (env 0 s1) = (c, s2)" by fastforce
  then obtain j where j: "c = Inr j" using run by (cases c) auto
  have rend: "renderKeys token (call (ad_on_key_created a) ?nm (d_name d) s2) = (Render 200 (KeysPage ks ds tok), t)"
    using run c j by simp
  then have tok: "tok = token" by (auto simp: renderKeys_def split: prod.splits)
  have "t_keys (call (ad_on_key_created a) ?nm (d_name d) s2) = t_keys s2"
    using assms(2) by (auto simp: call_def KeyCreated_def enqueue_keys)
  then have keys: "t_keys t = t_keys s2" using renderKeys_keys rend by (metis snd_conv)
  obtain k where k: "t_keys s2 = t_keys (env 0 s1) @ [k]" "hash \<notin> k_hash ` set (t_keys (env 0 s1))"
      "k_name k = ?nm" "k_hash k = hash" "k_domain_id k = int_value form_domain" "\<not> k_revoked k"
    using CreateAPIKey_adds c j by blast
  have hash: "hash = HashAPIKey L tok" "tok \<noteq> []"
    using gen tok by (auto simp: GenerateAPIKey_def Let_def split: sum.splits)
  have find: "find (\<lambda>q. k_hash q = hash \<and> \<not> k_revoked q) (t_keys u) = Some k"
  proof -
    have "find (\<lambda>q. k_hash q = hash \<and> \<not> k_revoked q) (t_keys (env 0 s1)) = None"
      unfolding find_None_notin using k(2) by blast
    then show ?thesis by (simp add: u(2) keys k(1,4,6) find_append)
  qed
  obtain u1 where u1: "env_step u u1" "healthy u1" "GetAPIKeyByHash hash u =
      (Inr (find (\<lambda>q. k_hash q = hash \<and> \<not> k_revoked q) (t_keys u1)), u1)"
    using null_row_healthy[OF u(1)] unfolding GetAPIKeyByHash_def .
  have "bearer_token (h_authorization rq) = tok" unfolding u(3) bearer_token_def by (rule TrimPrefix_append)
  with u1 find hash u(3) have "auth L (\<lambda>_. id) rq u = (Inr k, snd (TouchAPIKey (k_id k) (Now u1) u1))"
    by (simp add: auth_def Let_def)
  with k hash show ?thesis by blast
qed

theorem created_key_authenticates_witness:
  "\<exists>ks ds tok t k v. createKey sample_libs sample_admin sample_random (\<lambda>_. id) ''app'' ''1'' sample_store
       = (Render 200 (KeysPage ks ds tok), t) \<and>
     auth sample_libs (\<lambda>_. id) \<lparr>h_authorization = ''Bearer '' @ tok, h_idempotency_key = [], h_body = [], h_path_id = []\<rparr> t
       = (Inr k, v) \<and> k_name k = ''app'' \<and> k_domain_id k = 1"
proof -
  have v: "int_value ''1'' = 1" by (simp add: int_value_def HasPrefix_def digit_value_def Let_def)
  have n: "TrimSpace sample_libs ''app'' = ''app''"
    by (simp add: TrimSpace_def is_ascii_def is_space_def Let_def)
  have g: "GetDomain 1 sample_store = (Inr (sample_domain 1 ''ok.nl'' True), sample_store)"
    by (simp add: GetDomain_def query_row_def stmt_def sample_domain_def)
  obtain token where gen: "GenerateAPIKey sample_libs (rd_token sample_random) = Inr (token, ''h'' @ token)" "length token = 35"
    by (simp add: GenerateAPIKey_def sample_random_def HashAPIKey_def sample_libs_def Let_def)
  have "CHR ''h'' # token \<notin> k_hash ` set (t_keys sample_store)" using gen(2) by (auto simp: sample_key_def)
  then obtain i s2 where c: "CreateAPIKey ''app'' 1 (''h'' @ token) sample_store = (Inr i, s2)" "db_script s2 = []"
    by (auto simp: CreateAPIKey_def stmt_def insert_key_def Let_def sample_domain_def)
  have "renderKeys token s2 = (Render 200 (KeysPage (sort_desc k_created (t_keys s2)) (sort_key d_name (t_domains s2)) token), s2)"
    using c(2) by (simp add: renderKeys_def or_empty_def ListAPIKeys_def ListDomains_def query_def stmt_def)
  then obtain ks ds where cr: "createKey sample_libs sample_admin sample_random (\<lambda>_. id) ''app'' ''1'' sample_store
      = (Render 200 (KeysPage ks ds token), s2)"
    using g gen c(1) by (simp add: createKey_def Let_def v n call_def sample_admin_def new_admin_def)
  have h: "healthy s2" using c(2) by (simp add: healthy_def)
  from created_key_authenticates[OF cr _ h refl, of undefined
      "\<lparr>h_authorization = ''Bearer '' @ token, h_idempotency_key = [], h_body = [], h_path_id = []\<rparr>"] cr
  show ?thesis by (auto simp: sample_admin_def new_admin_def v n)
qed

text \<open>Revoking an id that no key has is answered like a revocation and tells the operator that
  the key with the empty name was revoked.\<close>

theorem revoke_unknown_notifies:
  assumes "healthy s" "int_value i \<notin> k_id ` set (t_keys s)" "system_ready n s"
    and "ad_on_key_revoked a = Some (KeyRevoked L n)"
  shows "\<exists>t row. revokeKey a (\<lambda>_. id) i s = (SeeOther ''/admin/keys'', t) \<and> t_keys t = t_keys s \<and>
    t_emails t = t_emails s @ [row] \<and> er_text row = key_message L n [] [] ''revoked''"
proof -
  obtain s1 where s1: "env_step s s1" "healthy s1" "ListAPIKeys s = (Inr (sort_desc k_created (t_keys s1)), s1)"
    using query_healthy[OF assms(1)] unfolding ListAPIKeys_def .
  have names: "key_names j ks nms u = (nms, u)" if "j \<notin> k_id ` set ks" for j ks nms u
    using that by (induction ks) auto
  obtain s2 where s2: "env_step s1 s2" "healthy s2" "RevokeAPIKey (int_value i) s1 = (Inr (), revoke_key (int_value i) s2)"
    using exec_upd_healthy[OF s1(2)] unfolding RevokeAPIKey_def .
  have keys: "t_keys s2 = t_keys s" using s1(1) s2(1) by simp
  have same: "revoke_key (int_value i) s2 = s2"
  proof -
    have "update_where (\<lambda>k. k_id k = int_value i) (\<lambda>k. k\<lparr>k_revoked := True\<rparr>) (t_keys s2) = t_keys s2"
      unfolding update_where_def
    proof (rule map_idI)
      fix k assume "k \<in> set (t_keys s2)"
      then have "k_id k \<noteq> int_value i" using assms(2) imageI[of k "set (t_keys s)" k_id] by (metis keys)
      then show "(if k_id k = int_value i then k\<lparr>k_revoked := True\<rparr> else k) = k" by simp
    qed
    then show ?thesis unfolding revoke_key_def by simp
  qed
  have ready: "system_ready n s2" using assms(3) s1(1) s2(1) by simp
  obtain t row where t: "enqueue n ''doevoe: API key revoked'' (key_message L n [] [] ''revoked'') s2 = (Inr True, t)"
      "notice n ''doevoe: API key revoked'' (key_message L n [] [] ''revoked'') s2 row"
      "env_step (s2\<lparr>t_emails := t_emails s2 @ [row]\<rparr>) t"
    using enqueue_healthy[OF s2(2), of n "''doevoe: API key revoked''" "key_message L n [] [] ''revoked''"] ready by metis
  have "revokeKey a (\<lambda>_. id) i s = (SeeOther ''/admin/keys'', t)"
    using s1 s2(3) same t(1) names[of "int_value i"] assms(2,4)
    by (simp add: revokeKey_def Let_def or_empty_def call_def KeyRevoked_def)
  then show ?thesis
    using t(2,3) s1(1) s2(1) by (intro exI[of _ t] exI[of _ row]) (simp add: notice_def)
qed

theorem revoke_unknown_notifies_witness:
  "\<exists>t. revokeKey (sample_admin\<lparr>ad_on_key_revoked := Some (KeyRevoked sample_libs sample_notifier)\<rparr>) (\<lambda>_. id) ''4'' sample_store
     = (SeeOther ''/admin/keys'', t) \<and> length (t_emails t) = 6"
proof -
  have k: "int_value ''4'' \<notin> k_id ` set (t_keys sample_store)" by (simp add: int_value_4 sample_key_def)
  show ?thesis
    using revoke_unknown_notifies[OF healthy_sample_store k sample_ready, of
        "sample_admin\<lparr>ad_on_key_revoked := Some (KeyRevoked sample_libs sample_notifier)\<rparr>" sample_libs] by auto
qed

section \<open>The key of a new domain\<close>

lemma CreateDomain_adds:
  assumes "CreateDomain name sel pem s = (Inr d, t)"
  shows "t_domains t = t_domains s @ [d] \<and> d_name d = name \<and> d_selector d = sel \<and> d_private_key d = pem \<and> \<not> Verified d"
proof -
  obtain i s1 where ins: "stmt (insert_domain name sel pem (Now s)) s = (Inr i, s1)" and get: "GetDomain i s1 = (Inr d, t)"
    using assms by (auto simp: CreateDomain_def db_bind_def split: prod.splits sum.splits)
  obtain n where n: "t_domains s1 = t_domains s @ [n]" "i = next_rowid (map d_id (t_domains s))" "d_id n = i"
      "d_name n = name" "d_selector n = sel" "d_private_key n = pem" "\<not> Verified n"
    using ins by (cases rule: stmt_cases) (auto simp: insert_domain_def Let_def Verified_def split: if_splits)
  have fresh: "i \<notin> d_id ` set (t_domains s)"
    using next_rowid_fresh[of "map d_id (t_domains s)"] n(2) by simp
  have d: "env_step s1 t" "d \<in> set (t_domains s1)" "d_id d = i"
    using query_row_Inr[of "\<lambda>s. find (\<lambda>d. d_id d = i) (t_domains s)" s1 d t] get
    by (auto simp: GetDomain_def dest: find_Some_in)
  then have "d = n" using fresh n(1) by auto
  with d(1) n show ?thesis by simp
qed

text \<open>C22. A domain the operator adds can send as soon as its records are published: the key stored
  with it parses back to the key that was generated, messages of the domain are signed with
  it, and the DKIM record the operator is shown has its public half. The domain starts
  unverified, under its name in lower case without surrounding space.\<close>

theorem created_domain_signs:
  assumes "reads_back R" "createDomain L R rd form_name s = (SeeOther url, t)" "sg_rsa sg = R"
  shows "\<exists>d key pub. t_domains t = t_domains s @ [d] \<and> url = ''/admin/domains/'' @ Itoa (d_id d) \<and>
    d_name d = ToLower L (TrimSpace L form_name) \<and> \<not> Verified d \<and>
    rd_rsa_key rd = Inr key \<and> rsa_public R key = Inr pub \<and> PublicB64FromPrivatePEM R (d_private_key d) = Inr pub \<and>
    SignMessage sg msg d = sg_sign sg (d_name d) (d_selector d) key signed_headers msg"
proof -
  let ?name = "ToLower L (TrimSpace L form_name)"
  have ok: "\<not> (?name = [] \<or> ContainsAny ?name '' /@'')" using assms(2) by (auto simp: createDomain_def Let_def)
  then obtain priv pub where g: "Generate R (rd_rsa_key rd) = Inr (priv, pub)"
    using assms(2) by (auto simp: createDomain_def Let_def split: sum.splits)
  obtain c s1 where c: "CreateDomain ?name ''mail1'' priv s = (c, s1)" by fastforce
  have run: "(case c of Inl er \<Rightarrow> (HttpError 500 (error_text er), s1)
      | Inr d \<Rightarrow> (SeeOther (''/admin/domains/'' @ Itoa (d_id d)), s1)) = (SeeOther url, t)"
    using assms(2) ok unfolding createDomain_def Let_def if_not_P[OF ok] g sum.case prod.case c by (cases c) simp_all
  then obtain d where d: "c = Inr d" "url = ''/admin/domains/'' @ Itoa (d_id d)" "s1 = t" by (cases c) auto
  obtain key where key: "rd_rsa_key rd = Inr key" "rsa_public R key = Inr pub" "ParsePrivateKey R priv = Inr key"
      "PublicB64FromPrivatePEM R priv = Inr pub"
    using Generate_reads_back[OF assms(1) g] by blast
  have "t_domains t = t_domains s @ [d] \<and> d_name d = ?name \<and> d_selector d = ''mail1'' \<and> d_private_key d = priv \<and> \<not> Verified d"
    using CreateDomain_adds c d(1,3) by blast
  with d(2) key show ?thesis by (simp add: SignMessage_def assms(3))
qed

theorem created_domain_signs_witness:
  "\<exists>t d. createDomain sample_libs sample_rsa sample_random '' Nieuw.NL'' sample_store = (SeeOther ''/admin/domains/3'', t) \<and>
    t_domains t = t_domains sample_store @ [d] \<and> d_name d = ''nieuw.nl'' \<and>
    PublicB64FromPrivatePEM sample_rsa (d_private_key d) = Inr ''pem''"
proof -
  have nm: "ToLower sample_libs (TrimSpace sample_libs '' Nieuw.NL'') = ''nieuw.nl''"
    by (simp add: TrimSpace_def is_ascii_def is_space_def ToLower_def ascii_lower_def Let_def char_of_eq_iff)
  have g: "Generate sample_rsa (rd_rsa_key sample_random) = Inr (''pem'', ''pem'')"
    by (simp add: Generate_def sample_rsa_def sample_random_def Let_def)
  obtain t d where c: "CreateDomain ''nieuw.nl'' ''mail1'' ''pem'' sample_store = (Inr d, t)" "d_id d = 3"
    by (simp add: CreateDomain_def stmt_def insert_domain_def db_bind_def GetDomain_def query_row_def Let_def
        sample_domain_def next_rowid_def)
  have run: "createDomain sample_libs sample_rsa sample_random '' Nieuw.NL'' sample_store = (SeeOther ''/admin/domains/3'', t)"
    unfolding createDomain_def Let_def nm g using c by (simp add: ContainsAny_def Itoa_def itoa.simps digit_def char_of_eq_iff)
  have sg: "sg_rsa \<lparr>sg_rsa = sample_rsa, sg_sign = (\<lambda>_ _ _ _. Inr)\<rparr> = sample_rsa" by simp
  obtain d' key pub where "t_domains t = t_domains sample_store @ [d']" "d_name d' = ''nieuw.nl''"
      "rd_rsa_key sample_random = Inr key" "rsa_public sample_rsa key = Inr pub"
      "PublicB64FromPrivatePEM sample_rsa (d_private_key d') = Inr pub"
    using created_domain_signs[OF sample_reads_back run sg] unfolding nm by blast
  with run show ?thesis by (auto simp: sample_random_def sample_rsa_def)
qed


end
