(* ===== verification/Service.thy ===== *)
theory Service
  imports Config Api Admin Notifier Delivery "HOL-Library.Multiset"
begin

text \<open>
  The running service, as \<^verbatim>\<open>cmd/doevoe/main.go\<close> puts it together: which settings and callbacks
  its parts are given, and what all of them together do to the database. \<open>front\<close> is everything
  but the delivery: requests to the API and the admin pages, the notifier's ticks, the DNS
  loop, in any interleaving of their statements. \<open>service_step\<close> adds the delivery worker, whose
  state is the multiset of the emails in flight: claimed, and not settled yet.
\<close>

section \<open>The wiring of main\<close>

definition new_notifier :: "config \<Rightarrow> notifier" where
  "new_notifier c = \<lparr>n_admin_email = cf_admin_email c, n_system_from = cf_system_from c,
     n_base_url = base_url c, n_threshold = cf_threshold c, n_min_volume = cf_min_volume c,
     n_failure_rate_fn = None\<rparr>"

definition new_worker :: worker where
  "new_worker = \<lparr>w_batch_size = 0, w_per_domain_limit = 0, w_on_failure = Some PermanentFailure\<rparr>"

definition service_admin ::
    "'a libs_scheme \<Rightarrow> rsa \<Rightarrow> (string \<Rightarrow> err + string list) \<Rightarrow> config \<Rightarrow> admin" where
  "service_admin L K r c =
     (new_admin (cf_admin_password c) (cf_egress_ip c) (cf_admin_email c) (cf_hostname c))
       \<lparr>ad_check_domain := Some (checkDomain L K r (cf_egress_ip c)),
        ad_on_key_created := Some (KeyCreated L (new_notifier c)),
        ad_on_key_revoked := Some (KeyRevoked L (new_notifier c))\<rparr>"

text \<open>
  The start of \<^verbatim>\<open>main\<close>: it exits with status 1 when the configuration does not load or the
  database in its directory does not open. \<open>opened\<close> is the error of \<^verbatim>\<open>store.Open\<close>, if any, and
  \<open>new_sender\<close> is \<^verbatim>\<open>NewSender\<close> on the network of the machine.
\<close>

datatype start = ExitWith int | Ready notifier sender worker admin

definition main_start ::
    "'a libs_scheme \<Rightarrow> rsa \<Rightarrow> (string \<Rightarrow> err + string list) \<Rightarrow> (string \<Rightarrow> int \<Rightarrow> sender) \<Rightarrow>
     err + config \<Rightarrow> (string \<Rightarrow> string option) \<Rightarrow> start" where
  "main_start L K r new_sender loaded opened = (case loaded of
       Inl er \<Rightarrow> ExitWith 1
     | Inr c \<Rightarrow> (case opened (cf_data_dir c) of
           Some er \<Rightarrow> ExitWith 1
         | None \<Rightarrow> Ready (new_notifier c) (new_sender (cf_hostname c) (cf_smtp_port c)) new_worker
                     (service_admin L K r c)))"

lemma main_start_ready:
  "main_start L K r (\<lambda>h p. NewSender h p resolver srt net) loaded opened = Ready n sd w a \<Longrightarrow>
    \<exists>c. loaded = Inr c \<and> opened (cf_data_dir c) = None \<and> n = new_notifier c \<and> a = service_admin L K r c \<and>
      sd_hostname sd = cf_hostname c \<and> sd_port sd = cf_smtp_port c \<and> sd_tls sd"
  by (auto simp: main_start_def NewSender_def split: sum.splits option.splits)

section \<open>Everything but the delivery\<close>

text \<open>
  \<open>env n\<close> is what the others do between two statements of a handler: any run of \<open>front\<close>
  itself. The clock and the outcomes of the statements to come are free.
\<close>

inductive front ::
    "'a libs_scheme \<Rightarrow> rsa \<Rightarrow> (string \<Rightarrow> time) \<Rightarrow> config \<Rightarrow> store \<Rightarrow> store \<Rightarrow> bool"
    for L K other c where
  front_time: "env_step s t \<Longrightarrow> front L K other c s t"
| front_then: "front L K other c s t \<Longrightarrow> front L K other c t u \<Longrightarrow> front L K other c s u"
| front_post: "(\<And>n s. front L K other c s (env n s)) \<Longrightarrow>
    front L K other c s (snd (postEmail L decode env rq s))"
| front_get: "(\<And>n s. front L K other c s (env n s)) \<Longrightarrow>
    front L K other c s (snd (getEmail L env rq s))"
| front_admin: "(\<And>n s. front L K other c s (env n s)) \<Longrightarrow>
    front L K other c s (snd (snd (serve L (service_admin L K r c) K rd env arq (sess, s))))"
| front_notifier: "front L K other c s (notifier_round L other (new_notifier c) now s)"
| front_dns: "front L K other c s (recheck_round (checkDomain L K r (cf_egress_ip c)) s)"

section \<open>The delivery\<close>

type_synonym service = "email multiset \<times> store"

definition claimed_of :: "err + email list \<Rightarrow> email multiset" where
  "claimed_of res = (case res of Inl er \<Rightarrow> {#} | Inr es \<Rightarrow> mset es)"

text \<open>
  The statements of the API, the admin pages, the notifier and the DNS loop. As steps of their
  own, with any arguments, they stand for every interleaving of those parts with the worker.
\<close>

fun ingress_op :: "store_op \<Rightarrow> bool" where
  "ingress_op (OpClaim limit now) = False"
| "ingress_op (OpRequeueStale cutoff) = False"
| "ingress_op (OpMarkSent i tm) = False"
| "ingress_op (OpMarkRetry i nxt msg) = False"
| "ingress_op (OpMarkFailed i msg) = False"
| "ingress_op (OpRecordAttempt i no code mx resp ms) = False"
| "ingress_op (OpAddPending i) = False"
| "ingress_op op = True"

text \<open>
  The worker's statements are steps of their own too: the claim, the requeue of stale emails,
  and of a delivery the attempt it logs, the update that ends it, after which the email is no
  longer in flight, and the callback for a failure. Between any two of them everything else
  may happen. \<open>timely\<close> stands for the assumption behind the
  stale window: an email is requeued as stale only when no send of it is in flight. With
  \<open>timely\<close> false these are the steps of the code as it is. A crash loses the sends in flight
  and keeps the database.
\<close>

inductive service_step ::
    "'a libs_scheme \<Rightarrow> rsa \<Rightarrow> (string \<Rightarrow> time) \<Rightarrow> config \<Rightarrow> bool \<Rightarrow> service \<Rightarrow> service \<Rightarrow> bool"
    for L K other c timely where
  step_front: "front L K other c s t \<Longrightarrow> service_step L K other c timely (fl, s) (fl, t)"
| step_statement: "ingress_op op \<Longrightarrow> service_step L K other c timely (fl, s) (fl, run_op op s)"
| step_stale: "timely \<longrightarrow> (\<forall>e \<in># fl. cutoff < e_next e) \<Longrightarrow>
    service_step L K other c timely (fl, s) (fl, snd (RequeueStaleSending cutoff s))"
| step_claim: "ClaimDue limit now s = (res, t) \<Longrightarrow>
    service_step L K other c timely (fl, s) (fl + claimed_of res, t)"
| step_record: "e \<in># fl \<Longrightarrow>
    service_step L K other c timely (fl, s) (fl, recordAttempt e code mx resp ms s)"
| step_sent: "e \<in># fl \<Longrightarrow>
    service_step L K other c timely (fl, s) (fl - {#e#}, snd (MarkSent (e_id e) tm s))"
| step_retry: "e \<in># fl \<Longrightarrow> NextAttempt (e_attempts e + 1) now = Some nxt \<Longrightarrow>
    service_step L K other c timely (fl, s) (fl - {#e#}, snd (MarkRetry (e_id e) (FmtTime nxt) msg s))"
| step_failed: "e \<in># fl \<Longrightarrow>
    service_step L K other c timely (fl, s) (fl - {#e#}, snd (MarkFailed (e_id e) msg s))"
| step_report: "service_step L K other c timely (fl, s) (fl, PermanentFailure i s)"
| step_crash: "service_step L K other c timely (fl, s) ({#}, s)"

inductive service_run ::
    "'a libs_scheme \<Rightarrow> rsa \<Rightarrow> (string \<Rightarrow> time) \<Rightarrow> config \<Rightarrow> bool \<Rightarrow> service \<Rightarrow> service \<Rightarrow> bool"
    for L K other c timely where
  run_refl: "service_run L K other c timely st st"
| run_step: "service_run L K other c timely st st' \<Longrightarrow> service_step L K other c timely st' st'' \<Longrightarrow>
    service_run L K other c timely st st''"

inductive_cases service_stepE: "service_step L K other c timely (fl, s) (fl', t)"

lemma run_trans:
  "service_run L K other c timely st st' \<Longrightarrow> service_run L K other c timely st' st'' \<Longrightarrow>
    service_run L K other c timely st st''"
  by (rotate_tac, induction rule: service_run.induct) (blast intro: run_step)+

lemma run_one: "service_step L K other c timely st st' \<Longrightarrow> service_run L K other c timely st st'"
  by (blast intro: run_refl run_step)

section \<open>What every step keeps\<close>

context ingress_guarantee
begin

lemma keeps_ingress_op: "ingress_op op \<Longrightarrow> R s (run_op op s)"
  by (cases op) (auto intro: keeps)

lemma callbacks_service: "callbacks_keep R (service_admin L K r c)"
  by (simp add: callbacks_keep_def service_admin_def keeps)

lemma keeps_front: "front L K other c s t \<Longrightarrow> R s t"
proof (induction rule: front.induct)
  case (front_then s t u)
  then show ?case by (blast intro: R_trans)
next
  case (front_admin env s r rd arq sess)
  show ?case using keeps_serve[of env, OF front_admin(2) callbacks_service, of "(sess, s)"] by simp
qed (simp_all add: R_env keeps_postEmail keeps_getEmail keeps_notifier_round keeps_recheck_round)

end

context delivery_guarantee
begin

lemma keeps_claim: "ClaimDue limit now s = (res, t) \<Longrightarrow> R s t"
  using keeps_delivery(2)[of s limit now] by simp

end

context store_guarantee
begin

lemma keeps_service_step: "service_step L K other c timely st st' \<Longrightarrow> R (snd st) (snd st')"
  by (induction rule: service_step.induct)
    (auto intro: keeps_front keeps_ingress_op keeps_delivery keeps_claim R_refl keeps_recordAttempt
      keeps_PermanentFailure)

lemma keeps_service_run: "service_run L K other c timely st st' \<Longrightarrow> R (snd st) (snd st')"
  by (induction rule: service_run.induct) (blast intro: R_refl R_trans keeps_service_step)+

end

section \<open>The worker's steps on the emails table\<close>

text \<open>How the worker may leave the row of an email it settles.\<close>

definition finishing :: "email \<Rightarrow> (email_row \<Rightarrow> email_row) \<Rightarrow> bool" where
  "finishing e g \<longleftrightarrow> (\<exists>tm. g = sent_row tm) \<or> (\<exists>msg. g = failed_row msg) \<or>
     (\<exists>nxt msg. g = retry_row nxt msg \<and> e_attempts e < 7)"

definition settled_by :: "email \<Rightarrow> store \<Rightarrow> store \<Rightarrow> bool" where
  "settled_by e s t \<longleftrightarrow> t_emails t = t_emails s \<or>
     (\<exists>g. finishing e g \<and> t_emails t = update_where (\<lambda>r. er_id r = e_id e) g (t_emails s))"

lemma exec_update_cases:
  "t_emails (snd (exec_upd (update_email i g) s)) = t_emails s \<or>
   t_emails (snd (exec_upd (update_email i g) s)) = update_where (\<lambda>r. er_id r = i) g (t_emails s)"
proof -
  obtain r t where st: "stmt (\<lambda>s. (Inr (), update_email i g s)) s = (r, t)" by fastforce
  then have "t_emails t = t_emails s \<or> t_emails t = update_where (\<lambda>r. er_id r = i) g (t_emails s)"
    by (cases rule: stmt_cases) auto
  with st show ?thesis by (simp add: exec_upd_def)
qed

lemma recordAttempt_emails [simp]: "t_emails (recordAttempt e code mx resp ms s) = t_emails s"
proof -
  obtain r t where st: "stmt (insert_attempt (e_id e) (e_attempts e + 1) code mx resp ms (Now s)) s = (r, t)"
    by fastforce
  then have "t_emails t = t_emails s"
    by (cases rule: stmt_cases) (auto simp: insert_attempt_def split: if_splits)
  with st show ?thesis by (simp add: recordAttempt_def RecordAttempt_def)
qed

lemma PermanentFailure_emails [simp]: "t_emails (PermanentFailure i s) = t_emails s"
proof -
  obtain g s1 where g: "GetEmail i s = (g, s1)" by fastforce
  then have s1: "env_step s s1" unfolding GetEmail_def by (rule query_row_env)
  obtain r t where st: "stmt (insert_pending i (Now s1)) s1 = (r, t)" by fastforce
  then have "t_emails t = t_emails s1"
    by (cases rule: stmt_cases) (auto simp: insert_pending_def split: if_splits)
  with g s1 st show ?thesis
    by (auto simp: PermanentFailure_def AddPendingFailure_def split: sum.split)
qed

lemma settled_by_mark:
  "settled_by e s (snd (MarkFailed (e_id e) msg s))" "settled_by e s (snd (MarkSent (e_id e) tm s))"
  "NextAttempt (e_attempts e + 1) now = Some nxt \<Longrightarrow> settled_by e s (snd (MarkRetry (e_id e) (FmtTime nxt) msg s))"
  using exec_update_cases[of "e_id e" "failed_row msg" s] exec_update_cases[of "e_id e" "sent_row tm" s]
    exec_update_cases[of "e_id e" "retry_row (FmtTime nxt) msg" s]
  by (auto simp: settled_by_def finishing_def MarkFailed_def MarkSent_def MarkRetry_def
      later_NextAttempt split: if_splits)

section \<open>A delivery as a run of its statements\<close>

lemma run_time: "env_step s t \<Longrightarrow> service_run L K other c timely (fl, s) (fl, t)"
  by (intro run_one step_front front_time)

lemma run_markFailed:
  assumes "e \<in># fl"
  shows "service_run L K other c timely (fl, s) (fl - {#e#}, markFailed new_worker e msg s)"
  using run_trans[OF run_one[OF step_failed[OF assms]] run_one[OF step_report]]
  by (simp add: markFailed_def new_worker_def Let_def)

lemma run_retryOrFail:
  assumes "e \<in># fl"
  shows "service_run L K other c timely (fl, s) (fl - {#e#}, retryOrFail new_worker e now msg s)"
  by (cases "NextAttempt (e_attempts e + 1) now")
    (simp_all add: retryOrFail_def run_markFailed[OF assms] run_one[OF step_retry[OF assms]])

lemma run_abandon:
  assumes "e \<in># fl"
  shows "service_run L K other c timely (fl, s) (fl - {#e#}, abandon new_worker e now msg s)"
  unfolding abandon_def by (rule run_trans[OF run_one[OF step_record[OF assms]] run_retryOrFail[OF assms]])

lemma run_settle:
  assumes e: "e \<in># fl"
  shows "service_run L K other c timely (fl, s) (fl - {#e#}, settle new_worker e now outcome s)"
proof (cases outcome)
  case (SendDone res)
  note logged = run_one[OF step_record[OF e]]
  show ?thesis
    by (simp add: SendDone settle_def Let_def run_trans[OF logged run_one[OF step_sent[OF e]]]
        run_trans[OF logged run_markFailed[OF e]] run_trans[OF logged run_retryOrFail[OF e]] split: option.split)
qed (simp add: settle_def run_abandon[OF e])

section \<open>A tick as a run\<close>

lemma run_process:
  assumes e: "e \<in># fl"
  shows "service_run L K other c timely (fl, s) (fl - {#e#}, process new_worker send e now s)"
proof -
  obtain r s1 where g: "GetDomain (e_domain_id e) s = (r, s1)" by fastforce
  then have "env_step s s1" unfolding GetDomain_def by (rule query_row_env)
  then have 1: "service_run L K other c timely (fl, s) (fl, s1)" by (intro run_one step_front front_time)
  show ?thesis
  proof (cases r)
    case (Inl er)
    with g run_trans[OF 1 run_abandon[OF e]] show ?thesis by (simp add: process_def)
  next
    case (Inr d)
    let ?out = "send e d"
    have "env_step s1 (elapse (send_time ?out) s1)"
      unfolding env_step_def elapse_def by (rule exI[of _ "db_script s1"], rule exI[of _ "db_clock s1 + send_time ?out"]) simp
    then have "service_run L K other c timely (fl, s) (fl, elapse (send_time ?out) s1)"
      by (intro run_step[OF 1] step_front front_time)
    with g Inr run_trans[OF this run_settle[OF e]] show ?thesis by (simp add: process_def)
  qed
qed

lemma run_fold_process:
  "service_run L K other c timely (mset es, s) ({#}, fold (\<lambda>e. process new_worker send e now) es s)"
proof (induction es arbitrary: s)
  case (Cons e es)
  have "service_run L K other c timely (mset (e # es), s) (mset es, process new_worker send e now s)"
    using run_process[of e "mset (e # es)"] by simp
  from run_trans[OF this Cons] show ?case by simp
qed (simp add: run_refl)

lemma run_Tick:
  assumes order: "\<And>es. mset (order es) = mset es"
  shows "service_run L K other c timely ({#}, s) ({#}, snd (Tick new_worker send order now s))"
proof -
  let ?s1 = "snd (RequeueStaleSending (FmtTime (now + (- staleSendingWindow))) s)"
  have 1: "service_run L K other c timely ({#}, s) ({#}, ?s1)" by (rule run_one) (rule step_stale, simp)
  obtain res s2 where c: "ClaimDue 10 (FmtTime now) ?s1 = (res, s2)" by fastforce
  have 2: "service_run L K other c timely ({#}, s) (claimed_of res, s2)"
    using run_step[OF 1 step_claim[OF c]] by simp
  show ?thesis
  proof (cases res)
    case (Inl er)
    with 2 c show ?thesis by (simp add: Tick_def new_worker_def claimed_of_def Let_def)
  next
    case (Inr es)
    then have "service_run L K other c timely ({#}, s) (mset (order es), s2)"
      using 2 order[of es] by (simp add: claimed_of_def)
    from run_trans[OF this run_fold_process] c Inr show ?thesis
      by (simp add: Tick_def new_worker_def Let_def)
  qed
qed


lemma insert_pending_tables:
  assumes "stmt (insert_pending i now) s = (r, t)"
  shows "delivery_tables t = delivery_tables s \<and> (healthy s \<longrightarrow> healthy t)"
proof -
  have f: "delivery_tables (snd (insert_pending i now u)) = delivery_tables u"
    "healthy (snd (insert_pending i now u)) = healthy u" for u
    by (simp_all add: insert_pending_def delivery_tables_def)
  have "delivery_tables t = delivery_tables s"
    using assms
  proof (cases rule: stmt_cases)
    case (ok s')
    then show ?thesis using f(1)[of s'] by (simp add: delivery_tables_def)
  qed (simp add: delivery_tables_def)
  moreover have "healthy t" if h: "healthy s"
  proof -
    obtain s' where "healthy s'" "stmt (insert_pending i now) s = insert_pending i now s'"
      using stmt_healthy[OF h] by blast
    with f(2)[of s'] assms show ?thesis by simp
  qed
  ultimately show ?thesis by blast
qed

text \<open>The notifier's callback leaves the worker's tables alone.\<close>

lemma new_worker_benign: "benign_callback new_worker"
proof -
  have "delivery_tables (PermanentFailure i s) = delivery_tables s \<and> (healthy s \<longrightarrow> healthy (PermanentFailure i s))" for i s
  proof -
    obtain g s1 where g: "GetEmail i s = (g, s1)" by fastforce
    then have "env_step s s1" unfolding GetEmail_def by (rule query_row_env)
    then have d: "delivery_tables s1 = delivery_tables s" by (simp add: delivery_tables_def)
    have h: "healthy s1" if "healthy s"
      using query_row_healthy[OF that, of "\<lambda>s. map_option scanEmail (row_of i s)"] g unfolding GetEmail_def by auto
    obtain r t where st: "stmt (insert_pending i (Now s1)) s1 = (r, t)" by fastforce
    have "PermanentFailure i s = s1 \<or> PermanentFailure i s = t"
      using g st by (auto simp: PermanentFailure_def AddPendingFailure_def split: sum.split)
    then show ?thesis using insert_pending_tables[OF st] d h by auto
  qed
  then show ?thesis by (simp add: benign_callback_def new_worker_def)
qed

end
