(* ===== verification/Flights.thy ===== *)
theory Flights
  imports Service
begin

text \<open>
  The invariants of the running service: the bound on delivery tries, the emails in flight
  against the emails table, and the failures waiting for a digest.
\<close>

section \<open>The bound on tries\<close>

definition tries_ok :: "email_row \<Rightarrow> bool" where
  "tries_ok r \<longleftrightarrow> er_attempts r \<le> (if er_status r = ''sent'' \<or> er_status r = ''failed'' then 8 else 7)"

definition R_tries :: "store \<Rightarrow> store \<Rightarrow> bool" where
  "R_tries s t \<longleftrightarrow> ((\<forall>r \<in> set (t_emails s). tries_ok r) \<longrightarrow> (\<forall>r \<in> set (t_emails t). tries_ok r))"

lemma tries_update:
  assumes "\<And>r. P r \<Longrightarrow> tries_ok r \<Longrightarrow> tries_ok (f r)"
  shows "R_tries s (s\<lparr>t_emails := update_where P f (t_emails s)\<rparr>)"
  using assms by (simp add: R_tries_def set_update_where) blast

lemma tries_same: "t_emails t = t_emails s \<Longrightarrow> R_tries s t"
  by (simp add: R_tries_def)

lemma tries_new: "tries_ok (new_row i e)"
  by (simp add: tries_ok_def new_row_def)

lemma tries_requeue: "tries_ok (requeue_row now r)"
  by (simp add: tries_ok_def requeue_row_def)

lemma tries_readdress: "tries_ok (readdress_row to nm now r)"
  by (simp add: readdress_row_def tries_requeue)

lemma tries_cancel: "er_status r = ''queued'' \<Longrightarrow> tries_ok r \<Longrightarrow> tries_ok (r\<lparr>er_status := ''canceled''\<rparr>)"
  by (simp add: tries_ok_def)

lemmas tries_rows = tries_new tries_requeue tries_readdress tries_cancel

lemma tries_insert: "R_tries s (snd (insert_email e s))"
proof (cases "insert_email e s")
  case (Pair r t)
  consider i where "t = s\<lparr>t_emails := t_emails s @ [new_row i e]\<rparr>" | "t = s"
    using insert_email_cases[OF Pair] by blast
  then have "R_tries s t"
  proof cases
    case (1 i)
    show ?thesis unfolding R_tries_def 1 by (simp add: tries_new)
  qed (simp add: R_tries_def)
  with Pair show ?thesis by simp
qed

interpretation tries: ingress_guarantee R_tries
proof (unfold_locales, goal_cases)
  case (2 s t u)
  then show ?case unfolding R_tries_def by blast
next
  case (10 s i)
  show ?case by (rule tries_update) (simp add: tries_rows)
qed (simp_all add: tries_insert tries_update tries_rows tries_same insert_domain_def set_verification_def
    insert_key_def revoke_key_def touch_key_def upsert_state_def clear_pending_def Let_def)

text \<open>A settled email has been tried once more, and goes back to the queue at most seven times.\<close>

lemma tries_finishing:
  assumes "finishing e g" "er_attempts r = e_attempts e" "e_attempts e \<le> 7"
  shows "tries_ok (g r)"
  using assms by (auto simp: finishing_def tries_ok_def sent_row_def failed_row_def retry_row_def)

section \<open>Emails in flight\<close>

text \<open>An email in flight is its row, as the claim left it.\<close>

definition in_table :: "store \<Rightarrow> email \<Rightarrow> bool" where
  "in_table s e \<longleftrightarrow> (\<exists>r \<in> set (t_emails s). scanEmail r = e \<and> er_status r = ''sending'')"

definition flights_ok :: "service \<Rightarrow> bool" where
  "flights_ok st \<longleftrightarrow> wf_store (snd st) \<and> (\<forall>r \<in> set (t_emails (snd st)). tries_ok r) \<and>
     (\<forall>i. count (image_mset e_id (fst st)) i \<le> 1) \<and> (\<forall>e \<in># fst st. in_table (snd st) e)"

lemma in_table_mono:
  "in_table s e \<Longrightarrow> {r \<in> set (t_emails s). er_status r = ''sending''} \<subseteq> set (t_emails t) \<Longrightarrow> in_table t e"
  unfolding in_table_def by blast

lemma in_table_env: "t_emails t = t_emails s \<Longrightarrow> in_table t e = in_table s e"
  by (simp add: in_table_def)

lemma in_flight_once:
  assumes "\<forall>i. count (image_mset e_id fl) i \<le> 1" "e \<in># fl" "e' \<in># fl - {#e#}"
  shows "e_id e' \<noteq> e_id e"
proof
  assume same: "e_id e' = e_id e"
  have "e_id e' \<in># image_mset e_id (fl - {#e#})" using assms(3) by simp
  then have "0 < count (image_mset e_id (fl - {#e#})) (e_id e)" unfolding same by (rule count_greater_zero_iff[THEN iffD2])
  moreover have "image_mset e_id fl = add_mset (e_id e) (image_mset e_id (fl - {#e#}))"
    using assms(2) by (metis image_mset_add_mset insert_DiffM)
  ultimately have "1 < count (image_mset e_id fl) (e_id e)" by simp
  with assms(1) show False by (meson not_less)
qed

lemma count_diff_le:
  "\<forall>i. count (image_mset e_id fl) i \<le> (1::nat) \<Longrightarrow> e \<in># fl \<Longrightarrow>
    \<forall>i. count (image_mset e_id (fl - {#e#})) i \<le> 1"
  by (auto simp: image_mset_Diff le_Suc_eq)

text \<open>Settling one of them.\<close>

lemma flights_settled:
  assumes ok: "flights_ok (fl, s)" and e: "e \<in># fl" and t: "settled_by e s t" and w: "wf_store t"
  shows "flights_ok (fl - {#e#}, t)"
proof -
  have once: "\<forall>i. count (image_mset e_id fl) i \<le> 1" and tab: "\<And>x. x \<in># fl \<Longrightarrow> in_table s x"
    and tries: "\<forall>r \<in> set (t_emails s). tries_ok r"
    using ok by (simp_all add: flights_ok_def)
  have dist: "distinct (map er_id (t_emails s))" using ok wf_ids_distinct(3) by (simp add: flights_ok_def)
  obtain r where r: "r \<in> set (t_emails s)" "scanEmail r = e" "er_status r = ''sending''"
    using tab[OF e] by (auto simp: in_table_def)
  have eid: "e_id e = er_id r" "e_attempts e = er_attempts r" using r(2) by auto
  from t consider "t_emails t = t_emails s"
    | g where "finishing e g" "t_emails t = update_where (\<lambda>r. er_id r = e_id e) g (t_emails s)"
    unfolding settled_by_def by blast
  then have "(\<forall>x \<in># fl - {#e#}. in_table t x) \<and> (\<forall>r \<in> set (t_emails t). tries_ok r)"
  proof cases
    case 1
    have "in_table t x" if "x \<in># fl - {#e#}" for x
      using tab[OF in_diffD[OF that]] in_table_env[OF 1] by simp
    with 1 tries show ?thesis by simp
  next
    case 2
    have "tries_ok (g q)" if "q \<in> set (t_emails s)" "er_id q = e_id e" for q
    proof -
      have "q = r" using distinct_key_eq[OF dist that(1) r(1)] that(2) eid by simp
      moreover have "er_attempts r \<le> 7" using tries r by (auto simp: tries_ok_def)
      ultimately show ?thesis using tries_finishing[OF 2(1)] eid by simp
    qed
    then have "\<forall>r \<in> set (t_emails t). tries_ok r" using tries by (auto simp: 2(2) set_update_where)
    moreover have "in_table t x" if x: "x \<in># fl - {#e#}" for x
    proof -
      obtain q where q: "q \<in> set (t_emails s)" "scanEmail q = x" "er_status q = ''sending''"
        using tab[OF in_diffD[OF x]] by (auto simp: in_table_def)
      have "er_id q \<noteq> e_id e" using in_flight_once[OF once e x] q(2) by auto
      with q show ?thesis by (auto simp: in_table_def 2(2) set_update_where)
    qed
    ultimately show ?thesis by blast
  qed
  with w count_diff_le[OF once e] show ?thesis by (simp add: flights_ok_def)
qed

lemma flights_wf: "service_step L K other c timely (fl, s) (fl', t) \<Longrightarrow> wf_store s \<Longrightarrow> wf_store t"
  using wf.keeps_service_step[of L K other c timely "(fl, s)" "(fl', t)"] by (simp add: R_wf_def)

text \<open>Nothing but the worker touches an email that is being sent.\<close>

lemma flights_quiet:
  assumes ok: "flights_ok (fl, s)" and R: "wf_store t" "R_tries s t" "R_sending s t"
  shows "flights_ok (fl, t)"
proof -
  have tr: "\<forall>r \<in> set (t_emails t). tries_ok r" using R(2) ok by (simp add: flights_ok_def R_tries_def)
  have sub: "{r \<in> set (t_emails s). er_status r = ''sending''} \<subseteq> set (t_emails t)"
    using R(3) by (simp add: R_sending_def)
  have "in_table t e" if "e \<in># fl" for e
    by (rule in_table_mono[OF _ sub]) (use ok that in \<open>simp add: flights_ok_def\<close>)
  with R(1) tr ok show ?thesis by (simp add: flights_ok_def)
qed

lemma flights_front:
  assumes "flights_ok (fl, s)" "front L K other c s t"
  shows "flights_ok (fl, t)"
  by (rule flights_quiet[OF assms(1) _ tries.keeps_front[OF assms(2)] sending.keeps_front[OF assms(2)]])
    (use assms(1) wf.keeps_front[OF assms(2)] in \<open>simp add: flights_ok_def R_wf_def\<close>)

lemma flights_statement:
  assumes "flights_ok (fl, s)" "ingress_op op"
  shows "flights_ok (fl, run_op op s)"
  by (rule flights_quiet[OF assms(1) _ tries.keeps_ingress_op[OF assms(2)] sending.keeps_ingress_op[OF assms(2)]])
    (use assms(1) wf.keeps_ingress_op[OF assms(2), of s] in \<open>simp add: flights_ok_def R_wf_def\<close>)

text \<open>A requeue of stale emails, when none of them is in flight.\<close>

lemma RequeueStale_cases:
  "t_emails (snd (RequeueStaleSending cutoff s)) = t_emails s \<or>
   t_emails (snd (RequeueStaleSending cutoff s)) =
     update_where (stale cutoff) (\<lambda>r. r\<lparr>er_status := ''queued''\<rparr>) (t_emails s)"
proof -
  obtain r t where st: "stmt (requeue_stale cutoff) s = (r, t)" by fastforce
  then have "t_emails t = t_emails s \<or>
      t_emails t = update_where (stale cutoff) (\<lambda>r. r\<lparr>er_status := ''queued''\<rparr>) (t_emails s)"
    by (cases rule: stmt_cases) (auto simp: requeue_stale_def)
  with st show ?thesis by (simp add: RequeueStaleSending_def)
qed

lemma tries_unstick: "stale cutoff r \<Longrightarrow> tries_ok r \<Longrightarrow> tries_ok (r\<lparr>er_status := ''queued''\<rparr>)"
  by (simp add: tries_ok_def stale_def)

lemma flights_stale:
  assumes ok: "flights_ok (fl, s)" and late: "\<forall>e \<in># fl. cutoff < e_next e"
  shows "flights_ok (fl, snd (RequeueStaleSending cutoff s))"
proof -
  let ?t = "snd (RequeueStaleSending cutoff s)"
  have w: "wf_store ?t" using ok wf.keeps_delivery(1)[of s cutoff] by (simp add: flights_ok_def R_wf_def)
  have tr: "\<forall>r \<in> set (t_emails s). tries_ok r" using ok by (simp add: flights_ok_def)
  have tab: "in_table ?t e" if e: "e \<in># fl" for e
  proof -
    obtain r where r: "r \<in> set (t_emails s)" "scanEmail r = e" "er_status r = ''sending''"
      using ok e by (auto simp: flights_ok_def in_table_def)
    have "cutoff < er_next r" using late e r(2) by auto
    then have "\<not> stale cutoff r" by (auto simp: stale_def dest: leD)
    with r(1) have "r \<in> set (t_emails ?t)"
      using RequeueStale_cases[of cutoff s] by (elim disjE) (auto simp: set_update_where)
    with r show ?thesis unfolding in_table_def by blast
  qed
  have "tries_ok r" if "r \<in> set (t_emails ?t)" for r
    using RequeueStale_cases[of cutoff s]
  proof
    assume eq: "t_emails ?t = update_where (stale cutoff) (\<lambda>r. r\<lparr>er_status := ''queued''\<rparr>) (t_emails s)"
    show "tries_ok r" using that tr tries_unstick unfolding eq by (fastforce simp: set_update_where)
  qed (use that tr in simp)
  with w tab ok show ?thesis by (simp add: flights_ok_def)
qed

text \<open>A claim takes emails that are queued, so none of those in flight.\<close>

lemma flights_claim:
  assumes ok: "flights_ok (fl, s)" and c: "ClaimDue limit now s = (res, t)"
  shows "flights_ok (fl + claimed_of res, t)"
proof -
  have w: "wf_store t" using ok wf.keeps_claim[OF c] by (simp add: flights_ok_def R_wf_def)
  have dist: "distinct (map er_id (t_emails s))" using ok wf_ids_distinct(3) by (simp add: flights_ok_def)
  have "stmt (claim_due limit now) s = (res, t)" using c by (simp add: ClaimDue_def)
  then show ?thesis
  proof (cases rule: stmt_cases)
    case (failed msg)
    then have same: "t_emails t = t_emails s" by simp
    have "in_table t e" if "e \<in># fl" for e
      unfolding in_table_env[OF same] using assms(1) that by (simp add: flights_ok_def)
    with assms(1) w failed(2) same show ?thesis by (simp add: flights_ok_def claimed_of_def)
  next
    case (ok s')
    have res: "res = Inr (claimed limit now (t_emails s))" and rows: "t_emails t = claimed_rows limit now (t_emails s)"
      using ok by (auto simp: claim_due_eq)
    let ?new = "claimed limit now (t_emails s)"
    have sub: "{r \<in> set (t_emails s). er_status r = ''sending''} \<subseteq> set (t_emails t)"
      using R_sending_claim[OF dist, of limit now] c by (simp add: R_sending_def)
    have old: "in_table t e" if "e \<in># fl" for e
      by (rule in_table_mono[OF _ sub]) (use assms(1) that in \<open>simp add: flights_ok_def\<close>)
    have new: "in_table t e" if e: "e \<in> set ?new" for e
    proof -
      obtain r where "claim_row now r \<in> set (claimed_rows limit now (t_emails s))" "e = scanEmail (claim_row now r)"
        using claimed_in_rows[OF dist e] by blast
      then show ?thesis unfolding in_table_def rows using claim_row_sel(3) by blast
    qed
    have idle: "e_id e \<notin> e_id ` set ?new" if e: "e \<in># fl" for e
    proof
      assume "e_id e \<in> e_id ` set ?new"
      then obtain q where q: "q \<in> set (t_emails s)" "er_id q = e_id e" "due now q"
        unfolding set_ids_claimed by (auto elim: due_ids_rows)
      obtain r where r: "r \<in> set (t_emails s)" "scanEmail r = e" "er_status r = ''sending''"
        using assms(1) e by (auto simp: flights_ok_def in_table_def)
      have "q = r" using distinct_key_eq[OF dist q(1) r(1)] q(2) r(2) by auto
      with q(3) r(3) show False by (simp add: due_def)
    qed
    have "count (image_mset e_id (fl + claimed_of res)) i \<le> 1" for i
    proof -
      have d: "distinct (map e_id ?new)" using dist by (simp add: ids_claimed)
      have n: "count (image_mset e_id (claimed_of res)) i = (if i \<in> e_id ` set ?new then 1 else 0)"
        using d by (simp add: res claimed_of_def mset_map[symmetric] distinct_count_atmost_1 del: mset_map)
      have o: "count (image_mset e_id fl) i \<le> 1" using assms(1) by (simp add: flights_ok_def)
      have z: "count (image_mset e_id fl) i = 0" if "i \<in> e_id ` set ?new"
      proof -
        have "i \<notin> e_id ` set_mset fl" using that idle by blast
        then show ?thesis by (simp add: count_eq_zero_iff)
      qed
      show ?thesis using n o z by simp
    qed
    moreover have "\<forall>r \<in> set (t_emails t). tries_ok r"
    proof
      fix r assume "r \<in> set (t_emails t)"
      then consider "r \<in> set (t_emails s)"
        | q where "q \<in> set (t_emails s)" "er_id q \<in> set (due_ids limit now (t_emails s))" "r = claim_row now q"
        unfolding rows claimed_rows_def set_update_where by auto
      then show "tries_ok r"
      proof cases
        case 2
        obtain p where "p \<in> set (t_emails s)" "er_id p = er_id q" "due now p" using due_ids_rows[OF 2(2)] .
        then have "due now q" using distinct_key_eq[OF dist _ 2(1)] by metis
        moreover have "tries_ok q" using assms(1) 2(1) by (simp add: flights_ok_def)
        ultimately show ?thesis unfolding 2(3) by (simp add: tries_ok_def due_def claim_row_def)
      qed (use assms(1) in \<open>simp add: flights_ok_def\<close>)
    qed
    ultimately show ?thesis
      using w old new by (auto simp: flights_ok_def res claimed_of_def)
  qed
qed

text \<open>Statements on the other tables.\<close>

lemma flights_log:
  assumes "flights_ok (fl, s)" "wf_store t" "t_emails t = t_emails s"
  shows "flights_ok (fl, t)"
  by (rule flights_quiet[OF assms(1,2)]) (simp_all add: R_tries_def R_sending_def assms(3))

lemma flights_step:
  assumes "service_step L K other c True st st'" "flights_ok st"
  shows "flights_ok st'"
  using assms
proof (induction rule: service_step.induct)
  case (step_sent e fl s tm)
  show ?case
    by (rule flights_settled[OF step_sent(2,1) settled_by_mark(2)])
      (use flights_wf[OF service_step.step_sent[OF step_sent(1)]] step_sent(2) in \<open>simp add: flights_ok_def\<close>)
next
  case (step_retry e fl now nxt s msg)
  show ?case
    by (rule flights_settled[OF step_retry(3,1) settled_by_mark(3)[OF step_retry(2)]])
      (use flights_wf[OF service_step.step_retry[OF step_retry(1,2)]] step_retry(3) in \<open>simp add: flights_ok_def\<close>)
next
  case (step_failed e fl s msg)
  show ?case
    by (rule flights_settled[OF step_failed(2,1) settled_by_mark(1)])
      (use flights_wf[OF service_step.step_failed[OF step_failed(1)]] step_failed(2) in \<open>simp add: flights_ok_def\<close>)
next
  case (step_record e fl s code mx resp ms)
  show ?case
    by (rule flights_log[OF step_record(2) _ recordAttempt_emails])
      (use flights_wf[OF service_step.step_record[OF step_record(1)]] step_record(2) in \<open>simp add: flights_ok_def\<close>)
next
  case (step_report fl s i)
  show ?case
    by (rule flights_log[OF step_report _ PermanentFailure_emails])
      (use flights_wf[OF service_step.step_report] step_report in \<open>simp add: flights_ok_def\<close>)
next
  case (step_crash fl s)
  then show ?case by (simp add: flights_ok_def)
qed (use flights_front flights_statement flights_stale flights_claim in blast)+

lemma run_flights: "service_run L K other c True st st' \<Longrightarrow> flights_ok st \<Longrightarrow> flights_ok st'"
  by (induction rule: service_run.induct) (blast intro: flights_step)+

section \<open>No notification about notifications\<close>

text \<open>Every failure waiting for a digest is of an email a client sent.\<close>

definition no_feedback :: "store \<Rightarrow> bool" where
  "no_feedback s \<longleftrightarrow> fst ` set (t_pending s) \<subseteq> er_id ` {r \<in> set (t_emails s). \<not> er_system r}"

definition R_feedback :: "store \<Rightarrow> store \<Rightarrow> bool" where
  "R_feedback s t \<longleftrightarrow> (no_feedback s \<longrightarrow> no_feedback t)"

lemma feedback_grows:
  assumes "set (t_pending t) \<subseteq> set (t_pending s)"
    and "er_id ` {r \<in> set (t_emails s). \<not> er_system r} \<subseteq> er_id ` {r \<in> set (t_emails t). \<not> er_system r}"
  shows "R_feedback s t"
  using assms unfolding R_feedback_def no_feedback_def by blast

lemma feedback_update:
  assumes "\<And>r. er_id (f r) = er_id r" "\<And>r. er_system (f r) = er_system r"
  shows "R_feedback s (s\<lparr>t_emails := update_where P f (t_emails s)\<rparr>)"
proof (rule feedback_grows)
  have "er_id r \<in> er_id ` {r \<in> set (update_where P f (t_emails s)). \<not> er_system r}"
    if "r \<in> set (t_emails s)" "\<not> er_system r" for r
  proof -
    have "(if P r then f r else r) \<in> set (update_where P f (t_emails s))"
      using that(1) by (simp add: update_where_def)
    then show ?thesis using that(2) assms by (intro image_eqI[of _ _ "if P r then f r else r"]) auto
  qed
  then show "er_id ` {r \<in> set (t_emails s). \<not> er_system r} \<subseteq>
      er_id ` {r \<in> set (t_emails (s\<lparr>t_emails := update_where P f (t_emails s)\<rparr>)). \<not> er_system r}"
    by auto
qed simp

lemma feedback_same: "t_emails t = t_emails s \<Longrightarrow> set (t_pending t) \<subseteq> set (t_pending s) \<Longrightarrow> R_feedback s t"
  by (rule feedback_grows) simp_all

lemma feedback_insert: "R_feedback s (snd (insert_email e s))"
proof (cases "insert_email e s")
  case (Pair r t)
  then have "t_pending t = t_pending s" "set (t_emails s) \<subseteq> set (t_emails t)"
    using insert_email_cases[OF Pair] by auto
  then have "R_feedback s t" by (intro feedback_grows) auto
  with Pair show ?thesis by simp
qed

lemma row_system [simp]:
  "er_system (requeue_row now r) = er_system r" "er_system (readdress_row to nm now r) = er_system r"
  "er_system (claim_row now r) = er_system r" "er_system (sent_row tm r) = er_system r"
  "er_system (retry_row nxt msg r) = er_system r" "er_system (failed_row msg r) = er_system r"
  by (simp_all add: requeue_row_def readdress_row_def claim_row_def sent_row_def retry_row_def failed_row_def)

lemma row_ids [simp]:
  "er_id (sent_row tm r) = er_id r" "er_id (retry_row nxt msg r) = er_id r" "er_id (failed_row msg r) = er_id r"
  by (simp_all add: sent_row_def retry_row_def failed_row_def)

interpretation feedback: ingress_guarantee R_feedback
proof (unfold_locales, goal_cases)
  case (2 s t u)
  then show ?case unfolding R_feedback_def by blast
qed (simp_all add: feedback_update feedback_insert feedback_same insert_domain_def set_verification_def
    insert_key_def revoke_key_def touch_key_def upsert_state_def clear_pending_def Let_def)

interpretation feedback: delivery_guarantee R_feedback
  by unfold_locales
    (simp_all add: feedback_update feedback_same requeue_stale_def claim_due_def update_email_def
      insert_attempt_def Let_def)

text \<open>The callback looks at the email before it adds it.\<close>

lemma feedback_PermanentFailure: "R_feedback s (PermanentFailure i s)"
proof -
  obtain g s1 where g: "GetEmail i s = (g, s1)" by fastforce
  have s1: "R_feedback s s1" using feedback.keeps_reads(6)[of s i] g by simp
  show ?thesis
  proof (cases "\<exists>e. g = Inr e \<and> \<not> e_system e")
    case True
    then obtain e where e: "g = Inr e" "\<not> e_system e" by blast
    then obtain r where r: "env_step s s1" "r \<in> set (t_emails s)" "er_id r = i" "e = scanEmail r"
      using GetEmail_Inr[of i s e s1] g by blast
    have i: "i \<in> er_id ` {r \<in> set (t_emails s1). \<not> er_system r}"
      using r e(2) by auto
    obtain q t where st: "stmt (insert_pending i (Now s1)) s1 = (q, t)" by fastforce
    then have "R_feedback s1 t"
    proof (cases rule: stmt_cases)
      case (ok s')
      then have "t_emails t = t_emails s1" "fst ` set (t_pending t) \<subseteq> insert i (fst ` set (t_pending s1))"
        by (auto simp: insert_pending_def split: if_splits)
      with i show ?thesis unfolding R_feedback_def no_feedback_def by auto
    next
      case (failed msg)
      then show ?thesis by (simp add: feedback_same)
    qed
    then have "R_feedback s t" by (rule feedback.R_trans[OF s1])
    with g e st show ?thesis by (simp add: PermanentFailure_def AddPendingFailure_def)
  next
    case False
    then have "PermanentFailure i s = s1" using g by (auto simp: PermanentFailure_def split: sum.split)
    with s1 show ?thesis by simp
  qed
qed

lemma feedback_step: "service_step L K other c timely st st' \<Longrightarrow> R_feedback (snd st) (snd st')"
  by (induction rule: service_step.induct)
    (auto intro: feedback.keeps_front feedback.keeps_ingress_op feedback.keeps_delivery feedback.keeps_claim feedback.R_refl
      feedback.keeps_recordAttempt feedback_PermanentFailure)

lemma run_feedback: "service_run L K other c timely st st' \<Longrightarrow> no_feedback (snd st) \<Longrightarrow> no_feedback (snd st')"
proof (induction rule: service_run.induct)
  case (run_step st st' st'')
  then show ?case using feedback_step[OF run_step(2)] by (simp add: R_feedback_def)
qed

end
