(* ===== verification/ServiceProps.thy ===== *)
theory ServiceProps
  imports Flights ApiProps
begin

text \<open>
  The properties of the service as a whole: what holds of every database a run of all its
  parts can lead to, whatever statements fail and however the parts interleave.
\<close>

section \<open>The database\<close>

text \<open>C6. The database keeps its types: from a well-formed one every run of the service, with requests,
  operator, notifier, DNS loop, worker and crashes in any order and any outcomes of their
  statements, leads to a well-formed one: keys unique and ascending, references resolved,
  statuses among the five, attempt counts not negative.\<close>

theorem service_wf:
  assumes "service_run L K other c timely (fl, s) (fl', t)" "wf_store s"
  shows "wf_store t"
  using wf.keeps_service_run[OF assms(1)] assms(2) by (simp add: R_wf_def)

lemma sample_run:
  "service_run sample_libs K other c timely ({#}, sample_store)
     ({#}, snd (Tick new_worker (\<lambda>e d. SendPanic ''nil'' 5) id sample_time sample_store))"
  by (rule run_Tick) simp

theorem service_wf_witness:
  "wf_store (snd (Tick new_worker (\<lambda>e d. SendPanic ''nil'' 5) id sample_time sample_store))"
  by (rule service_wf[OF sample_run wf_sample_store])

text \<open>C5. An email that was accepted is never lost and never rewritten: after any run that follows the
  answer 202 there is a row with the id of the answer, which says what was asked and has one
  of the five statuses. Only its recipient may differ, which the operator can correct.\<close>

theorem accepted_is_kept:
  assumes "postEmail L decode (\<lambda>_. id) rq s = (resp, t)" "rs_code resp = 202" "wf_store s"
    and "service_run L K other c timely (fl, t) (fl', u)"
  shows "\<exists>k q frm rcp d i now r. rs_body resp = QueuedBody i ''queued'' \<and>
    decode maxRequestBodyBytes (h_body rq) = Decoded q \<and> validate_request L q = Inr (frm, rcp) \<and>
    row_of i u = Some r \<and> letter r = letter (requested_row L rq k d frm rcp q i now) \<and>
    er_status r \<in> statuses"
proof -
  obtain k q frm rcp d i now where q: "decode maxRequestBodyBytes (h_body rq) = Decoded q"
      "validate_request L q = Inr (frm, rcp)" "resp = writeJSON 202 (QueuedBody i ''queued'')"
      "t_emails t = t_emails s @ [requested_row L rq k d frm rcp q i now]"
    using postEmail_adds[OF assms(1)] assms(2) by blast
  let ?row = "requested_row L rq k d frm rcp q i now"
  have wt: "wf_store t"
    using wf.keeps_postEmail[of "\<lambda>_. id" s L decode rq] assms(1,3) by (simp add: R_wf_def)
  have wu: "wf_store u" using wf.keeps_service_run[OF assms(4)] wt by (simp add: R_wf_def)
  have "prefix (map letter (t_emails t)) (map letter (t_emails u))"
    using history.keeps_service_run[OF assms(4)] by (simp add: R_history_def)
  then have "letter ?row \<in> letter ` set (t_emails u)"
    using set_mono_prefix[of "map letter (t_emails t)" "map letter (t_emails u)"] q(4) by auto
  then obtain r where r: "r \<in> set (t_emails u)" "letter r = letter ?row" by auto
  have id: "er_id r = i" using arg_cong[OF r(2), of er_id] by (simp add: letter_def)
  then have "row_of i u = Some r" using wf_row_of[OF wu] r(1) by simp
  moreover have "er_status r \<in> statuses"
    using wu r(1) by (simp add: wf_store_def wf_emails_def email_row_ok_def)
  moreover have "rs_body resp = QueuedBody i ''queued''" by (simp add: q(3) writeJSON_def)
  ultimately show ?thesis using q(1,2) r(2) by blast
qed

lemma sample_accepted:
  "\<exists>t. postEmail sample_libs sample_decode (\<lambda>_. id) (sample_http ''t1'' []) sample_store
     = (writeJSON 202 (QueuedBody 6 ''queued''), t)"
proof -
  let ?rq = "sample_http ''t1'' []"
  let ?k = "sample_key 1 ''t1'' 1 False"
  have script: "db_script sample_store = []" by simp
  obtain s1 where a: "auth sample_libs (\<lambda>_. id) ?rq sample_store = (Inr ?k, s1)"
      "db_script s1 = []" "t_emails s1 = t_emails sample_store" "t_domains s1 = t_domains sample_store"
      "t_keys s1 = update_where (\<lambda>k. k_id k = 1) (\<lambda>k. k\<lparr>k_last_used := Now sample_store\<rparr>) (t_keys sample_store)"
    using sample_bearer[of "''t1''" "[]"]
    by (simp add: auth_def Let_def TouchAPIKey_def exec_upd_def stmt_def touch_key_def
        GetAPIKeyByHash_def null_row_def query_row_def sample_key_def HashAPIKey_def sample_libs_def
        sample_http_def)
  have d: "GetDomain 1 s1 = (Inr (sample_domain 1 ''ok.nl'' True), s1)"
    using a(2,4) by (simp add: GetDomain_def query_row_def stmt_def sample_domain_def)
  have v: "Verified (sample_domain 1 ''ok.nl'' True)" "EqualFold sample_libs (after_at ''a@ok.nl'') ''ok.nl''"
    by (simp_all add: Verified_def sample_domain_def EqualFold_def after_at_def is_ascii_def Let_def)
  have dec: "sample_decode maxRequestBodyBytes (h_body ?rq) = Decoded sample_request"
    by (simp add: sample_decode_def maxRequestBodyBytes_def sample_http_def)
  let ?e = "request_email sample_libs 1 1 [] ([], ''a@ok.nl'') ([], ''b@x.nl'') sample_request"
  have keys: "1 \<in> k_id ` set (t_keys s1)" unfolding a(5) by (subst image_update_where) (simp_all add: sample_key_def)
  have "6 = next_rowid (map er_id (t_emails s1))"
    unfolding a(3) by (simp add: next_rowid_def sample_email_def)
  then obtain t where "EnqueueEmail ?e s1 = (Inr 6, t)"
    using a(2) keys unfolding EnqueueEmail_def stmt_def insert_email_def
    by (simp add: Let_def a(4) request_email_def sample_domain_def idem_entry_def new_row_def with_defaults_def)
  then have "enqueueOrReplay (\<lambda>_. id) ?e s1 = (Inr (6, ''queued'', False), t)"
    by (simp add: enqueueOrReplay_def)
  then have "post_validated sample_libs (\<lambda>_. id) ?rq ?k sample_request ([], ''a@ok.nl'') ([], ''b@x.nl'') s1
      = (writeJSON 202 (QueuedBody 6 ''queued''), t)"
    using d v by (simp add: post_validated_def sample_key_def sample_domain_def sample_http_def Let_def)
  then show ?thesis
    using a(1) dec sample_validates by (simp add: postEmail_def)
qed

theorem accepted_is_kept_witness:
  "\<exists>t r. postEmail sample_libs sample_decode (\<lambda>_. id) (sample_http ''t1'' []) sample_store
      = (writeJSON 202 (QueuedBody 6 ''queued''), t) \<and>
    row_of 6 (snd (Tick new_worker (\<lambda>e d. SendPanic ''nil'' 5) id sample_time t)) = Some r \<and>
    er_subject r = ''Hi''"
proof -
  obtain t where p: "postEmail sample_libs sample_decode (\<lambda>_. id) (sample_http ''t1'' []) sample_store
      = (writeJSON 202 (QueuedBody 6 ''queued''), t)" using sample_accepted by blast
  have run: "service_run sample_libs undefined undefined undefined True ({#}, t)
     ({#}, snd (Tick new_worker (\<lambda>e d. SendPanic ''nil'' 5) id sample_time t))"
    by (rule run_Tick) simp
  obtain k q frm rcp d now r where
      r: "row_of 6 (snd (Tick new_worker (\<lambda>e d. SendPanic ''nil'' 5) id sample_time t)) = Some r"
      "letter r = letter (requested_row sample_libs (sample_http ''t1'' []) k d frm rcp q 6 now)"
      "sample_decode maxRequestBodyBytes (h_body (sample_http ''t1'' [])) = Decoded q"
    using accepted_is_kept[OF p _ wf_sample_store run] by (auto simp: writeJSON_def)
  have "q = sample_request" using r(3) by (simp add: sample_decode_def sample_http_def split: if_splits)
  then have "er_subject r = ''Hi''"
    using arg_cong[OF r(2), of er_subject] by (simp add: letter_def sample_request_def)
  with p r(1) show ?thesis by blast
qed


section \<open>The notifier\<close>

text \<open>C21. The digest never reports a notification: whatever happens, the failures waiting for it are of
  emails that clients sent, so a notification that cannot be delivered causes no other one.\<close>

theorem digest_no_feedback:
  assumes "service_run L K other c timely (fl, s) (fl', t)" "wf_store s" "no_feedback s"
  shows "filter e_system (pending_emails t) = []"
proof -
  have w: "wf_store t" using wf.keeps_service_run[OF assms(1)] assms(2) by (simp add: R_wf_def)
  have f: "no_feedback t" using run_feedback[OF assms(1)] assms(3) by simp
  have "\<not> er_system r" if r: "r \<in> set (t_emails t)" "er_id r \<in> fst ` set (t_pending t)" for r
  proof -
    obtain q where "q \<in> set (t_emails t)" "\<not> er_system q" "er_id q = er_id r"
      using f r(2) unfolding no_feedback_def by force
    with distinct_key_eq[OF wf_ids_distinct(3)[OF w]] r(1) show ?thesis by metis
  qed
  then show ?thesis by (auto simp: pending_emails_def filter_empty_conv)
qed

theorem digest_no_feedback_witness:
  "filter e_system (pending_emails (snd (Tick new_worker (\<lambda>e d. SendPanic ''nil'' 5) id sample_time sample_store))) = []"
  by (rule digest_no_feedback[OF sample_run wf_sample_store]) (simp add: no_feedback_def)

section \<open>The delivery\<close>

text \<open>A tick of the worker is a run of the service's steps: the requeue of stale emails, the claim,
  and for every claimed email, in the order the sends happen to end, the steps that settle it.
  When it is over no email is in flight.\<close>

theorem tick_is_a_run:
  assumes "\<And>es. mset (order es) = mset es"
  shows "service_run L K other c timely ({#}, s) ({#}, snd (Tick new_worker send order now s))"
  using assms by (rule run_Tick)

definition sample_config :: config where
  "sample_config = \<lparr>cf_hostname = ''mx.ok.nl'', cf_listen = '':8080'', cf_data_dir = ''/data'',
     cf_admin_password = ''secret'', cf_admin_email = ''op@x.nl'', cf_system_from = ''sys@ok.nl'',
     cf_egress_ip = ''192.0.2.1'', cf_public_url = [], cf_smtp_port = 25, cf_min_volume = 10,
     cf_threshold = default_threshold\<rparr>"

theorem tick_is_a_run_witness:
  "service_run sample_libs sample_rsa (\<lambda>_. 0) sample_config True ({#}, sample_store)
     ({#}, snd (Tick new_worker (\<lambda>e d. SendPanic ''nil'' 5) rev sample_time sample_store))"
  by (rule tick_is_a_run) simp

text \<open>Only the claim puts an email in flight, and it takes nothing but rows that are queued and due:
  what is being sent was in the queue, with the recipient and the content it was claimed
  with.\<close>

theorem only_due_is_sent:
  assumes "service_step L K other c timely (fl, s) (fl', t)" "wf_store s" "e \<in># fl' - fl"
  shows "\<exists>now r. row_of (e_id e) s = Some r \<and> due now r \<and> e = scanEmail (claim_row now r)"
  using assms(1)
proof (rule service_stepE)
  fix limit now res
  assume fl: "fl' = fl + claimed_of res" and c: "ClaimDue limit now s = (res, t)"
  have e: "e \<in># claimed_of res" using assms(3) fl by simp
  have "stmt (claim_due limit now) s = (res, t)" using c by (simp add: ClaimDue_def)
  then have "e \<in> set (claimed limit now (t_emails s))"
    using e by (cases rule: stmt_cases) (auto simp: claimed_of_def claim_due_eq)
  from claimed_in_rows[OF wf_ids_distinct(3)[OF assms(2)] this]
  obtain r where r: "r \<in> set (t_emails s)" "due now r" "e = scanEmail (claim_row now r)" by blast
  then have "row_of (e_id e) s = Some r" using wf_row_of[OF assms(2)] by simp
  with r show ?thesis by blast
qed (use assms(3) in \<open>auto simp: in_diff_count\<close>)

lemma sample_tries: "\<forall>r \<in> set (t_emails sample_store). tries_ok r"
  by (simp add: tries_ok_def sample_email_def)

lemma sample_claim:
  "\<exists>s1. ClaimDue 10 (FmtTime sample_time) sample_store = (Inr (claimed 10 (FmtTime sample_time) (t_emails sample_store)), s1)"
  using ClaimDue_healthy[OF healthy_sample_store, of 10 "FmtTime sample_time"] by metis

lemma sample_claim_run:
  assumes "ClaimDue 10 (FmtTime sample_time) sample_store = (Inr es, s1)"
  shows "service_run sample_libs K other c True ({#}, sample_store) (mset es, s1)"
  using run_one[OF step_claim[OF assms, of sample_libs K other c True "{#}"]] by (simp add: claimed_of_def)

lemma sample_claim_ids: "e_id ` set (claimed 10 (FmtTime sample_time) (t_emails sample_store)) = {1, 5}"
proof -
  have due: "filter (due (FmtTime sample_time)) (t_emails sample_store) =
      [sample_email 1 ''queued'' (Some ''k1''), sample_email 5 ''queued'' None]"
    unfolding sample_time_stamp by (simp add: due_def sample_email_def stamp0_def)
  have "set (due_ids 10 (FmtTime sample_time) (t_emails sample_store)) = {1, 5}"
    unfolding due_ids_def due by (simp add: sql_limit_def sample_email_def)
  then show ?thesis by (simp only: set_ids_claimed)
qed

theorem only_due_is_sent_witness:
  "\<exists>es s1 e r. ClaimDue 10 (FmtTime sample_time) sample_store = (Inr es, s1) \<and> e \<in> set es \<and> e_id e = 5 \<and>
    row_of 5 sample_store = Some r \<and> er_status r = ''queued''"
proof -
  let ?es = "claimed 10 (FmtTime sample_time) (t_emails sample_store)"
  obtain s1 where c: "ClaimDue 10 (FmtTime sample_time) sample_store = (Inr ?es, s1)" using sample_claim by blast
  obtain e where e: "e \<in> set ?es" "e_id e = 5" using sample_claim_ids by (metis imageE insertI1 insertI2)
  have step: "service_step sample_libs sample_rsa (\<lambda>_. 0) sample_config True ({#}, sample_store) (mset ?es, s1)"
    using step_claim[OF c, of sample_libs sample_rsa "\<lambda>_. 0" sample_config True "{#}"] by (simp add: claimed_of_def)
  obtain now r where "row_of (e_id e) sample_store = Some r" "due now r"
    using only_due_is_sent[OF step wf_sample_store, of e] e(1) by auto
  with c e show ?thesis by (auto simp: due_def)
qed

text \<open>C4. As long as no email is requeued as stale while a send of it is in flight, no email is in
  flight twice, and while one is, its row is as the claim left it: neither the API nor the
  operator changes or cancels what is being sent, and the retry is counted from the tries the
  row has.\<close>

theorem in_flight_exclusive:
  assumes "service_run L K other c True ({#}, s) (fl, t)" "wf_store s" "\<forall>r \<in> set (t_emails s). tries_ok r"
  shows "count (image_mset e_id fl) i \<le> 1 \<and>
    (\<forall>e \<in># fl. \<exists>r. row_of (e_id e) t = Some r \<and> e = scanEmail r \<and> er_status r = ''sending'')"
proof -
  have ok: "flights_ok (fl, t)" by (rule run_flights[OF assms(1)]) (use assms(2,3) in \<open>simp add: flights_ok_def\<close>)
  then have w: "wf_store t" and n: "count (image_mset e_id fl) i \<le> 1" by (simp_all add: flights_ok_def)
  have "\<exists>r. row_of (e_id e) t = Some r \<and> e = scanEmail r \<and> er_status r = ''sending''" if e: "e \<in># fl" for e
  proof -
    obtain r where r: "r \<in> set (t_emails t)" "scanEmail r = e" "er_status r = ''sending''"
      using ok e by (auto simp: flights_ok_def in_table_def)
    then have "row_of (e_id e) t = Some r" using wf_row_of[OF w] by auto
    with r show ?thesis by blast
  qed
  with n show ?thesis by blast
qed

theorem in_flight_exclusive_witness:
  "\<exists>es s1. ClaimDue 10 (FmtTime sample_time) sample_store = (Inr es, s1) \<and> e_id ` set es = {1, 5} \<and>
    count (image_mset e_id (mset es)) 5 \<le> 1 \<and> (\<exists>r. row_of 5 s1 = Some r \<and> er_status r = ''sending'')"
proof -
  let ?es = "claimed 10 (FmtTime sample_time) (t_emails sample_store)"
  obtain s1 where c: "ClaimDue 10 (FmtTime sample_time) sample_store = (Inr ?es, s1)" using sample_claim by blast
  note ids = sample_claim_ids
  note t = in_flight_exclusive[OF sample_claim_run[OF c] wf_sample_store sample_tries, where i = 5]
  obtain e where e: "e \<in> set ?es" "e_id e = 5" using ids by (metis imageE insertI1 insertI2)
  then obtain r where "row_of 5 s1 = Some r" "er_status r = ''sending''" using t by fastforce
  with c ids t show ?thesis by blast
qed




end
