(* ===== verification/Lifecycle.thy ===== *)
theory Lifecycle
  imports Service
begin

text \<open>
  The life of the process: the three background loops, which are select statements between a
  ticker and the end of the context, and the order in which \<^verbatim>\<open>main\<close> shuts everything down.
\<close>

section \<open>The background loops\<close>

text \<open>
  What a select of a loop receives, in order. \<open>Wake now\<close> is the ticker, with the time that
  \<^verbatim>\<open>time.Now()\<close> returns; a list that ends is a loop that is still waiting.
\<close>

datatype wake = Cancelled | Wake time

fun loop_run :: "(time \<Rightarrow> store \<Rightarrow> store) \<Rightarrow> wake list \<Rightarrow> store \<Rightarrow> store" where
  "loop_run body [] s = s"
| "loop_run body (Cancelled # ws) s = s"
| "loop_run body (Wake now # ws) s = loop_run body ws (body now s)"

definition run_interval :: "duration \<Rightarrow> duration" where
  "run_interval interval = (if interval = 0 then 5 * second else interval)"

text \<open>An error of a tick is only logged.\<close>

definition worker_Run ::
    "worker \<Rightarrow> (time \<Rightarrow> email \<Rightarrow> domain \<Rightarrow> send_outcome) \<Rightarrow> (email list \<Rightarrow> email list) \<Rightarrow> wake list \<Rightarrow>
     store \<Rightarrow> store" where
  "worker_Run w send order = loop_run (\<lambda>now s. snd (Tick w (send now) order now s))"

definition notifier_Run :: "'a libs_scheme \<Rightarrow> (string \<Rightarrow> time) \<Rightarrow> notifier \<Rightarrow> wake list \<Rightarrow> store \<Rightarrow> store" where
  "notifier_Run L other n = loop_run (notifier_round L other n)"

definition recheckDNSLoop :: "(time \<Rightarrow> domain \<Rightarrow> dns_result) \<Rightarrow> wake list \<Rightarrow> store \<Rightarrow> store" where
  "recheckDNSLoop check = loop_run (\<lambda>now. recheck_round (check now))"

lemma loop_run_cancelled: "loop_run body (ws @ Cancelled # rest) s = loop_run body (ws @ [Cancelled]) s"
  by (induction body ws s rule: loop_run.induct) auto

lemma loop_run_service:
  assumes "\<And>now s. service_run L K other c timely ({#}, s) ({#}, body now s)"
  shows "service_run L K other c timely ({#}, s) ({#}, loop_run body ws s)"
proof (induction ws arbitrary: s)
  case (Cons w ws)
  show ?case
  proof (cases w)
    case (Wake now)
    from run_trans[OF assms Cons] Wake show ?thesis by simp
  qed (simp add: run_refl)
qed (simp add: run_refl)

section \<open>Shutdown\<close>

datatype background = WorkerLoop | NotifierLoop | DnsLoop

instantiation background :: enum
begin

definition enum_background :: "background list" where
  "enum_background = [WorkerLoop, NotifierLoop, DnsLoop]"

definition enum_all_background :: "(background \<Rightarrow> bool) \<Rightarrow> bool" where
  "enum_all_background P \<longleftrightarrow> P WorkerLoop \<and> P NotifierLoop \<and> P DnsLoop"

definition enum_ex_background :: "(background \<Rightarrow> bool) \<Rightarrow> bool" where
  "enum_ex_background P \<longleftrightarrow> P WorkerLoop \<or> P NotifierLoop \<or> P DnsLoop"

instance
proof
  show univ: "(UNIV :: background set) = set enum_class.enum"
    using background.exhaust by (auto simp: enum_background_def)
  show "distinct (enum_class.enum :: background list)" by (simp add: enum_background_def)
  show "enum_class.enum_all P \<longleftrightarrow> Ball UNIV P" for P :: "background \<Rightarrow> bool"
    using background.exhaust by (metis UNIV_I enum_all_background_def)
  show "enum_class.enum_ex P \<longleftrightarrow> Bex UNIV P" for P :: "background \<Rightarrow> bool"
    using background.exhaust by (metis UNIV_I enum_ex_background_def)
qed

end

text \<open>Where \<^verbatim>\<open>main\<close> is: in \<^verbatim>\<open>ListenAndServe\<close>, in \<^verbatim>\<open>wg.Wait\<close>, or past \<^verbatim>\<open>s.Close\<close>.\<close>

datatype phase = Serving | Waiting | Closed

record proc =
  pc_phase :: phase
  pc_cancelled :: bool   \<comment> \<open>the context is cancelled\<close>
  pc_shut :: bool   \<comment> \<open>the listener is closed\<close>
  pc_loops :: "background set"   \<comment> \<open>the goroutines of the wait group that have not returned\<close>
  pc_requests :: nat   \<comment> \<open>requests that handlers are working on\<close>

definition proc_start :: proc where
  "proc_start = \<lparr>pc_phase = Serving, pc_cancelled = False, pc_shut = False, pc_loops = UNIV, pc_requests = 0\<rparr>"

text \<open>
  \<^verbatim>\<open>Shutdown\<close> closes the listener, and \<^verbatim>\<open>ListenAndServe\<close> returns at once; \<^verbatim>\<open>Shutdown\<close> itself, in
  another goroutine, goes on waiting for the handlers.
\<close>

inductive proc_step :: "proc \<Rightarrow> proc \<Rightarrow> bool" where
  proc_signal: "proc_step p (p\<lparr>pc_cancelled := True\<rparr>)"
| proc_request: "\<not> pc_shut p \<Longrightarrow> proc_step p (p\<lparr>pc_requests := pc_requests p + 1\<rparr>)"
| proc_answer: "0 < pc_requests p \<Longrightarrow> proc_step p (p\<lparr>pc_requests := pc_requests p - 1\<rparr>)"
| proc_shutdown: "pc_cancelled p \<Longrightarrow> proc_step p (p\<lparr>pc_shut := True\<rparr>)"
| proc_listen_error: "pc_phase p = Serving \<Longrightarrow> proc_step p (p\<lparr>pc_shut := True\<rparr>)"
| proc_stop: "pc_phase p = Serving \<Longrightarrow> pc_shut p \<Longrightarrow>
    proc_step p (p\<lparr>pc_phase := Waiting, pc_cancelled := True\<rparr>)"
| proc_loop_ends: "pc_cancelled p \<Longrightarrow> proc_step p (p\<lparr>pc_loops := pc_loops p - {l}\<rparr>)"
| proc_close: "pc_phase p = Waiting \<Longrightarrow> pc_loops p = {} \<Longrightarrow> proc_step p (p\<lparr>pc_phase := Closed\<rparr>)"

inductive proc_reach :: "proc \<Rightarrow> bool" where
  reach_start: "proc_reach proc_start"
| reach_step: "proc_reach p \<Longrightarrow> proc_step p q \<Longrightarrow> proc_reach q"

definition shutdown_order :: "proc \<Rightarrow> bool" where
  "shutdown_order p \<longleftrightarrow> (pc_phase p \<noteq> Serving \<longrightarrow> pc_cancelled p \<and> pc_shut p) \<and>
     (pc_phase p = Closed \<longrightarrow> pc_loops p = {}) \<and> (pc_loops p \<noteq> UNIV \<longrightarrow> pc_cancelled p)"

lemma shutdown_order_step: "proc_step p q \<Longrightarrow> shutdown_order p \<Longrightarrow> shutdown_order q"
  by (induction rule: proc_step.induct) (auto simp: shutdown_order_def)

lemma reach_shutdown_order: "proc_reach p \<Longrightarrow> shutdown_order p"
  by (induction rule: proc_reach.induct)
    (simp add: shutdown_order_def proc_start_def, rule shutdown_order_step)

end
