(* ===== verification/Deadline.thy ===== *)
theory Deadline
  imports Sender
begin

text \<open>
  \<^verbatim>\<open>ctxBoundConn\<close> of \<^verbatim>\<open>internal/delivery/sender.go\<close>: a connection with a goroutine that forces
  its deadline into the past when the context of \<^verbatim>\<open>Send\<close> is over. The connection, the
  goroutine and the SMTP library, which sets and clears the deadline around every command,
  take turns: a run is a list of events, and an event that is not enabled does nothing.
\<close>

section \<open>The connection and its watcher\<close>

text \<open>
  \<open>cn_watching\<close>: the goroutine has not returned. \<open>cn_stopped\<close>: the channel \<^verbatim>\<open>done\<close> is closed.
\<close>

record conn =
  cn_deadline :: "time option"
  cn_watching :: bool
  cn_stopped :: bool
  cn_closed :: bool

definition newCtxBoundConn :: conn where
  "newCtxBoundConn = \<lparr>cn_deadline = None, cn_watching = True, cn_stopped = False, cn_closed = False\<rparr>"

text \<open>The goroutine when the context is seen to be over, and when \<^verbatim>\<open>done\<close> is seen to be closed.\<close>

definition watch_context :: "time \<Rightarrow> time \<Rightarrow> conn \<Rightarrow> conn" where
  "watch_context ctx now c =
     (if cn_watching c \<and> ctx \<le> now then c\<lparr>cn_deadline := Some now, cn_watching := False\<rparr> else c)"

definition watch_done :: "conn \<Rightarrow> conn" where
  "watch_done c = (if cn_watching c \<and> cn_stopped c then c\<lparr>cn_watching := False\<rparr> else c)"

definition close_conn :: "conn \<Rightarrow> conn" where
  "close_conn c = c\<lparr>cn_stopped := True, cn_closed := True\<rparr>"

text \<open>Reading and writing are possible before the deadline, if there is one.\<close>

definition io_allowed :: "time \<Rightarrow> conn \<Rightarrow> bool" where
  "io_allowed now c \<longleftrightarrow> \<not> cn_closed c \<and> (case cn_deadline c of None \<Rightarrow> True | Some d \<Rightarrow> now < d)"

datatype conn_event = WatchContext | WatchDone | LibraryDeadline "time option" | Pass nat | CloseConn

text \<open>\<open>ctx\<close> is the time at which the context of \<^verbatim>\<open>Send\<close> is over.\<close>

fun conn_step :: "time \<Rightarrow> conn_event \<Rightarrow> time \<times> conn \<Rightarrow> time \<times> conn" where
  "conn_step ctx WatchContext (now, c) = (now, watch_context ctx now c)"
| "conn_step ctx WatchDone (now, c) = (now, watch_done c)"
| "conn_step ctx (LibraryDeadline d) (now, c) = (now, c\<lparr>cn_deadline := d\<rparr>)"
| "conn_step ctx (Pass n) (now, c) = (now + int n, c)"
| "conn_step ctx CloseConn (now, c) = (now, close_conn c)"

definition conn_run :: "time \<Rightarrow> conn_event list \<Rightarrow> time \<times> conn \<Rightarrow> time \<times> conn" where
  "conn_run ctx evs st = fold (conn_step ctx) evs st"

lemma conn_run_simps [simp]:
  "conn_run ctx [] st = st" "conn_run ctx (ev # evs) st = conn_run ctx evs (conn_step ctx ev st)"
  by (simp_all add: conn_run_def)

text \<open>The deadline in the past stays in force until the library sets another one.\<close>

definition cut_off :: "time \<times> conn \<Rightarrow> bool" where
  "cut_off st \<longleftrightarrow> (case cn_deadline (snd st) of None \<Rightarrow> False | Some d \<Rightarrow> d \<le> fst st) \<and> \<not> cn_watching (snd st)"

lemma cut_off_step:
  assumes "cut_off st" "\<And>d. ev \<noteq> LibraryDeadline d"
  shows "cut_off (conn_step ctx ev st)"
proof -
  obtain now c where st: "st = (now, c)" by fastforce
  show ?thesis
    using assms
    by (cases ev) (auto simp: st cut_off_def watch_context_def watch_done_def close_conn_def split: option.splits)
qed

lemma cut_off_run:
  "cut_off st \<Longrightarrow> list_all (\<lambda>ev. \<forall>d. ev \<noteq> LibraryDeadline d) evs \<Longrightarrow> cut_off (conn_run ctx evs st)"
proof (induction evs arbitrary: st)
  case (Cons ev evs)
  then show ?case using cut_off_step[of st ev ctx] by simp
qed simp

lemma cut_off_io: "cut_off (now, c) \<Longrightarrow> \<not> io_allowed now c"
  by (auto simp: cut_off_def io_allowed_def split: option.splits)

lemma watch_context_cuts: "cn_watching c \<Longrightarrow> ctx \<le> now \<Longrightarrow> cut_off (now, watch_context ctx now c)"
  by (simp add: cut_off_def watch_context_def)

text \<open>Once the channel is closed and the goroutine has run, it is gone and has left the deadline alone.\<close>

lemma watching_ends: "\<not> cn_watching (snd st) \<Longrightarrow> \<not> cn_watching (snd (conn_run ctx evs st))"
proof (induction evs arbitrary: st)
  case (Cons ev evs)
  obtain now c where st: "st = (now, c)" by fastforce
  have "\<not> cn_watching (snd (conn_step ctx ev st))"
    using Cons.prems by (cases ev) (simp_all add: st watch_context_def watch_done_def close_conn_def)
  with Cons.IH show ?case by simp
qed simp

end
