(* ===== verification/LifecycleProps.thy ===== *)
theory LifecycleProps
  imports Lifecycle Deadline ServiceProps
begin

text \<open>
  The properties of the process: its loops, its shutdown, and the deadline of a connection.
\<close>

section \<open>Loops and shutdown\<close>




lemma reach_closed:
  "proc_reach \<lparr>pc_phase = Closed, pc_cancelled = True, pc_shut = True, pc_loops = {}, pc_requests = 1\<rparr>"
proof -
  note step = reach_step
  have 1: "proc_reach (proc_start\<lparr>pc_requests := 1\<rparr>)"
    using step[OF reach_start proc_request] by (simp add: proc_start_def)
  have 2: "proc_reach (proc_start\<lparr>pc_requests := 1, pc_cancelled := True\<rparr>)"
    using step[OF 1 proc_signal] by simp
  have 3: "proc_reach (proc_start\<lparr>pc_requests := 1, pc_cancelled := True, pc_shut := True\<rparr>)"
    using step[OF 2 proc_shutdown] by simp
  have 4: "proc_reach (proc_start\<lparr>pc_requests := 1, pc_cancelled := True, pc_shut := True, pc_phase := Waiting\<rparr>)"
    using step[OF 3 proc_stop] by (simp add: proc_start_def)
  have 5: "proc_reach (proc_start\<lparr>pc_requests := 1, pc_cancelled := True, pc_shut := True, pc_phase := Waiting,
      pc_loops := UNIV - {WorkerLoop} - {NotifierLoop} - {DnsLoop}\<rparr>)"
    using step[OF step[OF step[OF 4 proc_loop_ends[of _ WorkerLoop]] proc_loop_ends[of _ NotifierLoop]] proc_loop_ends[of _ DnsLoop]]
    by (simp add: proc_start_def)
  have none: "UNIV - {WorkerLoop} - {NotifierLoop} - {DnsLoop} = {}"
    by (simp add: UNIV_enum enum_background_def)
  show ?thesis using step[OF 5 proc_close] by (simp add: proc_start_def none)
qed


text \<open>The requests that handlers are working on are not waited for: \<^verbatim>\<open>ListenAndServe\<close> returns when
  \<^verbatim>\<open>Shutdown\<close> begins, and \<^verbatim>\<open>main\<close> closes the database while one is still being answered.\<close>

theorem close_races_requests:
  "\<exists>p. proc_reach p \<and> pc_phase p = Closed \<and> 0 < pc_requests p"
  using reach_closed by (intro exI conjI) auto

section \<open>The deadline of a connection\<close>

text \<open>When the context of a send ends while the connection is being read or written, that is cut
  off and stays so: once the watcher has run no reading or writing succeeds until the SMTP
  library sets another deadline, however long it takes and whatever else happens.\<close>

theorem context_cuts_io:
  assumes "cn_watching c" "ctx \<le> now" "list_all (\<lambda>ev. \<forall>d. ev \<noteq> LibraryDeadline d) evs"
    and "conn_run ctx (WatchContext # evs) (now, c) = (t, c')"
  shows "\<not> io_allowed t c'"
proof -
  have "cut_off (conn_run ctx evs (now, watch_context ctx now c))"
    by (rule cut_off_run[OF watch_context_cuts[OF assms(1,2)] assms(3)])
  with assms(4) show ?thesis using cut_off_io[of t c'] by simp
qed

theorem context_cuts_io_witness:
  "\<not> io_allowed 1000 (snd (conn_run 100 [WatchContext, Pass 900, WatchDone] (100, newCtxBoundConn)))"
  by (rule context_cuts_io[of newCtxBoundConn 100 100 "[Pass 900, WatchDone]" 1000])
    (simp_all add: newCtxBoundConn_def watch_context_def watch_done_def)


text \<open>Closing the connection ends the watcher: once it has run after \<^verbatim>\<open>Close\<close> it never runs again,
  and if the context was not over it has left the deadline alone. Closing twice is closing
  once.\<close>

theorem close_ends_watcher:
  "\<not> cn_watching (snd (conn_run ctx (WatchDone # evs) (now, close_conn c))) \<and>
   cn_deadline (watch_done (close_conn c)) = cn_deadline c \<and> close_conn (close_conn c) = close_conn c"
proof -
  have "\<not> cn_watching (watch_done (close_conn c))" by (simp add: watch_done_def close_conn_def)
  then show ?thesis
    using watching_ends[of "(now, watch_done (close_conn c))" ctx evs] by (simp add: watch_done_def close_conn_def)
qed

end
