(* ===== verification/Web.thy ===== *)
theory Web
  imports Service
begin

text \<open>
  The HTTP surface of the service: the patterns \<^verbatim>\<open>main\<close>, \<^verbatim>\<open>api.Routes\<close> and \<^verbatim>\<open>admin.Routes\<close>
  register, the dispatch of \<^verbatim>\<open>net/http\<close>'s \<^verbatim>\<open>ServeMux\<close> over them, and the response a handler's
  reply becomes: status, headers, cookie and body. A request is the method, the escaped path
  and the values its handlers read; the template engine and the file server of the embedded
  assets are parameters. Not in the model: the requests CONNECT and \<^verbatim>\<open>OPTIONS *\<close>, which no
  handler sees, the \<^verbatim>\<open>Content-Length\<close>, and the courtesy body of a redirect.
\<close>

section \<open>Requests and responses\<close>

record web_request =
  w_method :: string
  w_path :: string
  w_query :: "string \<Rightarrow> string"   \<comment> \<open>\<^verbatim>\<open>r.URL.Query().Get\<close>\<close>
  w_form :: "string \<Rightarrow> string"    \<comment> \<open>\<^verbatim>\<open>r.FormValue\<close>\<close>
  w_header :: "string \<Rightarrow> string"  \<comment> \<open>\<^verbatim>\<open>r.Header.Get\<close>\<close>
  w_cookie :: "string option"     \<comment> \<open>the cookie \<^verbatim>\<open>doevoe_session\<close>\<close>
  w_body :: string

record cookie =
  ck_name :: string
  ck_value :: string
  ck_path :: string
  ck_http_only :: bool
  ck_same_site_lax :: bool
  ck_max_age :: int

datatype web_body = NoBody | TextBody string | JsonBody response_body

record web_response =
  wr_status :: int
  wr_headers :: "(string \<times> string) list"
  wr_cookie :: "cookie option"
  wr_body :: web_body

definition newline :: string where "newline = [CHR 0x0A]"

text \<open>\<^verbatim>\<open>http.Error\<close> and \<^verbatim>\<open>http.Redirect\<close>.\<close>

definition http_error :: "int \<Rightarrow> string \<Rightarrow> web_response" where
  "http_error code msg = \<lparr>wr_status = code, wr_headers = [(''Content-Type'', ''text/plain; charset=utf-8''),
     (''X-Content-Type-Options'', ''nosniff'')], wr_cookie = None, wr_body = TextBody (msg @ newline)\<rparr>"

definition redirect :: "int \<Rightarrow> string \<Rightarrow> web_response" where
  "redirect code loc = \<lparr>wr_status = code, wr_headers = [(''Location'', loc)], wr_cookie = None, wr_body = NoBody\<rparr>"

section \<open>The patterns and the dispatch\<close>

datatype handler =
    HPostEmail | HGetEmail
  | HStatic | HLoginPage | HLogin | HLogout | HDashboard
  | HListEmails | HShowEmail | HRetryEmail | HCancelEmail
  | HListDomains | HCreateDomain | HShowDomain | HVerifyDomain
  | HListKeys | HCreateKey | HRevokeKey
  | HHealth | HRoot

text \<open>
  A segment of a pattern: a literal, \<^verbatim>\<open>{id}\<close>, or the rest of a pattern that ends in a slash. The
  slash a path ends with is the segment \<^verbatim>\<open>/\<close>, in a pattern it is written \<^verbatim>\<open>/{$}\<close>.
\<close>

datatype pseg = Lit string | Wild | Multi

record pattern =
  pt_method :: string
  pt_segs :: "pseg list"
  pt_handler :: handler

definition pattern :: "string \<Rightarrow> pseg list \<Rightarrow> handler \<Rightarrow> pattern" where
  "pattern m segs h = \<lparr>pt_method = m, pt_segs = segs, pt_handler = h\<rparr>"

definition api_patterns :: "pattern list" where
  "api_patterns =
     [pattern ''POST'' [Lit ''api'', Lit ''v1'', Lit ''emails''] HPostEmail,
      pattern ''GET'' [Lit ''api'', Lit ''v1'', Lit ''emails'', Wild] HGetEmail]"

definition admin_patterns :: "pattern list" where
  "admin_patterns =
     [pattern ''GET'' [Lit ''admin'', Lit ''static'', Multi] HStatic,
      pattern ''GET'' [Lit ''admin'', Lit ''login''] HLoginPage,
      pattern ''POST'' [Lit ''admin'', Lit ''login''] HLogin,
      pattern ''POST'' [Lit ''admin'', Lit ''logout''] HLogout,
      pattern ''GET'' [Lit ''admin'', Lit ''/''] HDashboard,
      pattern ''GET'' [Lit ''admin'', Lit ''emails''] HListEmails,
      pattern ''GET'' [Lit ''admin'', Lit ''emails'', Wild] HShowEmail,
      pattern ''POST'' [Lit ''admin'', Lit ''emails'', Wild, Lit ''retry''] HRetryEmail,
      pattern ''POST'' [Lit ''admin'', Lit ''emails'', Wild, Lit ''cancel''] HCancelEmail,
      pattern ''GET'' [Lit ''admin'', Lit ''domains''] HListDomains,
      pattern ''POST'' [Lit ''admin'', Lit ''domains''] HCreateDomain,
      pattern ''GET'' [Lit ''admin'', Lit ''domains'', Wild] HShowDomain,
      pattern ''POST'' [Lit ''admin'', Lit ''domains'', Wild, Lit ''verify''] HVerifyDomain,
      pattern ''GET'' [Lit ''admin'', Lit ''keys''] HListKeys,
      pattern ''POST'' [Lit ''admin'', Lit ''keys''] HCreateKey,
      pattern ''POST'' [Lit ''admin'', Lit ''keys'', Wild, Lit ''revoke''] HRevokeKey]"

definition patterns :: "pattern list" where
  "patterns = api_patterns @ admin_patterns
     @ [pattern ''GET'' [Lit ''healthz''] HHealth, pattern ''GET'' [Lit ''/''] HRoot]"

text \<open>\<^verbatim>\<open>path.Clean\<close> on a rooted path, by segments, and \<^verbatim>\<open>cleanPath\<close>, which keeps the slash at the end.\<close>

fun split_slash :: "string \<Rightarrow> string list" where
  "split_slash [] = [[]]"
| "split_slash (c # cs) = (if c = CHR ''/'' then [] # split_slash cs
     else (case split_slash cs of [] \<Rightarrow> [[c]] | p # ps \<Rightarrow> (c # p) # ps))"

fun clean_onto :: "string list \<Rightarrow> string list \<Rightarrow> string list" where
  "clean_onto acc [] = rev acc"
| "clean_onto acc (p # ps) = (if p = [] \<or> p = ''.'' then clean_onto acc ps
     else if p = ''..'' then clean_onto (tl acc) ps else clean_onto (p # acc) ps)"

definition join_path :: "string list \<Rightarrow> string" where
  "join_path segs = (if segs = [] then ''/'' else concat (map (\<lambda>p. CHR ''/'' # p) segs))"

definition clean_path :: "string \<Rightarrow> string" where
  "clean_path p =
     (let segs = clean_onto [] (split_slash (if HasPrefix p ''/'' then tl p else p))
      in if HasSuffix p ''/'' \<and> segs \<noteq> [] then join_path segs @ ''/'' else join_path segs)"

text \<open>\<^verbatim>\<open>url.PathUnescape\<close>; a segment that is not well escaped is taken as it is.\<close>

definition hex_value :: "char \<Rightarrow> nat option" where
  "hex_value c = (let n = of_char c in if 48 \<le> n \<and> n \<le> 57 then Some (n - 48)
     else if 65 \<le> n \<and> n \<le> 70 then Some (n - 55) else if 97 \<le> n \<and> n \<le> 102 then Some (n - 87) else None)"

fun unescape :: "string \<Rightarrow> string option" where
  "unescape [] = Some []"
| "unescape (c # cs) = (if c \<noteq> CHR ''%'' then map_option ((#) c) (unescape cs)
     else (case cs of a # b # rest \<Rightarrow> (case (hex_value a, hex_value b) of
              (Some m, Some n) \<Rightarrow> map_option ((#) (char_of (16 * m + n))) (unescape rest)
            | _ \<Rightarrow> None)
          | _ \<Rightarrow> None))"

definition path_unescape :: "string \<Rightarrow> string" where
  "path_unescape s = (case unescape s of None \<Rightarrow> s | Some t \<Rightarrow> t)"

definition path_segments :: "string \<Rightarrow> string list" where
  "path_segments p = map (\<lambda>q. if q = [] then ''/'' else path_unescape q) (split_slash (tl p))"

fun match_segs :: "pseg list \<Rightarrow> string list \<Rightarrow> string list option" where
  "match_segs [] [] = Some []"
| "match_segs (Multi # ps) (x # xs) = Some []"
| "match_segs (Lit l # ps) (x # xs) = (if x = l then match_segs ps xs else None)"
| "match_segs (Wild # ps) (x # xs) = (if x = ''/'' then None else map_option ((#) x) (match_segs ps xs))"
| "match_segs _ _ = None"

text \<open>A pattern for GET also takes HEAD.\<close>

definition method_matches :: "string \<Rightarrow> string \<Rightarrow> bool" where
  "method_matches pm m \<longleftrightarrow> pm = m \<or> pm = ''GET'' \<and> m = ''HEAD''"

definition pattern_matches :: "string \<Rightarrow> string list \<Rightarrow> pattern \<Rightarrow> bool" where
  "pattern_matches m segs p \<longleftrightarrow> method_matches (pt_method p) m \<and> match_segs (pt_segs p) segs \<noteq> None"

definition route_of :: "string \<Rightarrow> string \<Rightarrow> pattern option" where
  "route_of m path = find (pattern_matches m (path_segments path)) patterns"

definition exact_match :: "pattern option \<Rightarrow> string \<Rightarrow> bool" where
  "exact_match hit path = (case hit of None \<Rightarrow> False
     | Some p \<Rightarrow> last (pt_segs p) \<noteq> Multi
         \<or> HasSuffix path ''/'' \<and> length (pt_segs p) = length (filter (\<lambda>c. c = CHR ''/'') path))"

definition allowed_methods :: "string \<Rightarrow> string list" where
  "allowed_methods path =
     (let has = (\<lambda>m. route_of m path \<noteq> None \<or> \<not> HasSuffix path ''/'' \<and> route_of m (path @ ''/'') \<noteq> None)
      in (if has ''GET'' then [''GET'', ''HEAD''] else []) @ (if has ''POST'' then [''POST''] else []))"

datatype routed = Handle handler "string list" | Moved string | NotAllowed string | NoRoute

text \<open>
  \<^verbatim>\<open>ServeMux.findHandler\<close>: the redirect that adds a slash, the redirect to the clean path, the
  handler, and 405 or 404 where there is none.
\<close>

definition dispatch :: "string \<Rightarrow> string \<Rightarrow> routed" where
  "dispatch m path =
     (let p = clean_path path; hit = route_of m p
      in if \<not> exact_match hit p \<and> \<not> HasSuffix p ''/'' \<and> exact_match (route_of m (p @ ''/'')) (p @ ''/'')
         then Moved (p @ ''/'')
         else if p \<noteq> path then Moved p
         else case hit of
                Some pt \<Rightarrow> Handle (pt_handler pt) (the (match_segs (pt_segs pt) (path_segments p)))
              | None \<Rightarrow> (case allowed_methods p of [] \<Rightarrow> NoRoute | ms \<Rightarrow> NotAllowed (Join ms '', '')))"

section \<open>What a reply becomes\<close>

text \<open>
  \<open>tp_parse\<close> is \<^verbatim>\<open>template.ParseFS\<close> on the files named, its error or none; \<open>tp_execute\<close> is
  \<^verbatim>\<open>ExecuteTemplate\<close> of a template with the active section and the page: what it wrote and
  the error it ended with, if any.
\<close>

record templates =
  tp_parse :: "string list \<Rightarrow> string option"
  tp_execute :: "string \<Rightarrow> string \<Rightarrow> page \<Rightarrow> string \<times> string option"

text \<open>The name a handler renders its page under.\<close>

definition page_name :: "page \<Rightarrow> string" where
  "page_name pg = (case pg of LoginPage er \<Rightarrow> ''login'' | DashboardPage sm dd \<Rightarrow> ''dashboard''
     | EmailsPage ep \<Rightarrow> ''emails'' | EmailPage e as d r c to \<Rightarrow> ''email'' | DomainsPage ds \<Rightarrow> ''domains''
     | DomainPage d rs \<Rightarrow> ''domain'' | KeysPage ks ds tok \<Rightarrow> ''keys'')"

definition navSection :: "string \<Rightarrow> string" where
  "navSection pg = (case map_of [(''dashboard'', ''dashboard''), (''emails'', ''emails''), (''email'', ''emails''),
      (''domains'', ''domains''), (''domain'', ''domains''), (''keys'', ''keys'')] pg of None \<Rightarrow> [] | Some n \<Rightarrow> n)"

text \<open>
  The status is written before the template runs: a template that fails midway leaves it and
  the headers, and its error is appended to the page.
\<close>

definition renderStatus :: "templates \<Rightarrow> bool \<Rightarrow> int \<Rightarrow> page \<Rightarrow> web_response" where
  "renderStatus T htmx status pg =
     (case tp_parse T [''templates/layout.html'', ''templates/'' @ page_name pg @ ''.html''] of
        Some er \<Rightarrow> http_error 500 er
      | None \<Rightarrow> (case tp_execute T (if htmx then ''shell'' else ''layout'') (navSection (page_name pg)) pg of
          (out, er) \<Rightarrow> \<lparr>wr_status = status, wr_headers = [(''Content-Type'', ''text/html; charset=utf-8'')],
             wr_cookie = None,
             wr_body = TextBody (out @ (case er of None \<Rightarrow> [] | Some msg \<Rightarrow> msg @ newline))\<rparr>))"

definition render :: "templates \<Rightarrow> bool \<Rightarrow> page \<Rightarrow> web_response" where
  "render T htmx pg = renderStatus T htmx 200 pg"

definition session_cookie :: "string \<Rightarrow> cookie" where
  "session_cookie token = \<lparr>ck_name = ''doevoe_session'', ck_value = token, ck_path = ''/admin'',
     ck_http_only = True, ck_same_site_lax = True, ck_max_age = 7 * 24 * 3600\<rparr>"

definition logout_cookie :: cookie where
  "logout_cookie = \<lparr>ck_name = ''doevoe_session'', ck_value = [], ck_path = ''/admin'',
     ck_http_only = False, ck_same_site_lax = False, ck_max_age = -1\<rparr>"

definition admin_response :: "templates \<Rightarrow> bool \<Rightarrow> reply \<Rightarrow> web_response" where
  "admin_response T htmx rep = (case rep of
       Render status pg \<Rightarrow> renderStatus T htmx status pg
     | HttpError code msg \<Rightarrow> http_error code msg
     | SeeOther loc \<Rightarrow> redirect 303 loc
     | HxRedirect loc \<Rightarrow> \<lparr>wr_status = 200, wr_headers = [(''HX-Redirect'', loc)], wr_cookie = None, wr_body = NoBody\<rparr>
     | LoggedIn token \<Rightarrow> (redirect 303 ''/admin/emails'')\<lparr>wr_cookie := Some (session_cookie token)\<rparr>
     | LoggedOut \<Rightarrow> (redirect 303 ''/admin/login'')\<lparr>wr_cookie := Some logout_cookie\<rparr>)"

lemma admin_response_ok: "admin_response T htmx (Render 200 pg) = render T htmx pg"
  by (simp add: admin_response_def render_def)

definition api_response :: "response \<Rightarrow> web_response" where
  "api_response resp = \<lparr>wr_status = rs_code resp, wr_headers = [(''Content-Type'', ''application/json'')],
     wr_cookie = None, wr_body = JsonBody (rs_body resp)\<rparr>"

section \<open>The handlers\<close>

definition api_request :: "web_request \<Rightarrow> string \<Rightarrow> http_request" where
  "api_request rq pathId = \<lparr>h_authorization = w_header rq ''Authorization'',
     h_idempotency_key = w_header rq ''Idempotency-Key'', h_body = w_body rq, h_path_id = pathId\<rparr>"

text \<open>The admin's route with the values the handler reads, for the handlers that are the admin's.\<close>

definition admin_route :: "handler \<Rightarrow> string \<Rightarrow> web_request \<Rightarrow> route option" where
  "admin_route h i rq = (case h of
       HLoginPage \<Rightarrow> Some RLoginPage
     | HLogin \<Rightarrow> Some (RLogin (w_form rq ''password''))
     | HLogout \<Rightarrow> Some RLogout
     | HDashboard \<Rightarrow> Some (RDashboard (w_query rq))
     | HListEmails \<Rightarrow> Some (REmails (w_query rq))
     | HShowEmail \<Rightarrow> Some (RShowEmail i)
     | HRetryEmail \<Rightarrow> Some (RRetry i (w_form rq ''to''))
     | HCancelEmail \<Rightarrow> Some (RCancel i)
     | HListDomains \<Rightarrow> Some RDomains
     | HCreateDomain \<Rightarrow> Some (RCreateDomain (w_form rq ''name''))
     | HShowDomain \<Rightarrow> Some (RShowDomain i)
     | HVerifyDomain \<Rightarrow> Some (RVerify i)
     | HListKeys \<Rightarrow> Some RKeys
     | HCreateKey \<Rightarrow> Some (RCreateKey (w_form rq ''name'') (w_form rq ''domain_id''))
     | HRevokeKey \<Rightarrow> Some (RRevoke i)
     | _ \<Rightarrow> None)"

definition is_htmx :: "web_request \<Rightarrow> bool" where
  "is_htmx rq \<longleftrightarrow> w_header rq ''HX-Request'' = ''true''"

definition admin_request_of :: "web_request \<Rightarrow> route \<Rightarrow> admin_request" where
  "admin_request_of rq rt = \<lparr>rq_route = rt, rq_cookie = w_cookie rq, rq_htmx = is_htmx rq\<rparr>"

text \<open>What the server's libraries bring: the templates, the embedded files, the JSON decoder.\<close>

record web_libs =
  wl_templates :: templates
  wl_files :: "string \<Rightarrow> web_response"
  wl_decode :: "nat \<Rightarrow> string \<Rightarrow> decoded"

definition handle ::
    "'a libs_scheme \<Rightarrow> web_libs \<Rightarrow> admin \<Rightarrow> rsa \<Rightarrow> randomness \<Rightarrow> env \<Rightarrow> handler \<Rightarrow> string list \<Rightarrow> web_request \<Rightarrow>
     sessions \<times> store \<Rightarrow> web_response \<times> sessions \<times> store" where
  "handle L W a K rd env h vs rq st =
     (let i = (case vs of [] \<Rightarrow> [] | v # _ \<Rightarrow> v)
      in case admin_route h i rq of
           Some rt \<Rightarrow> (case serve L a K rd env (admin_request_of rq rt) st of
               (rep, st') \<Rightarrow> (admin_response (wl_templates W) (is_htmx rq) rep, st'))
         | None \<Rightarrow> (case h of
               HPostEmail \<Rightarrow> (case postEmail L (wl_decode W) env (api_request rq i) (snd st) of
                   (resp, t) \<Rightarrow> (api_response resp, fst st, t))
             | HGetEmail \<Rightarrow> (case getEmail L env (api_request rq i) (snd st) of
                   (resp, t) \<Rightarrow> (api_response resp, fst st, t))
             | HStatic \<Rightarrow> (wl_files W (w_path rq), st)
             | HHealth \<Rightarrow> (\<lparr>wr_status = 200, wr_headers = [], wr_cookie = None, wr_body = TextBody ''ok''\<rparr>, st)
             | _ \<Rightarrow> (redirect 303 ''/admin'', st)))"

text \<open>The whole server: \<^verbatim>\<open>mux.ServeHTTP\<close>.\<close>

definition web ::
    "'a libs_scheme \<Rightarrow> web_libs \<Rightarrow> admin \<Rightarrow> rsa \<Rightarrow> randomness \<Rightarrow> env \<Rightarrow> web_request \<Rightarrow>
     sessions \<times> store \<Rightarrow> web_response \<times> sessions \<times> store" where
  "web L W a K rd env rq st = (case dispatch (w_method rq) (w_path rq) of
       Handle h vs \<Rightarrow> handle L W a K rd env h vs rq st
     | Moved loc \<Rightarrow> (redirect 301 loc, st)
     | NotAllowed ms \<Rightarrow> ((http_error 405 ''Method Not Allowed'')
           \<lparr>wr_headers := (''Allow'', ms) # wr_headers (http_error 405 [])\<rparr>, st)
     | NoRoute \<Rightarrow> (http_error 404 ''404 page not found'', st))"

section \<open>Dispatch\<close>

text \<open>
  No two patterns take a common path for a common method, so the registration never panics
  and the order of the patterns does not matter.
\<close>

fun overlap :: "pseg list \<Rightarrow> pseg list \<Rightarrow> bool" where
  "overlap [] [] = True"
| "overlap (Multi # ps) (q # qs) = True"
| "overlap (p # ps) (Multi # qs) = True"
| "overlap (Lit l # ps) (Lit k # qs) = (l = k \<and> overlap ps qs)"
| "overlap (Lit l # ps) (Wild # qs) = (l \<noteq> ''/'' \<and> overlap ps qs)"
| "overlap (Wild # ps) (Lit l # qs) = (l \<noteq> ''/'' \<and> overlap ps qs)"
| "overlap (Wild # ps) (Wild # qs) = overlap ps qs"
| "overlap _ _ = False"

lemma match_overlap: "match_segs ps xs \<noteq> None \<Longrightarrow> match_segs qs xs \<noteq> None \<Longrightarrow> overlap ps qs"
  by (induction ps qs arbitrary: xs rule: overlap.induct; case_tac xs; auto split: if_splits)

definition apart :: "pattern \<Rightarrow> pattern \<Rightarrow> bool" where
  "apart p q \<longleftrightarrow> pt_method p \<noteq> pt_method q \<or> \<not> overlap (pt_segs p) (pt_segs q)"

lemma patterns_apart: "sorted_wrt apart patterns"
  by code_simp

lemma patterns_methods: "list_all (\<lambda>p. pt_method p = ''GET'' \<or> pt_method p = ''POST'') patterns"
  by code_simp

lemma apart_unique:
  assumes "sorted_wrt apart ps" "p \<in> set ps" "q \<in> set ps" "pt_method p = pt_method q"
    "match_segs (pt_segs p) xs \<noteq> None" "match_segs (pt_segs q) xs \<noteq> None"
  shows "p = q"
  using assms
proof (induction ps)
  case (Cons r ps)
  note both = match_overlap[OF Cons.prems(5,6)] match_overlap[OF Cons.prems(6,5)]
  have "\<not> apart p q" "\<not> apart q p" using Cons.prems(4) both by (simp_all add: apart_def)
  with Cons show ?case by auto
qed simp

lemma route_unique:
  assumes "p \<in> set patterns" "q \<in> set patterns" "pattern_matches m xs p" "pattern_matches m xs q"
  shows "p = q"
proof -
  have "pt_method p = ''GET'' \<or> pt_method p = ''POST''" "pt_method q = ''GET'' \<or> pt_method q = ''POST''"
    using patterns_methods assms(1,2) by (simp_all add: list_all_iff)
  then have "pt_method p = pt_method q"
    using assms(3,4) by (auto simp: pattern_matches_def method_matches_def)
  then show ?thesis
    using apart_unique[OF patterns_apart assms(1,2)] assms(3,4) unfolding pattern_matches_def by blast
qed

text \<open>A text that is one segment of a path as it is.\<close>

definition plain_segment :: "string \<Rightarrow> bool" where
  "plain_segment i \<longleftrightarrow> i \<noteq> [] \<and> CHR ''/'' \<notin> set i \<and> CHR ''%'' \<notin> set i \<and> CHR ''.'' \<notin> set i"

lemma split_slash_plain: "CHR ''/'' \<notin> set i \<Longrightarrow> split_slash i = [i]"
  by (induction i) auto

lemma unescape_plain: "CHR ''%'' \<notin> set i \<Longrightarrow> unescape i = Some i"
  by (induction i) auto

lemma plain_segment_path:
  assumes "plain_segment i"
  shows "split_slash i = [i]" "path_unescape i = i" "i \<noteq> ''/''" "i \<noteq> ''.''" "i \<noteq> ''..''" "i \<noteq> []"
  using assms split_slash_plain[of i] unescape_plain[of i]
  by (auto simp: plain_segment_def path_unescape_def)

lemma no_slash_suffix:
  assumes "plain_segment i"
  shows "\<not> HasSuffix (x @ i) ''/''"
proof -
  obtain c cs where "rev i = c # cs" using assms by (cases "rev i") (auto simp: plain_segment_def)
  moreover from this have "c \<in> set i" by (metis list.set_intros(1) set_rev)
  ultimately show ?thesis using assms by (auto simp: HasSuffix_def HasPrefix_def plain_segment_def)
qed

text \<open>The parts of \<open>dispatch\<close> for a clean path that is no prefix of the static files.\<close>

lemma dispatch_clean:
  assumes "clean_path path = path" "route_of m path = Some p" "last (pt_segs p) \<noteq> Multi"
    "match_segs (pt_segs p) (path_segments path) = Some vs"
  shows "dispatch m path = Handle (pt_handler p) vs"
  using assms by (simp add: dispatch_def Let_def exact_match_def)

lemma dispatch_item:
  assumes i: "plain_segment i" and x: "(x, h) \<in> {(''emails'', HShowEmail), (''domains'', HShowDomain)}"
  shows "dispatch ''GET'' (''/admin/'' @ x @ ''/'' @ i) = Handle h [i]"
proof -
  let ?path = "''/admin/'' @ x @ ''/'' @ i"
  let ?p = "pattern ''GET'' [Lit ''admin'', Lit x, Wild] h"
  note si = plain_segment_path[OF i]
  have segs: "path_segments ?path = [''admin'', x, i]"
    using x si by (auto simp: path_segments_def path_unescape_def)
  have "\<not> HasSuffix ?path ''/''" using no_slash_suffix[OF i, of "''/admin/'' @ x @ ''/''"] by simp
  then have clean: "clean_path ?path = ?path"
    using x si by (auto simp: clean_path_def HasPrefix_def join_path_def Let_def)
  have route: "route_of ''GET'' ?path = Some ?p"
    unfolding route_of_def segs using x si(3)
    by (auto simp: patterns_def api_patterns_def admin_patterns_def pattern_def pattern_matches_def method_matches_def)
  show ?thesis
    using dispatch_clean[OF clean route] si(3) segs by (simp add: pattern_def)
qed

lemma dispatch_fixed:
  "dispatch ''GET'' ''/admin/login'' = Handle HLoginPage []"
  "dispatch ''GET'' ''/admin/emails'' = Handle HListEmails []"
  "dispatch ''GET'' ''/admin/keys'' = Handle HListKeys []"
  "dispatch ''GET'' ''/admin'' = Moved ''/admin/''"
  "dispatch ''GET'' ''/admin/'' = Handle HDashboard []"
  by code_simp+

section \<open>The server is the front of the service\<close>

text \<open>
  Whatever a request is, serving it is a step of \<open>front\<close>: the properties of \<open>service_run\<close> hold
  for a service that is driven by requests as they arrive.
\<close>

lemma front_web:
  assumes "\<And>n s. front L K other c s (env n s)"
  shows "front L K other c s (snd (snd (web L W (service_admin L K r c) K rd env rq (sess, s))))"
proof (cases "dispatch (w_method rq) (w_path rq)")
  case (Handle h vs)
  let ?i = "case vs of [] \<Rightarrow> [] | v # _ \<Rightarrow> v"
  have same: "front L K other c s s" by (rule front_time[OF env_step_refl])
  show ?thesis
  proof (cases "admin_route h ?i rq")
    case (Some rt)
    then show ?thesis
      using front_admin[where env = env, OF assms, where s = s and r = r and rd = rd and arq = "admin_request_of rq rt" and sess = sess]
      by (simp add: web_def handle_def Handle Let_def case_prod_unfold)
  next
    case None
    then show ?thesis
      using front_post[where env = env, OF assms, where s = s and decode = "wl_decode W" and rq = "api_request rq ?i"]
        front_get[where env = env, OF assms, where s = s and rq = "api_request rq ?i"] same
      by (cases h) (simp_all add: web_def handle_def Handle Let_def case_prod_unfold)
  qed
qed (simp_all add: web_def front_time[OF env_step_refl])

section \<open>Who gets past the door\<close>

definition live_session :: "web_request \<Rightarrow> sessions \<Rightarrow> store \<Rightarrow> bool" where
  "live_session rq sess s \<longleftrightarrow>
     (\<exists>c expires. w_cookie rq = Some c \<and> sess c = Some expires \<and> db_clock s \<le> expires)"

definition live_key :: "'a libs_scheme \<Rightarrow> web_request \<Rightarrow> store \<Rightarrow> bool" where
  "live_key L rq s \<longleftrightarrow> (\<exists>k \<in> set (t_keys s).
     k_hash k = HashAPIKey L (bearer_token (w_header rq ''Authorization'')) \<and> \<not> k_revoked k)"

text \<open>Without a live key both handlers of the API end at \<open>auth\<close>, with an answer that tells nothing.\<close>

definition refusal :: "web_request \<Rightarrow> response" where
  "refusal rq = (let au = w_header rq ''Authorization'' in
     jsonError 401 (if bearer_token au = [] \<or> bearer_token au = au then ''missing bearer token'' else ''invalid api key''))"

lemma auth_refused:
  assumes "\<not> live_key L rq s"
  obtains t where "auth L env (api_request rq i) s = (Inl (refusal rq), t)" "env_step s t"
proof -
  let ?au = "w_header rq ''Authorization''"
  let ?h = "HashAPIKey L (bearer_token ?au)"
  obtain res s1 where g: "GetAPIKeyByHash ?h s = (res, s1)" by fastforce
  have env: "env_step s s1" using g unfolding GetAPIKeyByHash_def by (rule null_row_env)
  have "res \<noteq> Inr (Some k)" for k
  proof
    assume "res = Inr (Some k)"
    then have "find (\<lambda>k. k_hash k = ?h \<and> \<not> k_revoked k) (t_keys s1) = Some k"
      using g null_row_Some[of "\<lambda>s. find (\<lambda>k. k_hash k = ?h \<and> \<not> k_revoked k) (t_keys s)" s k s1]
      by (simp add: GetAPIKeyByHash_def)
    then have "k \<in> set (t_keys s) \<and> k_hash k = ?h \<and> \<not> k_revoked k"
      using find_Some_in env by fastforce
    with assms show False by (auto simp: live_key_def)
  qed
  then have none: "(\<exists>er. res = Inl er) \<or> res = Inr None" by (metis option.exhaust sum.exhaust)
  show thesis
  proof (cases "bearer_token ?au = [] \<or> bearer_token ?au = ?au")
    case True
    then show thesis
      using that[of s] env_step_refl by (simp add: auth_def refusal_def api_request_def Let_def)
  next
    case False
    then show thesis
      using that[of s1] env none g by (auto simp: auth_def refusal_def api_request_def Let_def)
  qed
qed

lemma api_refused:
  assumes "\<not> live_key L rq s"
  shows "fst (postEmail L decode env (api_request rq i) s) = refusal rq \<and>
      env_step s (snd (postEmail L decode env (api_request rq i) s))"
    and "fst (getEmail L env (api_request rq i) s) = refusal rq \<and>
      env_step s (snd (getEmail L env (api_request rq i) s))"
proof -
  obtain t where "auth L env (api_request rq i) s = (Inl (refusal rq), t)" "env_step s t"
    using auth_refused[OF assms] .
  then show "fst (postEmail L decode env (api_request rq i) s) = refusal rq \<and>
      env_step s (snd (postEmail L decode env (api_request rq i) s))"
    and "fst (getEmail L env (api_request rq i) s) = refusal rq \<and>
      env_step s (snd (getEmail L env (api_request rq i) s))"
    by (simp_all add: postEmail_def getEmail_def)
qed

text \<open>Without a session and the password the admin's routes end at the login.\<close>

definition login_reply :: "bool \<Rightarrow> route \<Rightarrow> reply" where
  "login_reply htmx rt = (case rt of
       RLogin p \<Rightarrow> Render 401 (LoginPage ''Wrong password'')
     | RLoginPage \<Rightarrow> Render 200 (LoginPage [])
     | _ \<Rightarrow> if htmx then HxRedirect ''/admin/login'' else SeeOther ''/admin/login'')"

lemma env_step_elapse: "env_step s (elapse d s)"
  unfolding env_step_def elapse_def by (intro exI[of _ "db_script s"] exI[of _ "db_clock s + d"]) simp

lemma admin_refused:
  assumes "\<not> fst (authed (rq_cookie rq) (sess, s))" "rq_route rq \<noteq> RLogin (ad_password a)"
  obtains sess' t where "serve L a K rd env rq (sess, s) = (login_reply (rq_htmx rq) (rq_route rq), sess', t)"
    "sess' \<subseteq>\<^sub>m sess" "env_step s t"
proof -
  obtain ok m where m: "authed (rq_cookie rq) (sess, s) = (ok, m)" by fastforce
  then have "m \<subseteq>\<^sub>m sess" using authed_sessions[of "rq_cookie rq" sess s] by simp
  with m assms that env_step_refl env_step_elapse show thesis
    by (cases "rq_route rq") (simp_all add: serve_def login_reply_def login_def split: if_splits)
qed

end
