(* ===== verification/WebProps.thy ===== *)
theory WebProps
  imports Web AdminProps
begin

text \<open>The properties of the HTTP surface: what a stranger gets, and where redirects lead.\<close>

section \<open>Strangers\<close>

text \<open>The answer of a handler to a request without credentials: it does not look at the database.\<close>

definition stranger_response :: "web_libs \<Rightarrow> handler \<Rightarrow> string \<Rightarrow> web_request \<Rightarrow> web_response" where
  "stranger_response W h i rq = (case admin_route h i rq of
       Some rt \<Rightarrow> admin_response (wl_templates W) (is_htmx rq) (login_reply (is_htmx rq) rt)
     | None \<Rightarrow> (case h of
           HPostEmail \<Rightarrow> api_response (refusal rq)
         | HGetEmail \<Rightarrow> api_response (refusal rq)
         | HStatic \<Rightarrow> wl_files W (w_path rq)
         | HHealth \<Rightarrow> \<lparr>wr_status = 200, wr_headers = [], wr_cookie = None, wr_body = TextBody ''ok''\<rparr>
         | _ \<Rightarrow> redirect 303 ''/admin''))"

lemma admin_route_login: "admin_route h i rq = Some (RLogin p) \<Longrightarrow> p = w_form rq ''password''"
  by (auto simp: admin_route_def split: handler.splits)

lemma handle_stranger:
  assumes "\<not> live_session rq sess s" "\<not> live_key L rq s" "w_form rq ''password'' \<noteq> ad_password a"
  shows "\<exists>sess' t. handle L W a K rd env h vs rq (sess, s) =
      (stranger_response W h (case vs of [] \<Rightarrow> [] | v # _ \<Rightarrow> v) rq, sess', t) \<and> sess' \<subseteq>\<^sub>m sess \<and> env_step s t"
proof -
  let ?i = "case vs of [] \<Rightarrow> [] | v # _ \<Rightarrow> v"
  show ?thesis
  proof (cases "admin_route h ?i rq")
    case (Some rt)
    let ?arq = "admin_request_of rq rt"
    have "rq_route ?arq \<noteq> RLogin (ad_password a)"
      using admin_route_login[of h ?i rq "ad_password a"] Some assms(3) by (auto simp: admin_request_of_def)
    moreover have "\<not> fst (authed (rq_cookie ?arq) (sess, s))"
      using assms(1) by (simp add: live_session_def authed_iff admin_request_of_def)
    ultimately obtain sess' t where "serve L a K rd env ?arq (sess, s) =
        (login_reply (rq_htmx ?arq) (rq_route ?arq), sess', t)" "sess' \<subseteq>\<^sub>m sess" "env_step s t"
      using admin_refused by blast
    with Some show ?thesis
      by (simp add: handle_def stranger_response_def Let_def admin_request_of_def)
  next
    case None
    then show ?thesis
      using api_refused(1)[OF assms(2), where decode = "wl_decode W" and env = env and i = ?i]
        api_refused(2)[OF assms(2), where env = env and i = ?i] env_step_refl
      by (cases h) (auto simp: handle_def stranger_response_def Let_def case_prod_unfold)
  qed
qed

text \<open>C9. A request with no live session, no live API key and not the password, whatever its method
  and path, leaves every table as it is and makes no session; and its answer is the same on
  any other database that knows no such session or key, so it tells nothing of the contents.\<close>

theorem no_credentials_no_effect:
  assumes "\<not> live_session rq sess s" "\<not> live_key L rq s"
    and "\<not> live_session rq sess u" "\<not> live_key L rq u"
    and "w_form rq ''password'' \<noteq> ad_password a"
    and "web L W a K rd env rq (sess, s) = (resp, sess', t)"
  shows "env_step s t \<and> sess' \<subseteq>\<^sub>m sess \<and> fst (web L W a K rd env rq (sess, u)) = resp"
proof (cases "dispatch (w_method rq) (w_path rq)")
  case (Handle h vs)
  show ?thesis
    using handle_stranger[OF assms(1,2,5), of W K rd env h vs] handle_stranger[OF assms(3,4,5), of W K rd env h vs]
      assms(6) by (auto simp: web_def Handle)
qed (use assms(6) env_step_refl in \<open>auto simp: web_def\<close>)

definition sample_web :: web_libs where
  "sample_web = \<lparr>wl_templates = \<lparr>tp_parse = (\<lambda>fs. None), tp_execute = (\<lambda>name nav pg. (name @ nav, None))\<rparr>,
     wl_files = (\<lambda>path. http_error 404 ''404 page not found''), wl_decode = sample_decode\<rparr>"

definition sample_web_request :: "string \<Rightarrow> string \<Rightarrow> string option \<Rightarrow> web_request" where
  "sample_web_request m path cookie = \<lparr>w_method = m, w_path = path, w_query = (\<lambda>k. []), w_form = (\<lambda>k. []),
     w_header = (\<lambda>k. []), w_cookie = cookie, w_body = []\<rparr>"

lemma sample_no_key:
  "\<not> live_key sample_libs (sample_web_request m path cookie) sample_store"
  "\<not> live_key sample_libs (sample_web_request m path cookie) (empty_store 0)"
  by (simp_all add: live_key_def sample_web_request_def sample_key_def empty_store_def HashAPIKey_def
      bearer_token_def TrimPrefix_def HasPrefix_def sample_libs_def)

theorem no_credentials_no_effect_witness:
  "\<exists>resp sess' t. web sample_libs sample_web sample_admin sample_rsa sample_random (\<lambda>_. id)
      (sample_web_request ''POST'' ''/admin/keys/1/revoke'' (Some ''guess'')) (Map.empty, sample_store) = (resp, sess', t)
    \<and> env_step sample_store t \<and> fst (web sample_libs sample_web sample_admin sample_rsa sample_random (\<lambda>_. id)
      (sample_web_request ''POST'' ''/admin/keys/1/revoke'' (Some ''guess'')) (Map.empty, empty_store 0)) = resp"
proof -
  let ?rq = "sample_web_request ''POST'' ''/admin/keys/1/revoke'' (Some ''guess'')"
  obtain resp sess' t where r: "web sample_libs sample_web sample_admin sample_rsa sample_random (\<lambda>_. id) ?rq
      (Map.empty, sample_store) = (resp, sess', t)" by (metis prod.exhaust)
  have "\<not> live_session ?rq Map.empty v" for v by (simp add: live_session_def)
  moreover have "w_form ?rq ''password'' \<noteq> ad_password sample_admin"
    by (simp add: sample_web_request_def sample_admin_def new_admin_def)
  ultimately show ?thesis
    using no_credentials_no_effect[OF _ sample_no_key(1) _ sample_no_key(2) _ r] r by blast
qed

section \<open>Redirects\<close>

























end
