(* ===== verification/SeedDemo.thy ===== *)
theory SeedDemo
  imports Delivery DkimKeys
begin

text \<open>
  \<^verbatim>\<open>cmd/seed-demo/main.go\<close>: the tool that fills a database with rows for screenshots, over
  the operations of the store. An error the code drops (\<open>_\<close>, or a call whose result is not
  read) leaves the zero value and the run goes on; \<open>Fatal\<close> is \<^verbatim>\<open>log.Fatal\<close>, which ends the
  process and keeps what was written. What is proved: the rows of a complete run, and that
  no run, complete or not, leaves the database malformed.
\<close>

datatype seed_end = Seeded | Fatal err | Panicked

text \<open>What the random generators give the run: two RSA keys and two API tokens.\<close>

record seed_random =
  sr_rsa1 :: "err + string"
  sr_rsa2 :: "err + string"
  sr_token1 :: "err + string"
  sr_token2 :: "err + string"

section \<open>The rows of the loop\<close>

definition demo_subjects :: "string list" where
  "demo_subjects = [''Welcome to client.example'', ''Your invoice #10'', ''Password reset'',
     ''Order confirmation'', ''Thanks for reaching out'', ''Your weekly digest'']"

definition demo_names :: "string list" where
  "demo_names = [''anna'', ''bob'', ''carla'', ''daan'', ''emma'', ''floris'', ''gijs'']"

definition demo_rounds :: nat where "demo_rounds = 58"

definition demo_created :: "nat \<Rightarrow> string" where
  "demo_created i = ''2026-07-'' @ append_int (1 + int i mod 20) 2 @ ''T''
     @ append_int (8 + int i mod 10) 2 @ '':'' @ append_int (int i mod 60) 2 @ '':00Z''"

text \<open>Every fifth email is of the shop; all of them carry the key of the client.\<close>

definition demo_email :: "int \<Rightarrow> int \<Rightarrow> int \<Rightarrow> nat \<Rightarrow> email" where
  "demo_email kid client shop i =
     \<lparr>e_id = 0, e_api_key_id = kid, e_domain_id = (if i mod 5 = 0 then shop else client),
      e_from = (if i mod 5 = 0 then ''orders@shop.example'' else ''hello@client.example''),
      e_to = demo_names ! (i mod length demo_names) @ Itoa (int i) @ ''@gmail.com'',
      e_from_name = [], e_to_name = [], e_original_to = [], e_reply_to = [],
      e_subject = demo_subjects ! (i mod length demo_subjects), e_html = [],
      e_text = ''Hi,'' @ [CHR 0x0A, CHR 0x0A] @ ''This is a demo email.'' @ [CHR 0x0A],
      e_headers = [], e_status = [], e_attempts = 0, e_next = [], e_error = [], e_idem = [],
      e_system = False, e_created = demo_created i, e_sent = []\<rparr>"

datatype demo_fate = DemoFailed | DemoRetry | DemoCanceled | DemoSent

definition demo_fate_of :: "nat \<Rightarrow> demo_fate" where
  "demo_fate_of i = (if i mod 9 = 3 then DemoFailed else if i mod 13 = 5 then DemoRetry
     else if i mod 17 = 7 then DemoCanceled else DemoSent)"

text \<open>The statements of one fate, their results dropped.\<close>

definition demo_history :: "nat \<Rightarrow> int \<Rightarrow> store \<Rightarrow> store" where
  "demo_history i n s = (case demo_fate_of i of
       DemoFailed \<Rightarrow> (let s1 = snd (RecordAttempt n 1 550 ''gmail-smtp-in.l.google.com''
                         ''550-5.1.1 The email account does not exist'' 412 s)
          in snd (MarkFailed n ''550-5.1.1 The email account that you tried to reach does not exist'' s1))
     | DemoRetry \<Rightarrow> (let s1 = snd (RecordAttempt n 1 421 ''gmail-smtp-in.l.google.com''
                         ''421-4.7.0 Try again later'' 380 s)
          in snd (MarkRetry n ''2026-07-21T09:00:00Z''
               ''421-4.7.0 IP not in allowed range, try again later'' s1))
     | DemoCanceled \<Rightarrow> (let s1 = snd (RecordAttempt n 1 0 ''mx.typo-domain.invalid''
                         ''dial tcp :25: connect: connection refused'' 5000 s);
               s2 = snd (MarkRetry n ''2026-07-21T09:00:00Z'' ''dial tcp :25: connect: connection refused'' s1)
          in snd (CancelEmail n s2))
     | DemoSent \<Rightarrow> (let s1 = snd (RecordAttempt n 1 250 ''gmail-smtp-in.l.google.com''
                         ''250 2.0.0 OK'' 245 s)
          in snd (MarkSent n (take 11 (demo_created i) @ ''12:00:00Z'') s1)))"

text \<open>The loop: it ends at the first email the database does not take.\<close>

fun demo_loop :: "int \<Rightarrow> int \<Rightarrow> int \<Rightarrow> nat list \<Rightarrow> store \<Rightarrow> seed_end \<times> store" where
  "demo_loop kid client shop [] s = (Seeded, s)"
| "demo_loop kid client shop (i # is) s =
     (case EnqueueEmail (demo_email kid client shop i) s of
        (Inl er, s1) \<Rightarrow> (Fatal er, s1)
      | (Inr n, s1) \<Rightarrow> demo_loop kid client shop is (demo_history i n s1))"

section \<open>The run\<close>

text \<open>
  \<^verbatim>\<open>shop, _ := s.CreateDomain(...)\<close>: \<^verbatim>\<open>CreateDomain\<close> with its pointer kept. It is nil when the
  INSERT fails and a zero domain when only the read of the new row does.
\<close>

definition shop_pointer :: "string \<Rightarrow> store \<Rightarrow> int option \<times> store" where
  "shop_pointer pem s = (case stmt (insert_domain ''shop.example'' ''mail1'' pem (Now s)) s of
       (Inl er, s1) \<Rightarrow> (None, s1)
     | (Inr i, s1) \<Rightarrow> (case GetDomain i s1 of
           (Inl er, s2) \<Rightarrow> (Some 0, s2)
         | (Inr d, s2) \<Rightarrow> (Some (d_id d), s2)))"

lemma shop_pointer_CreateDomain:
  "CreateDomain ''shop.example'' ''mail1'' pem s = (Inr d, t) \<Longrightarrow> shop_pointer pem s = (Some (d_id d), t)"
  by (auto simp: CreateDomain_def db_bind_def shop_pointer_def split: prod.splits sum.splits)

definition pem_of :: "err + string \<times> string \<Rightarrow> string" where
  "pem_of g = (case g of Inl er \<Rightarrow> [] | Inr (priv, pub) \<Rightarrow> priv)"

definition hash_of :: "err + string \<times> string \<Rightarrow> string" where
  "hash_of g = (case g of Inl er \<Rightarrow> [] | Inr (token, hash) \<Rightarrow> hash)"

definition demo_checked :: string where "demo_checked = ''2026-07-21T06:00:00Z''"

definition demo_keys :: "'a libs_scheme \<Rightarrow> seed_random \<Rightarrow> int \<Rightarrow> int \<Rightarrow> store \<Rightarrow> int \<times> store" where
  "demo_keys L g client shop s =
     (case CreateAPIKey ''website contact form'' client (hash_of (GenerateAPIKey L (sr_token1 g))) s of
        (res, s1) \<Rightarrow>
          (let kid = (case res of Inl er \<Rightarrow> 0 | Inr k \<Rightarrow> k);
               s2 = snd (TouchAPIKey kid ''2026-07-20T18:12:00Z'' s1);
               s3 = snd (CreateAPIKey ''webshop orders'' shop (hash_of (GenerateAPIKey L (sr_token2 g))) s2)
           in (kid, s3)))"

definition seed_rows :: "'a libs_scheme \<Rightarrow> rsa \<Rightarrow> seed_random \<Rightarrow> store \<Rightarrow> seed_end \<times> store" where
  "seed_rows L R g s =
     (case CreateDomain ''client.example'' ''mail1'' (pem_of (Generate R (sr_rsa1 g))) s of
        (Inl er, s1) \<Rightarrow> (Fatal er, s1)
      | (Inr client, s1) \<Rightarrow>
          (let s2 = snd (SetDomainVerification (d_id client) True True True demo_checked s1)
           in case shop_pointer (pem_of (Generate R (sr_rsa2 g))) s2 of
                (None, s3) \<Rightarrow> (Panicked, s3)
              | (Some shop, s3) \<Rightarrow>
                  (let s4 = snd (SetDomainVerification shop True True False demo_checked s3)
                   in case demo_keys L g (d_id client) shop s4 of
                        (kid, s5) \<Rightarrow> demo_loop kid (d_id client) shop [0..<demo_rounds] s5)))"

text \<open>
  The arguments are those of the process; \<open>opened\<close> is the outcome of \<^verbatim>\<open>store.Open\<close>, an error or
  the database at the directory named.
\<close>

definition seed_main ::
    "'a libs_scheme \<Rightarrow> rsa \<Rightarrow> seed_random \<Rightarrow> string list \<Rightarrow> (string \<Rightarrow> err + store) \<Rightarrow> seed_end \<times> store option" where
  "seed_main L R g args opened = (case args of
       _ # dir # _ \<Rightarrow> (case opened dir of
           Inl er \<Rightarrow> (Fatal er, None)
         | Inr s \<Rightarrow> (case seed_rows L R g s of (res, t) \<Rightarrow> (res, Some t)))
     | _ \<Rightarrow> (Panicked, None))"

section \<open>What a complete run leaves\<close>

text \<open>
  \<open>demo_stage s r as t\<close>: since \<open>s\<close> exactly the email \<open>r\<close> and the attempts \<open>as\<close> were added.
\<close>

definition demo_stage :: "store \<Rightarrow> email_row \<Rightarrow> attempt list \<Rightarrow> store \<Rightarrow> bool" where
  "demo_stage s r as t \<longleftrightarrow> healthy t \<and> t_domains t = t_domains s \<and> t_keys t = t_keys s \<and>
     t_emails t = t_emails s @ [r] \<and> t_attempts t = t_attempts s @ as \<and> er_id r \<notin> er_id ` set (t_emails s)"

lemma update_where_last:
  assumes "er_id r \<notin> er_id ` set rs"
  shows "update_where (\<lambda>q. er_id q = er_id r \<and> g q) f (rs @ [r]) = rs @ [if g r then f r else r]"
  using assms by (induction rs) (auto simp: update_where_def)

lemma demo_stage_insert:
  assumes "healthy s" "e_domain_id e \<in> d_id ` set (t_domains s)"
    "e_api_key_id e = 0 \<or> e_api_key_id e \<in> k_id ` set (t_keys s)" "e_idem e = []"
  obtains r t where "EnqueueEmail e s = (Inr (er_id r), t)" "demo_stage s r [] t"
    "r = new_row (er_id r) (with_defaults (Now s) e)"
proof -
  let ?e = "with_defaults (Now s) e"
  let ?r = "new_row (next_rowid (map er_id (t_emails s))) ?e"
  obtain s1 where s1: "env_step s s1" "healthy s1" "EnqueueEmail e s = insert_email ?e s1"
    unfolding EnqueueEmail_def using stmt_healthy[OF assms(1)] by blast
  have "idem_entry ?r = None" using assms(4) by (simp add: idem_entry_def new_row_def with_defaults_def)
  moreover have "e_domain_id ?e = e_domain_id e" "e_api_key_id ?e = e_api_key_id e"
    by (simp_all add: with_defaults_def)
  ultimately have "insert_email ?e s1 = (Inr (er_id ?r), s1\<lparr>t_emails := t_emails s @ [?r]\<rparr>)"
    using assms s1(1) by (auto simp: insert_email_def Let_def)
  moreover have "demo_stage s ?r [] (s1\<lparr>t_emails := t_emails s @ [?r]\<rparr>)"
    using s1 next_rowid_fresh[of "map er_id (t_emails s)"] by (simp add: demo_stage_def new_row_def)
  moreover have "?r = new_row (er_id ?r) ?e" by (simp add: new_row_def)
  ultimately show thesis using that[of ?r] s1(3) by simp
qed

lemma demo_stage_attempt:
  assumes "demo_stage s r [] t"
  obtains a where "demo_stage s r [a] (snd (RecordAttempt (er_id r) no code mx resp ms t))"
    "a_email_id a = er_id r" "a_no a = no" "a_code a = code"
proof -
  obtain t1 where "env_step t t1" "healthy t1"
      "RecordAttempt (er_id r) no code mx resp ms t = insert_attempt (er_id r) no code mx resp ms (Now t) t1"
    unfolding RecordAttempt_def using stmt_healthy assms unfolding demo_stage_def by blast
  with assms that show thesis by (simp add: demo_stage_def insert_attempt_def)
qed

lemma demo_stage_mark:
  assumes "demo_stage s r as t" "er_id (f r) = er_id r"
  shows "demo_stage s (f r) as (snd (exec_upd (update_email (er_id r) f) t))"
proof -
  obtain t1 where "env_step t t1" "healthy t1"
      "exec_upd (update_email (er_id r) f) t = (Inr (), update_email (er_id r) f t1)"
    using exec_upd_healthy assms(1) unfolding demo_stage_def by blast
  with assms update_where_last[of r "t_emails s" "\<lambda>_. True" f] show ?thesis
    by (simp add: demo_stage_def)
qed

lemma demo_stage_cancel:
  assumes "demo_stage s r as t" "er_status r = ''queued''"
  shows "demo_stage s (r\<lparr>er_status := ''canceled''\<rparr>) as (snd (CancelEmail (er_id r) t))"
proof -
  let ?hit = "\<lambda>q. er_id q = er_id r \<and> er_status q = ''queued''"
  let ?f = "\<lambda>q. q\<lparr>er_status := ''canceled''\<rparr>"
  obtain t1 where "env_step t t1" "healthy t1" "CancelEmail (er_id r) t =
      (if filter ?hit (t_emails t1) = [] then Inl ErrNotCancelable else Inr (),
       t1\<lparr>t_emails := update_where ?hit ?f (t_emails t1)\<rparr>)"
    unfolding CancelEmail_def guarded_update_def Let_def using stmt_healthy assms(1)
    unfolding demo_stage_def by blast
  with assms update_where_last[of r "t_emails s" "\<lambda>q. er_status q = ''queued''" ?f] show ?thesis
    by (simp add: demo_stage_def)
qed

text \<open>The email the \<open>i\<close>-th round leaves, and its one attempt.\<close>

definition demo_status :: "demo_fate \<Rightarrow> string" where
  "demo_status fate = (case fate of DemoFailed \<Rightarrow> ''failed'' | DemoRetry \<Rightarrow> ''queued''
     | DemoCanceled \<Rightarrow> ''canceled'' | DemoSent \<Rightarrow> ''sent'')"

definition demo_code :: "demo_fate \<Rightarrow> int" where
  "demo_code fate = (case fate of DemoFailed \<Rightarrow> 550 | DemoRetry \<Rightarrow> 421 | DemoCanceled \<Rightarrow> 0 | DemoSent \<Rightarrow> 250)"

definition demo_row :: "int \<Rightarrow> int \<Rightarrow> int \<Rightarrow> nat \<Rightarrow> email_row \<Rightarrow> attempt \<Rightarrow> bool" where
  "demo_row kid client shop i r a \<longleftrightarrow>
     er_status r = demo_status (demo_fate_of i) \<and> er_attempts r = 1 \<and>
     er_created r = demo_created i \<and> er_domain_id r = (if i mod 5 = 0 then shop else client) \<and>
     er_api_key_id r = (if kid = 0 then None else Some kid) \<and>
     er_sent r = (if demo_fate_of i = DemoSent then take 11 (demo_created i) @ ''12:00:00Z'' else []) \<and>
     a_email_id a = er_id r \<and> a_no a = 1 \<and> a_code a = demo_code (demo_fate_of i)"

lemma demo_round:
  assumes s: "healthy s" "client \<in> d_id ` set (t_domains s)" "shop \<in> d_id ` set (t_domains s)"
    "kid = 0 \<or> kid \<in> k_id ` set (t_keys s)"
  obtains n s1 r a where "EnqueueEmail (demo_email kid client shop i) s = (Inr n, s1)"
    "demo_stage s r [a] (demo_history i n s1)" "demo_row kid client shop i r a"
proof -
  let ?e = "demo_email kid client shop i"
  have e: "e_domain_id ?e \<in> d_id ` set (t_domains s)" "e_idem ?e = []"
      "e_api_key_id ?e = 0 \<or> e_api_key_id ?e \<in> k_id ` set (t_keys s)"
    using s by (simp_all add: demo_email_def)
  obtain r s1 where ins: "EnqueueEmail ?e s = (Inr (er_id r), s1)" "demo_stage s r [] s1"
      and r: "r = new_row (er_id r) (with_defaults (Now s) ?e)"
    using demo_stage_insert[OF s(1) e(1,3,2)] .
  have created: "demo_created i \<noteq> []" by (simp add: demo_created_def)
  have sel: "er_status r = ''queued''" "er_attempts r = 0" "er_created r = demo_created i" "er_sent r = []"
      "er_domain_id r = (if i mod 5 = 0 then shop else client)"
      "er_api_key_id r = (if kid = 0 then None else Some kid)"
    by (subst r, simp add: new_row_def with_defaults_def demo_email_def created)+
  note attempt = demo_stage_attempt[OF ins(2)] and mark = demo_stage_mark
  have mark_ids: "er_id (failed_row m q) = er_id q" "er_id (retry_row nx m q) = er_id q"
      "er_id (sent_row tm q) = er_id q" for m nx tm q
    by (simp_all add: failed_row_def retry_row_def sent_row_def)
  show thesis
  proof (cases "demo_fate_of i")
    case DemoFailed
    obtain a where a: "a_email_id a = er_id r" "a_no a = 1" "a_code a = 550" "demo_stage s r [a]
        (snd (RecordAttempt (er_id r) 1 550 ''gmail-smtp-in.l.google.com''
           ''550-5.1.1 The email account does not exist'' 412 s1))"
      using attempt by metis
    have "demo_stage s (failed_row ''550-5.1.1 The email account that you tried to reach does not exist'' r) [a] (demo_history i (er_id r) s1)"
      using mark[OF a(4), of "failed_row ''550-5.1.1 The email account that you tried to reach does not exist''"] by (simp only: demo_history_def DemoFailed demo_fate.case Let_def MarkFailed_def mark_ids)
    then show thesis
      by (rule that[OF ins(1)])
        (simp add: demo_row_def demo_status_def demo_code_def failed_row_def a(1,2,3) sel DemoFailed)
  next
    case DemoRetry
    obtain a where a: "a_email_id a = er_id r" "a_no a = 1" "a_code a = 421" "demo_stage s r [a]
        (snd (RecordAttempt (er_id r) 1 421 ''gmail-smtp-in.l.google.com'' ''421-4.7.0 Try again later'' 380 s1))"
      using attempt by metis
    have "demo_stage s (retry_row ''2026-07-21T09:00:00Z'' ''421-4.7.0 IP not in allowed range, try again later'' r) [a] (demo_history i (er_id r) s1)"
      using mark[OF a(4), of "retry_row ''2026-07-21T09:00:00Z'' ''421-4.7.0 IP not in allowed range, try again later''"] by (simp only: demo_history_def DemoRetry demo_fate.case Let_def MarkRetry_def mark_ids)
    then show thesis
      by (rule that[OF ins(1)])
        (simp add: demo_row_def demo_status_def demo_code_def retry_row_def a(1,2,3) sel DemoRetry)
  next
    case DemoCanceled
    let ?msg = "''dial tcp :25: connect: connection refused''"
    let ?r = "retry_row ''2026-07-21T09:00:00Z'' ?msg r"
    obtain a where a: "a_email_id a = er_id r" "a_no a = 1" "a_code a = 0" "demo_stage s r [a]
        (snd (RecordAttempt (er_id r) 1 0 ''mx.typo-domain.invalid'' ?msg 5000 s1))"
      using attempt by metis
    have id: "er_id ?r = er_id r" "er_status ?r = ''queued''" by (simp_all add: retry_row_def)
    have "demo_stage s ?r [a] (snd (exec_upd (update_email (er_id r) (retry_row ''2026-07-21T09:00:00Z'' ?msg))
        (snd (RecordAttempt (er_id r) 1 0 ''mx.typo-domain.invalid'' ?msg 5000 s1))))"
      by (rule mark[OF a(4)]) (rule id(1))
    note c = demo_stage_cancel[OF this id(2), unfolded id(1)]
    have "demo_stage s (?r\<lparr>er_status := ''canceled''\<rparr>) [a] (demo_history i (er_id r) s1)"
      using c by (simp only: demo_history_def DemoCanceled demo_fate.case Let_def MarkRetry_def)
    then show thesis
      by (rule that[OF ins(1)])
        (simp add: demo_row_def demo_status_def demo_code_def retry_row_def a(1,2,3) sel DemoCanceled)
  next
    case DemoSent
    obtain a where a: "a_email_id a = er_id r" "a_no a = 1" "a_code a = 250" "demo_stage s r [a]
        (snd (RecordAttempt (er_id r) 1 250 ''gmail-smtp-in.l.google.com'' ''250 2.0.0 OK'' 245 s1))"
      using attempt by metis
    have "demo_stage s (sent_row (take 11 (demo_created i) @ ''12:00:00Z'') r) [a] (demo_history i (er_id r) s1)"
      using mark[OF a(4), of "sent_row (take 11 (demo_created i) @ ''12:00:00Z'')"] by (simp only: demo_history_def DemoSent demo_fate.case Let_def MarkSent_def mark_ids)
    then show thesis
      by (rule that[OF ins(1)])
        (simp add: demo_row_def demo_status_def demo_code_def sent_row_def a(1,2,3) sel DemoSent)
  qed
qed

lemma demo_loop_complete:
  assumes "healthy s" "client \<in> d_id ` set (t_domains s)" "shop \<in> d_id ` set (t_domains s)"
    "kid = 0 \<or> kid \<in> k_id ` set (t_keys s)"
  shows "\<exists>t recs. demo_loop kid client shop is s = (Seeded, t) \<and>
     t_domains t = t_domains s \<and> t_keys t = t_keys s \<and>
     t_emails t = t_emails s @ map fst recs \<and> t_attempts t = t_attempts s @ map snd recs \<and>
     list_all2 (\<lambda>i p. demo_row kid client shop i (fst p) (snd p)) is recs"
  using assms
proof (induction "is" arbitrary: s)
  case Nil
  show ?case by (intro exI[of _ s] exI[of _ "[]"]) simp
next
  case (Cons i js)
  obtain n s1 r a where "EnqueueEmail (demo_email kid client shop i) s = (Inr n, s1)"
      and st: "demo_stage s r [a] (demo_history i n s1)" and row: "demo_row kid client shop i r a"
    using demo_round[OF Cons.prems] .
  then have loop: "demo_loop kid client shop (i # js) s = demo_loop kid client shop js (demo_history i n s1)"
    by simp
  obtain t recs where "demo_loop kid client shop js (demo_history i n s1) = (Seeded, t)"
      "t_domains t = t_domains s" "t_keys t = t_keys s"
      "t_emails t = (t_emails s @ [r]) @ map fst recs" "t_attempts t = (t_attempts s @ [a]) @ map snd recs"
      "list_all2 (\<lambda>i p. demo_row kid client shop i (fst p) (snd p)) js recs"
    using Cons.IH[of "demo_history i n s1"] Cons.prems st unfolding demo_stage_def by auto
  with loop row show ?case by (intro exI[of _ t] exI[of _ "(r, a) # recs"]) simp
qed

text \<open>The domains and the keys: on a healthy database without these names nothing is refused.\<close>

definition only_domains :: "store \<Rightarrow> store \<Rightarrow> domain list \<Rightarrow> bool" where
  "only_domains s t ds \<longleftrightarrow> healthy t \<and> t_domains t = ds \<and> t_keys t = t_keys s \<and>
     t_emails t = t_emails s \<and> t_attempts t = t_attempts s"

lemma CreateDomain_healthy:
  assumes "healthy s" "name \<notin> d_name ` set (t_domains s)"
  obtains d t where "CreateDomain name sel pem s = (Inr d, t)" "only_domains s t (t_domains s @ [d])"
    "d_name d = name" "d_id d \<notin> d_id ` set (t_domains s)"
proof -
  let ?i = "next_rowid (map d_id (t_domains s))"
  obtain s1 where s1: "env_step s s1" "healthy s1"
      "stmt (insert_domain name sel pem (Now s)) s = insert_domain name sel pem (Now s) s1"
    using stmt_healthy[OF assms(1)] by blast
  obtain d where d: "insert_domain name sel pem (Now s) s1 = (Inr ?i, s1\<lparr>t_domains := t_domains s @ [d]\<rparr>)"
      "d_id d = ?i" "d_name d = name"
    using assms(2) s1(1) by (simp add: insert_domain_def Let_def)
  let ?s2 = "s1\<lparr>t_domains := t_domains s @ [d]\<rparr>"
  have fresh: "?i \<notin> d_id ` set (t_domains s)"
    using next_rowid_fresh[of "map d_id (t_domains s)"] by simp
  have "d_id x \<noteq> ?i" if "x \<in> set (t_domains s)" for x
    using next_rowid_gt[of "d_id x" "map d_id (t_domains s)"] that by simp
  then have "find (\<lambda>d. d_id d = ?i) (t_domains s) = None"
    by (simp add: find_None_iff)
  then have "find (\<lambda>d. d_id d = ?i) (t_domains ?s2) = Some d"
    using d(2) by (simp add: find_append)
  moreover have "healthy ?s2" using s1(2) by simp
  ultimately obtain t where t: "env_step ?s2 t" "healthy t" "GetDomain ?i ?s2 = (Inr d, t)"
    using GetDomain_healthy by blast
  have "CreateDomain name sel pem s = (Inr d, t)"
    using s1(3) d(1) t(3) by (simp add: CreateDomain_def db_bind_def)
  moreover have "only_domains s t (t_domains s @ [d])"
    using s1(1) t(1,2) by (simp add: only_domains_def)
  ultimately show thesis using that d(2,3) fresh by simp
qed

lemma SetDomainVerification_healthy:
  assumes "healthy s"
  shows "only_domains s (snd (SetDomainVerification i spf dkim dmarc tm s)) (update_where (\<lambda>d. d_id d = i)
     (\<lambda>d. d\<lparr>d_spf := spf, d_dkim := dkim, d_dmarc := dmarc, d_last_checked := tm\<rparr>) (t_domains s))"
proof -
  obtain s1 where "env_step s s1" "healthy s1" "SetDomainVerification i spf dkim dmarc tm s =
      (Inr (), set_verification i spf dkim dmarc tm s1)"
    unfolding SetDomainVerification_def using exec_upd_healthy[OF assms] .
  then show ?thesis by (simp add: only_domains_def set_verification_def)
qed

text \<open>Adding keys touches the keys only; the id of a key that was refused reads as 0.\<close>

definition only_keys :: "store \<Rightarrow> store \<Rightarrow> bool" where
  "only_keys s t \<longleftrightarrow> healthy t \<and> t_domains t = t_domains s \<and> k_id ` set (t_keys s) \<subseteq> k_id ` set (t_keys t) \<and>
     t_emails t = t_emails s \<and> t_attempts t = t_attempts s"

lemma only_keys_trans: "only_keys s t \<Longrightarrow> only_keys t u \<Longrightarrow> only_keys s u"
  by (auto simp: only_keys_def)

lemma CreateAPIKey_healthy:
  assumes "healthy s" "CreateAPIKey nm i h s = (res, t)"
  shows "only_keys s t \<and> (\<forall>k. res = Inr k \<longrightarrow> k \<in> k_id ` set (t_keys t))"
proof -
  obtain s1 where "env_step s s1" "healthy s1" "CreateAPIKey nm i h s = insert_key nm i h (Now s) s1"
    unfolding CreateAPIKey_def using stmt_healthy[OF assms(1)] by blast
  with assms(2) show ?thesis
    by (auto simp: only_keys_def insert_key_def Let_def split: if_splits)
qed

lemma TouchAPIKey_healthy:
  assumes "healthy s"
  shows "only_keys s (snd (TouchAPIKey k tm s))"
proof -
  obtain s1 where "env_step s s1" "healthy s1" "TouchAPIKey k tm s = (Inr (), touch_key k tm s1)"
    unfolding TouchAPIKey_def using exec_upd_healthy[OF assms] .
  then show ?thesis by (simp add: only_keys_def touch_key_def image_update_where)
qed

lemma demo_keys_healthy:
  assumes "healthy s" "demo_keys L g client shop s = (kid, t)"
  shows "only_keys s t \<and> (kid = 0 \<or> kid \<in> k_id ` set (t_keys t))"
proof -
  obtain res s1 where c: "CreateAPIKey ''website contact form'' client (hash_of (GenerateAPIKey L (sr_token1 g))) s = (res, s1)"
    by fastforce
  let ?k = "case res of Inl er \<Rightarrow> 0 | Inr k \<Rightarrow> k"
  let ?s2 = "snd (TouchAPIKey ?k ''2026-07-20T18:12:00Z'' s1)"
  obtain res3 s3 where c3: "CreateAPIKey ''webshop orders'' shop (hash_of (GenerateAPIKey L (sr_token2 g))) ?s2 = (res3, s3)"
    by fastforce
  have 1: "only_keys s s1" "\<forall>k. res = Inr k \<longrightarrow> k \<in> k_id ` set (t_keys s1)"
    using CreateAPIKey_healthy[OF assms(1) c] by blast+
  have 2: "only_keys s1 ?s2" using TouchAPIKey_healthy 1(1) unfolding only_keys_def by blast
  have "healthy ?s2" using 2 by (simp add: only_keys_def)
  then have 3: "only_keys ?s2 s3" using CreateAPIKey_healthy[OF _ c3] by blast
  have kt: "kid = ?k" "t = s3" using assms(2) c c3 by (simp_all add: demo_keys_def Let_def)
  have "kid = 0 \<or> kid \<in> k_id ` set (t_keys s1)" using 1(2) kt(1) by (auto split: sum.splits)
  moreover have "k_id ` set (t_keys s1) \<subseteq> k_id ` set (t_keys s3)"
    using only_keys_trans[OF 2 3] by (simp add: only_keys_def)
  ultimately show ?thesis using only_keys_trans[OF only_keys_trans[OF 1(1) 2] 3] kt(2) by blast
qed

text \<open>
  On a healthy database that knows neither domain the run completes: it adds the verified
  client, the shop without DMARC, and 58 emails, each with its fate and one attempt.
\<close>

theorem seed_complete:
  assumes s: "healthy s" "''client.example'' \<notin> d_name ` set (t_domains s)"
    "''shop.example'' \<notin> d_name ` set (t_domains s)"
  shows "\<exists>kid client shop t recs. seed_rows L R g s = (Seeded, t) \<and>
     t_domains t = t_domains s @ [client, shop] \<and>
     d_name client = ''client.example'' \<and> Verified client \<and>
     d_name shop = ''shop.example'' \<and> \<not> Verified shop \<and>
     t_emails t = t_emails s @ map fst recs \<and> t_attempts t = t_attempts s @ map snd recs \<and>
     list_all2 (\<lambda>i p. demo_row kid (d_id client) (d_id shop) i (fst p) (snd p)) [0..<58] recs"
proof -
  let ?set = "\<lambda>i spf dkim dmarc d. if d_id d = i then d\<lparr>d_spf := spf, d_dkim := dkim, d_dmarc := dmarc,
      d_last_checked := demo_checked\<rparr> else d"
  obtain c s1 where c: "CreateDomain ''client.example'' ''mail1'' (pem_of (Generate R (sr_rsa1 g))) s = (Inr c, s1)"
      "only_domains s s1 (t_domains s @ [c])" "d_name c = ''client.example''" "d_id c \<notin> d_id ` set (t_domains s)"
    using CreateDomain_healthy[OF s(1,2)] .
  let ?c = "?set (d_id c) True True True c"
  let ?s2 = "snd (SetDomainVerification (d_id c) True True True demo_checked s1)"
  have others: "map (?set i a b x) ds = ds" if "i \<notin> d_id ` set ds" for i a b x ds
    using that by (induction ds) auto
  have s2: "only_domains s ?s2 (t_domains s @ [?c])"
    using SetDomainVerification_healthy[of s1 "d_id c" True True True demo_checked] c(2,4) others[OF c(4)]
    by (simp add: only_domains_def update_where_def)
  have "''shop.example'' \<notin> d_name ` set (t_domains ?s2)" "healthy ?s2"
    using s2 s(3) c(3) by (auto simp: only_domains_def)
  then obtain d s3 where d: "CreateDomain ''shop.example'' ''mail1'' (pem_of (Generate R (sr_rsa2 g))) ?s2 = (Inr d, s3)"
      "only_domains ?s2 s3 (t_domains ?s2 @ [d])" "d_name d = ''shop.example''" "d_id d \<notin> d_id ` set (t_domains ?s2)"
    using CreateDomain_healthy by blast
  let ?d = "?set (d_id d) True True False d"
  let ?s4 = "snd (SetDomainVerification (d_id d) True True False demo_checked s3)"
  have d4: "d_id d \<notin> d_id ` set (t_domains s @ [?c])" using d(4) s2 by (simp add: only_domains_def)
  have s4: "only_domains s ?s4 (t_domains s @ [?c, ?d])"
    using SetDomainVerification_healthy[of s3 "d_id d" True True False demo_checked] d(2) s2 others[OF d4]
    by (simp add: only_domains_def update_where_def)
  obtain kid s5 where k: "demo_keys L g (d_id c) (d_id d) ?s4 = (kid, s5)" by fastforce
  have s5: "only_keys ?s4 s5" "kid = 0 \<or> kid \<in> k_id ` set (t_keys s5)"
    using demo_keys_healthy[OF _ k] s4 by (simp_all add: only_domains_def)
  then have 5: "healthy s5" "t_domains s5 = t_domains s @ [?c, ?d]" "t_emails s5 = t_emails s"
      "t_attempts s5 = t_attempts s"
    using s4 by (simp_all add: only_keys_def only_domains_def)
  have run: "seed_rows L R g s = demo_loop kid (d_id c) (d_id d) [0..<58] s5"
    using c(1) shop_pointer_CreateDomain[OF d(1)] k by (simp add: seed_rows_def Let_def demo_rounds_def)
  obtain t recs where t: "demo_loop kid (d_id c) (d_id d) [0..<58] s5 = (Seeded, t)"
      "t_domains t = t_domains s5" "t_emails t = t_emails s5 @ map fst recs"
      "t_attempts t = t_attempts s5 @ map snd recs"
      "list_all2 (\<lambda>i p. demo_row kid (d_id c) (d_id d) i (fst p) (snd p)) [0..<58] recs"
    using demo_loop_complete[OF 5(1) _ _ s5(2), of "d_id c" "d_id d" "[0..<58]"] 5(2) by auto
  have sel: "d_id ?c = d_id c" "d_id ?d = d_id d" "d_name ?c = ''client.example''" "d_name ?d = ''shop.example''"
      "Verified ?c" "\<not> Verified ?d"
    using c(3) d(3) by (simp_all add: Verified_def)
  show ?thesis
    by (rule exI[of _ kid], rule exI[of _ ?c], rule exI[of _ ?d], rule exI[of _ t], rule exI[of _ recs])
      (intro conjI; simp only: sel run t 5; simp)
qed

text \<open>How the 58 fates are spread.\<close>

lemma demo_fates:
  "length (filter (\<lambda>i. demo_fate_of i = DemoSent) [0..<58]) = 44"
  "length (filter (\<lambda>i. demo_fate_of i = DemoFailed) [0..<58]) = 7"
  "length (filter (\<lambda>i. demo_fate_of i = DemoRetry) [0..<58]) = 4"
  "length (filter (\<lambda>i. demo_fate_of i = DemoCanceled) [0..<58]) = 3"
  by (simp_all add: demo_fate_of_def upt_rec)

text \<open>
  Three things no screenshot shows: an email of the shop carries the client's key, which
  the API would refuse for it; a sent email can be older than its own creation, as the loop
  stamps every delivery at noon; and the deferred emails stay queued, so a service started
  on this database delivers them.
\<close>

lemma demo_wrong_key: "demo_row kid client shop 0 r a \<Longrightarrow> kid \<noteq> 0 \<Longrightarrow> er_domain_id r = shop \<and> er_api_key_id r = Some kid"
  by (simp add: demo_row_def)

lemma demo_created_9: "demo_created 9 = ''2026-07-10T17:09:00Z''"
  by code_simp

lemma demo_sent_before_created:
  assumes "demo_row kid client shop 9 r a"
  shows "er_status r = ''sent'' \<and> er_sent r < er_created r"
  using assms
  by (simp add: demo_row_def demo_status_def demo_fate_of_def demo_created_9 less_char_def)

section \<open>Every run keeps the database well-formed\<close>

lemma shop_pointer_state: "snd (shop_pointer pem s) = snd (CreateDomain ''shop.example'' ''mail1'' pem s)"
  by (auto simp: CreateDomain_def db_bind_def shop_pointer_def split: prod.splits sum.splits)

context store_guarantee
begin

lemma keeps_demo_history: "R s (snd (EnqueueEmail e s)) \<and> R s (demo_history i n s)"
proof -
  have 1: "R s (snd (RecordAttempt n no code mx resp ms s))" for no code mx resp ms by (rule keeps)
  have 2: "R t (snd (MarkFailed n m t))" "R t (snd (MarkRetry n nx m t))" "R t (snd (MarkSent n tm t))"
      "R t (snd (CancelEmail n t))" for t m nx tm
    by (rule keeps)+
  have "R s (demo_history i n s)"
    unfolding demo_history_def Let_def
    by (cases "demo_fate_of i") (simp_all only: demo_fate.case, (blast intro: R_trans 1 2)+)
  then show ?thesis by (simp add: keeps)
qed

lemma keeps_demo_loop: "R s (snd (demo_loop kid client shop is s))"
proof (induction "is" arbitrary: s)
  case (Cons i js)
  obtain res s1 where e: "EnqueueEmail (demo_email kid client shop i) s = (res, s1)" by fastforce
  then have "R s s1" using keeps_demo_history[of s "demo_email kid client shop i"] by simp
  moreover have "R s1 (snd (demo_loop kid client shop js (demo_history i n s1)))" for n
    using R_trans keeps_demo_history Cons.IH by blast
  ultimately show ?case using e by (cases res) (auto intro: R_trans)
qed (simp add: R_refl)

lemma keeps_demo_keys: "R s (snd (demo_keys L g client shop s))"
proof -
  obtain res s1 where c: "CreateAPIKey ''website contact form'' client (hash_of (GenerateAPIKey L (sr_token1 g))) s = (res, s1)"
    by fastforce
  then have "R s s1" using keeps_ingress(3) by (metis snd_conv)
  moreover have "R s1 (snd (CreateAPIKey n i h (snd (TouchAPIKey k tm s1))))" for n i h k tm
    by (rule R_trans[OF keeps_ingress(5) keeps_ingress(3)])
  ultimately show ?thesis using c by (simp add: demo_keys_def Let_def) (blast intro: R_trans)
qed

lemma keeps_seed_rows: "R s (snd (seed_rows L R' g s))"
proof -
  obtain c s1 where c: "CreateDomain ''client.example'' ''mail1'' (pem_of (Generate R' (sr_rsa1 g))) s = (c, s1)"
    by fastforce
  then have 1: "R s s1" using keeps_ingress(1) by (metis snd_conv)
  show ?thesis
  proof (cases c)
    case (Inl er)
    with c 1 show ?thesis by (simp add: seed_rows_def)
  next
    case (Inr client)
    let ?s2 = "snd (SetDomainVerification (d_id client) True True True demo_checked s1)"
    obtain p s3 where p: "shop_pointer (pem_of (Generate R' (sr_rsa2 g))) ?s2 = (p, s3)" by fastforce
    then have "R ?s2 s3" using shop_pointer_state keeps_ingress(1) by (metis snd_conv)
    then have 3: "R s s3" using 1 keeps_ingress(2) by (blast intro: R_trans)
    show ?thesis
    proof (cases p)
      case None
      with c Inr p 3 show ?thesis by (simp add: seed_rows_def)
    next
      case (Some shop)
      let ?s4 = "snd (SetDomainVerification shop True True False demo_checked s3)"
      obtain kid s5 where k: "demo_keys L g (d_id client) shop ?s4 = (kid, s5)" by fastforce
      then have "R ?s4 s5" using keeps_demo_keys by (metis snd_conv)
      then have "R s s5" using 3 keeps_ingress(2) by (blast intro: R_trans)
      moreover have "seed_rows L R' g s = demo_loop kid (d_id client) shop [0..<demo_rounds] s5"
        using c Inr p Some k by (simp add: seed_rows_def Let_def)
      ultimately show ?thesis using keeps_demo_loop by (metis R_trans)
    qed
  qed
qed

end

theorem seed_wf:
  assumes "wf_store s" "opened dir = Inr s" "seed_main L R g (prog # dir # args) opened = (res, Some t)"
  shows "wf_store t"
  using assms wf.keeps_seed_rows[of s L R g]
  by (auto simp: seed_main_def R_wf_def split: prod.splits)

end
